(* ===== verification/Go_Prelude.thy ===== *)
theory Go_Prelude
  imports Main
    "HOL-Library.Sublist"
    "HOL-Library.List_Lexorder"
    "HOL-Library.Char_ord"
    "HOL-Library.Multiset"
begin

text \<open>
  The part of the Go language and standard library that the gateway's code uses, shared by
  every component: byte strings and the functions of package \<open>strings\<close>, results that may be
  errors, JSON documents, and the rule collections of the development.

  A Go \<open>string\<close> is a sequence of bytes, so it is an Isabelle \<open>string\<close> (a \<open>char\<close> is a byte) and
  Go's \<open>==\<close> and \<open><\<close> on strings are equality and the byte-wise lexicographic order.
  \<open>strings.ToLower\<close> and \<open>strings.EqualFold\<close> are modelled on ASCII letters; bytes of a non-ASCII
  rune are left as they are.

  A Go \<open>map\<close> whose iteration order can be observed is modelled by the list of its entries in
  the order of one iteration. Go leaves that order unspecified, so a theorem about such a
  function quantifies over the list.
\<close>

section \<open>Rule collections\<close>

named_theorems go_simps \<open>evaluation of the string library on concrete arguments\<close>
named_theorems go_splits \<open>inversion of a successful result\<close>

section \<open>Results\<close>

text \<open>A fallible function returns \<open>Inl e\<close> for a non-nil error and \<open>Inr v\<close> otherwise.\<close>

type_synonym ('e, 'a) result = "'e + 'a"

definition is_ok :: "('e, 'a) result \<Rightarrow> bool" where
  "is_ok r \<longleftrightarrow> (case r of Inl _ \<Rightarrow> False | Inr _ \<Rightarrow> True)"

lemma is_ok_simps [simp]: "\<not> is_ok (Inl e)" "is_ok (Inr v)"
  by (simp_all add: is_ok_def)

lemma is_ok_iff: "is_ok r \<longleftrightarrow> (\<exists>v. r = Inr v)"
  by (cases r) simp_all

definition bind_res :: "('e, 'a) result \<Rightarrow> ('a \<Rightarrow> ('e, 'b) result) \<Rightarrow> ('e, 'b) result" where
  "bind_res r f = (case r of Inl e \<Rightarrow> Inl e | Inr v \<Rightarrow> f v)"

lemma bind_res_simps [simp]: "bind_res (Inl e) f = Inl e" "bind_res (Inr v) f = f v"
  by (simp_all add: bind_res_def)

lemma bind_res_Inr [go_splits]:
  "bind_res r f = Inr w \<longleftrightarrow> (\<exists>v. r = Inr v \<and> f v = Inr w)"
  by (cases r) simp_all

text \<open>
  The loop \<open>for _, x := range xs { if err := f(x); err != nil { return err } }\<close>: a check
  returns \<open>None\<close> for a nil error.
\<close>

fun first_err :: "('a \<Rightarrow> 'e option) \<Rightarrow> 'a list \<Rightarrow> 'e option" where
  "first_err f [] = None"
| "first_err f (x # xs) = (case f x of Some e \<Rightarrow> Some e | None \<Rightarrow> first_err f xs)"

lemma first_err_None [simp]: "first_err f xs = None \<longleftrightarrow> (\<forall>x \<in> set xs. f x = None)"
  by (induction xs) (auto split: option.splits)

lemma first_err_SomeD: "first_err f xs = Some e \<Longrightarrow> \<exists>x \<in> set xs. f x = Some e"
  by (induction xs) (auto split: option.splits)

lemma case_err_None:
  "(case a of None \<Rightarrow> b | Some e \<Rightarrow> Some e) = None \<longleftrightarrow> a = None \<and> b = None"
  by (cases a) simp_all

text \<open>The same loop collecting the values of successful calls.\<close>

fun map_res :: "('a \<Rightarrow> ('e, 'b) result) \<Rightarrow> 'a list \<Rightarrow> ('e, 'b list) result" where
  "map_res f [] = Inr []"
| "map_res f (x # xs) =
     (case f x of Inl e \<Rightarrow> Inl e
      | Inr y \<Rightarrow> (case map_res f xs of Inl e \<Rightarrow> Inl e | Inr ys \<Rightarrow> Inr (y # ys)))"

lemma map_res_Inr:
  "map_res f xs = Inr ys \<longleftrightarrow> length ys = length xs \<and> (\<forall>i < length xs. f (xs ! i) = Inr (ys ! i))"
proof (induction xs arbitrary: ys)
  case Nil
  then show ?case by auto
next
  case (Cons x xs)
  show ?case
  proof (cases "f x")
    case (Inl e)
    then show ?thesis by (auto intro!: exI [of _ 0])
  next
    case (Inr y)
    show ?thesis
    proof (cases "map_res f xs")
      case (Inl e)
      have "\<not> (length ys = length (x # xs) \<and> (\<forall>i < length (x # xs). f ((x # xs) ! i) = Inr (ys ! i)))"
      proof
        assume a: "length ys = length (x # xs) \<and> (\<forall>i < length (x # xs). f ((x # xs) ! i) = Inr (ys ! i))"
        then have "map_res f xs = Inr (tl ys)"
          by (subst Cons.IH) (auto simp: nth_tl)
        with Inl show False by simp
      qed
      with Inl Inr show ?thesis by auto
    next
      case (Inr zs)
      with \<open>f x = Inr y\<close> show ?thesis
        using Cons.IH [of zs] Cons.IH [of "tl ys"]
        by (cases ys) (auto simp: less_Suc_eq_0_disj)
    qed
  qed
qed

lemma map_res_length: "map_res f xs = Inr ys \<Longrightarrow> length ys = length xs"
  by (simp add: map_res_Inr)

lemma is_ok_map_res: "is_ok (map_res f xs) \<longleftrightarrow> (\<forall>x \<in> set xs. is_ok (f x))"
  by (induction xs) (auto simp: is_ok_def split: sum.splits)

lemma is_ok_bind_res: "is_ok (bind_res r f) \<longleftrightarrow> (\<exists>v. r = Inr v \<and> is_ok (f v))"
  by (cases r) simp_all

section \<open>Package strings\<close>

abbreviation HasPrefix :: "string \<Rightarrow> string \<Rightarrow> bool" where
  "HasPrefix s p \<equiv> prefix p s"

abbreviation HasSuffix :: "string \<Rightarrow> string \<Rightarrow> bool" where
  "HasSuffix s p \<equiv> suffix p s"

definition TrimPrefix :: "string \<Rightarrow> string \<Rightarrow> string" where
  "TrimPrefix s p = (if prefix p s then drop (length p) s else s)"

definition TrimSuffix :: "string \<Rightarrow> string \<Rightarrow> string" where
  "TrimSuffix s p = (if suffix p s then take (length s - length p) s else s)"

fun Contains :: "string \<Rightarrow> string \<Rightarrow> bool" where
  "Contains [] t = (t = [])"
| "Contains (c # s) t = (prefix t (c # s) \<or> Contains s t)"

text \<open>\<open>strings.Cut\<close>: the text before and after the first separator, \<open>None\<close> when there is none.\<close>

fun Cut :: "string \<Rightarrow> string \<Rightarrow> (string \<times> string) option" where
  "Cut [] sep = (if sep = [] then Some ([], []) else None)"
| "Cut (c # s) sep =
     (if prefix sep (c # s) then Some ([], drop (length sep) (c # s))
      else map_option (\<lambda>(a, b). (c # a, b)) (Cut s sep))"

text \<open>\<open>strings.Split(s, sep)\<close> for a separator of one byte, the only form used.\<close>

fun split_go :: "char \<Rightarrow> string \<Rightarrow> string \<Rightarrow> string list" where
  "split_go d acc [] = [rev acc]"
| "split_go d acc (c # s) = (if c = d then rev acc # split_go d [] s else split_go d (c # acc) s)"

definition Split :: "string \<Rightarrow> char \<Rightarrow> string list" where
  "Split s d = split_go d [] s"

text \<open>The classes of ASCII letters and digits.\<close>

definition byte_in :: "char \<Rightarrow> char \<Rightarrow> char \<Rightarrow> bool" where
  "byte_in lo hi c \<longleftrightarrow> lo \<le> c \<and> c \<le> hi"

definition ascii_upper :: "char \<Rightarrow> bool" where
  "ascii_upper c \<longleftrightarrow> byte_in CHR ''A'' CHR ''Z'' c"

definition ascii_letter :: "char \<Rightarrow> bool" where
  "ascii_letter c \<longleftrightarrow> ascii_upper c \<or> byte_in CHR ''a'' CHR ''z'' c"

definition ascii_digit :: "char \<Rightarrow> bool" where
  "ascii_digit c \<longleftrightarrow> byte_in CHR ''0'' CHR ''9'' c"

definition ascii_alnum :: "char \<Rightarrow> bool" where
  "ascii_alnum c \<longleftrightarrow> ascii_digit c \<or> ascii_letter c"

lemmas ascii_classes = byte_in_def ascii_alnum_def ascii_digit_def ascii_letter_def ascii_upper_def

definition lower_char :: "char \<Rightarrow> char" where
  "lower_char c = (if CHR ''A'' \<le> c \<and> c \<le> CHR ''Z'' then char_of (of_char c + 32 :: nat) else c)"

definition ToLower :: "string \<Rightarrow> string" where
  "ToLower s = map lower_char s"

definition EqualFold :: "string \<Rightarrow> string \<Rightarrow> bool" where
  "EqualFold s t \<longleftrightarrow> ToLower s = ToLower t"

text \<open>\<open>strings.TrimSpace\<close> on the ASCII white space bytes.\<close>

definition is_space :: "char \<Rightarrow> bool" where
  "is_space c \<longleftrightarrow> c \<in> {CHR '' '', CHR 0x09, CHR 0x0A, CHR 0x0B, CHR 0x0C, CHR 0x0D}"

definition TrimSpace :: "string \<Rightarrow> string" where
  "TrimSpace s = rev (dropWhile is_space (rev (dropWhile is_space s)))"

definition Count :: "string \<Rightarrow> char \<Rightarrow> nat" where
  "Count s c = length (filter (\<lambda>x. x = c) s)"

text \<open>\<open>strings.Join\<close>.\<close>

fun Join :: "string list \<Rightarrow> string \<Rightarrow> string" where
  "Join [] sep = []"
| "Join [x] sep = x"
| "Join (x # y # xs) sep = x @ sep @ Join (y # xs) sep"

text \<open>\<open>strconv.Itoa\<close> and \<open>%d\<close>.\<close>

fun itoa_nat :: "nat \<Rightarrow> string" where
  "itoa_nat n =
     (if n < 10 then [char_of (48 + n)] else itoa_nat (n div 10) @ [char_of (48 + n mod 10)])"

declare itoa_nat.simps [simp del]

definition itoa :: "int \<Rightarrow> string" where
  "itoa i = (if i < 0 then CHR ''-'' # itoa_nat (nat (- i)) else itoa_nat (nat i))"

text \<open>\<open>strconv.ParseInt(s, 10, 64)\<close>; \<open>None\<close> is a syntax or range error.\<close>

fun parse_digits :: "string \<Rightarrow> int \<Rightarrow> int option" where
  "parse_digits [] acc = Some acc"
| "parse_digits (c # s) acc =
     (if CHR ''0'' \<le> c \<and> c \<le> CHR ''9'' then parse_digits s (10 * acc + (int (of_char c) - 48)) else None)"

definition parse_unsigned :: "string \<Rightarrow> int option" where
  "parse_unsigned s = (if s = [] then None else parse_digits s 0)"

definition ParseInt64 :: "string \<Rightarrow> int option" where
  "ParseInt64 s =
     (let r = (case s of
                 c # s' \<Rightarrow> if c = CHR ''-'' then map_option uminus (parse_unsigned s')
                           else if c = CHR ''+'' then parse_unsigned s'
                           else parse_unsigned s
               | [] \<Rightarrow> None)
      in case r of None \<Rightarrow> None | Some v \<Rightarrow> if - (2 ^ 63) \<le> v \<and> v < 2 ^ 63 then Some v else None)"

text \<open>\<open>url.QueryUnescape\<close>: a plus is a space, a percent sign needs two hexadecimal digits.\<close>

definition unhex :: "char \<Rightarrow> nat option" where
  "unhex c =
     (if CHR ''0'' \<le> c \<and> c \<le> CHR ''9'' then Some (of_char c - 48)
      else if CHR ''a'' \<le> c \<and> c \<le> CHR ''f'' then Some (of_char c - 87)
      else if CHR ''A'' \<le> c \<and> c \<le> CHR ''F'' then Some (of_char c - 55)
      else None)"

fun QueryUnescape :: "string \<Rightarrow> string option" where
  "QueryUnescape [] = Some []"
| "QueryUnescape (c # s) =
     (if c = CHR ''%'' then
        (case s of
           a # b # r \<Rightarrow>
             (case (unhex a, unhex b) of
                (Some x, Some y) \<Rightarrow> map_option ((#) (char_of (16 * x + y))) (QueryUnescape r)
              | _ \<Rightarrow> None)
         | _ \<Rightarrow> None)
      else map_option ((#) (if c = CHR ''+'' then CHR '' '' else c)) (QueryUnescape s))"

text \<open>\<open>strings.Trim(s, cutset)\<close> for a cut set of one byte.\<close>

definition Trim :: "string \<Rightarrow> char \<Rightarrow> string" where
  "Trim s c = rev (dropWhile (\<lambda>x. x = c) (rev (dropWhile (\<lambda>x. x = c) s)))"

lemma EqualFold_refl [simp]: "EqualFold s s"
  by (simp add: EqualFold_def)

lemma EqualFold_sym: "EqualFold s t \<longleftrightarrow> EqualFold t s"
  by (auto simp: EqualFold_def)

lemma TrimPrefix_append [simp]: "TrimPrefix (p @ s) p = s"
  by (simp add: TrimPrefix_def)

lemma prefix_TrimPrefix: "prefix p s \<Longrightarrow> p @ TrimPrefix s p = s"
  by (auto simp: TrimPrefix_def prefix_def)

lemma Cut_Some: "Cut s sep = Some (a, b) \<Longrightarrow> s = a @ sep @ b"
proof (induction s arbitrary: a)
  case Nil
  then show ?case by (auto split: if_splits)
next
  case (Cons c s)
  show ?case
  proof (cases "prefix sep (c # s)")
    case True
    with Cons.prems have "a = []" "b = drop (length sep) (c # s)" by auto
    with True show ?thesis by (metis append_Nil append_take_drop_id prefix_def append_eq_conv_conj)
  next
    case False
    with Cons.prems obtain a' where "a = c # a'" "Cut s sep = Some (a', b)"
      by auto
    with Cons.IH show ?thesis by auto
  qed
qed

lemma Cut_None_iff: "Cut s sep = None \<longleftrightarrow> \<not> Contains s sep"
  by (induction s) auto

section \<open>JSON documents\<close>

text \<open>
  A value of \<open>json.RawMessage\<close> or a byte slice that is only ever handed to \<open>encoding/json\<close> is
  modelled by its syntax tree; \<open>None\<close> where the bytes are not a JSON text. A number keeps its
  literal. An object keeps its members in order, since the decoder processes them in order and
  a later duplicate overrides an earlier one.
\<close>

datatype json =
    JNull
  | JBool bool
  | JNum string
  | JStr string
  | JArr "json list"
  | JObj "(string \<times> json) list"

type_synonym json_bytes = "json option"

text \<open>
  Decoding into a Go \<open>string\<close>: a JSON null leaves the variable at its zero value, any other
  non-string is a type error. \<open>None\<close> is the error.
\<close>

fun json_string :: "json \<Rightarrow> string option" where
  "json_string (JStr s) = Some s"
| "json_string JNull = Some []"
| "json_string _ = None"

text \<open>Decoding into a Go \<open>[]string\<close>.\<close>

fun json_string_list :: "json \<Rightarrow> string list option" where
  "json_string_list (JArr xs) =
     (if \<forall>x \<in> set xs. json_string x \<noteq> None then Some (map (the \<circ> json_string) xs) else None)"
| "json_string_list JNull = Some []"
| "json_string_list _ = None"

text \<open>
  The last member of an object whose name matches a struct field; the decoder compares names
  case-insensitively.
\<close>

fun json_field :: "string \<Rightarrow> (string \<times> json) list \<Rightarrow> json option" where
  "json_field f [] = None"
| "json_field f ((k, v) # ms) =
     (case json_field f ms of Some w \<Rightarrow> Some w | None \<Rightarrow> if EqualFold k f then Some v else None)"

text \<open>The entries of a decoded \<open>map[string]V\<close>: the last value of each distinct member name.\<close>

fun json_map_entries :: "(string \<times> 'v) list \<Rightarrow> (string \<times> 'v) list" where
  "json_map_entries [] = []"
| "json_map_entries ((k, v) # ms) =
     (if k \<in> fst ` set ms then json_map_entries ms else (k, v) # json_map_entries ms)"

lemma json_map_entries_keys: "fst ` set (json_map_entries ms) = fst ` set ms"
  by (induction ms rule: json_map_entries.induct) auto

lemma distinct_json_map_entries: "distinct (map fst (json_map_entries ms))"
proof (induction ms rule: json_map_entries.induct)
  case (2 k v ms)
  then show ?case using json_map_entries_keys [of ms] by auto
qed simp

section \<open>Generic list facts\<close>

lemma nth_map_upt [simp]: "i < n \<Longrightarrow> map f [0..<n] ! i = f i"
  by simp

lemma hd_filter_None: "filter P xs = [] \<longleftrightarrow> (\<forall>x \<in> set xs. \<not> P x)"
  by (induction xs) auto

lemma find_Some_mem: "find P xs = Some x \<Longrightarrow> x \<in> set xs \<and> P x"
  by (induction xs) (auto split: if_splits)

lemma find_None: "find P xs = None \<longleftrightarrow> (\<forall>x \<in> set xs. \<not> P x)"
  by (induction xs) auto

text \<open>The two kinds of a list of entries, each in order.\<close>

definition lefts :: "('a + 'b) list \<Rightarrow> 'a list" where
  "lefts xs = List.map_filter (\<lambda>x. case x of Inl a \<Rightarrow> Some a | Inr _ \<Rightarrow> None) xs"

definition rights :: "('a + 'b) list \<Rightarrow> 'b list" where
  "rights xs = List.map_filter (\<lambda>x. case x of Inl _ \<Rightarrow> None | Inr b \<Rightarrow> Some b) xs"

lemma lefts_rights_simps [simp]:
  "lefts [] = []" "lefts (Inl a # xs) = a # lefts xs" "lefts (Inr b # xs) = lefts xs"
  "rights [] = []" "rights (Inl a # xs) = rights xs" "rights (Inr b # xs) = b # rights xs"
  by (simp_all add: lefts_def rights_def List.map_filter_simps)

lemma lefts_rights_append [simp]:
  "lefts (xs @ ys) = lefts xs @ lefts ys" "rights (xs @ ys) = rights xs @ rights ys"
  by (simp_all add: lefts_def rights_def List.map_filter_def)

lemma length_lefts_rights: "length (lefts xs) + length (rights xs) = length xs"
proof (induction xs)
  case (Cons x xs)
  then show ?case by (cases x) simp_all
qed simp

lemma set_lefts: "a \<in> set (lefts xs) \<longleftrightarrow> Inl a \<in> set xs"
proof (induction xs)
  case (Cons x xs)
  then show ?case by (cases x) simp_all
qed simp

section \<open>Decimal numbers\<close>

lemma parse_digits_append:
  "parse_digits (s @ t) acc = (case parse_digits s acc of None \<Rightarrow> None | Some v \<Rightarrow> parse_digits t v)"
  by (induction s arbitrary: acc) auto

lemma digit_char: "d < 10 \<Longrightarrow> CHR ''0'' \<le> char_of (48 + d) \<and> char_of (48 + d) \<le> CHR ''9''
    \<and> of_char (char_of (48 + d) :: char) = (48 + d :: nat)"
  by (simp add: less_eq_char_def of_char_of)

lemma parse_digits_itoa: "parse_digits (itoa_nat n) 0 = Some (int n)"
proof (induction n rule: itoa_nat.induct)
  case (1 n)
  consider "n < 10" | "10 \<le> n" by linarith
  then show ?case
  proof cases
    case one: 1
    from one show ?thesis using digit_char [of n] by (simp add: itoa_nat.simps [of n])
  next
    case two: 2
    have "parse_digits (itoa_nat n) 0 = parse_digits [char_of (48 + n mod 10)] (int (n div 10))"
      using "1.IH" two by (simp add: itoa_nat.simps [of n] parse_digits_append)
    also have "\<dots> = Some (10 * int (n div 10) + int (n mod 10))"
      using digit_char [of "n mod 10"] by simp
    finally show ?thesis by (simp add: mult_div_mod_eq [symmetric] zdiv_int zmod_int)
  qed
qed

lemma itoa_nat_nonempty [simp]: "itoa_nat n \<noteq> []"
  by (subst itoa_nat.simps) simp

lemma itoa_nat_digit: "\<exists>c s. itoa_nat n = c # s \<and> CHR ''0'' \<le> c \<and> c \<le> CHR ''9''"
proof (induction n rule: itoa_nat.induct)
  case (1 n)
  then show ?case
    by (cases "n < 10") (use digit_char [of n] in \<open>auto simp: itoa_nat.simps [of n]\<close>)
qed

lemma ParseInt64_itoa:
  assumes "- (2 ^ 63) \<le> i" "i < 2 ^ 63"
  shows "ParseInt64 (itoa i) = Some i"
proof (cases "i < 0")
  case True
  then have "parse_unsigned (itoa_nat (nat (- i))) = Some (- i)"
    by (simp add: parse_unsigned_def parse_digits_itoa)
  with True assms show ?thesis by (simp add: ParseInt64_def itoa_def)
next
  case False
  obtain c s where c: "itoa_nat (nat i) = c # s" "CHR ''0'' \<le> c" using itoa_nat_digit by blast
  then have "c \<noteq> CHR ''-''" "c \<noteq> CHR ''+''" by auto
  moreover have "parse_unsigned (itoa_nat (nat i)) = Some i"
    using False by (simp add: parse_unsigned_def parse_digits_itoa)
  ultimately show ?thesis using False assms c by (simp add: ParseInt64_def itoa_def)
qed

lemma split_go_no_sep: "d \<notin> set acc \<Longrightarrow> x \<in> set (split_go d acc s) \<Longrightarrow> d \<notin> set x"
  by (induction d acc s arbitrary: x rule: split_go.induct) (auto split: if_splits)

lemma Split_no_sep: "x \<in> set (Split s d) \<Longrightarrow> d \<notin> set x"
  by (simp add: Split_def split_go_no_sep [of d "[]"])

lemma parse_digits_nonneg: "parse_digits s acc = Some v \<Longrightarrow> 0 \<le> acc \<Longrightarrow> acc \<le> v"
proof (induction s arbitrary: acc)
  case (Cons c s)
  then have c: "48 \<le> (of_char c :: nat)" and r: "parse_digits s (10 * acc + (int (of_char c) - 48)) = Some v"
    by (auto simp: less_eq_char_def split: if_splits)
  from c have "acc \<le> 10 * acc + (int (of_char c) - 48)" using Cons.prems(2) by linarith
  with Cons.IH [OF r] Cons.prems(2) show ?case by linarith
qed simp

lemma parse_unsigned_nonneg: "parse_unsigned s = Some v \<Longrightarrow> 0 \<le> v"
  using parse_digits_nonneg [of s 0 v] by (simp add: parse_unsigned_def split: if_splits)

text \<open>Without a minus sign the number is not negative.\<close>

lemma ParseInt64_nonneg: "ParseInt64 s = Some v \<Longrightarrow> CHR ''-'' \<notin> set s \<Longrightarrow> 0 \<le> v"
  by (auto simp: ParseInt64_def Let_def split: list.splits option.splits if_splits
      dest: parse_unsigned_nonneg)

lemmas string_defs [go_simps] =
  TrimPrefix_def TrimSuffix_def Split_def ToLower_def lower_char_def EqualFold_def
  TrimSpace_def is_space_def Count_def suffix_def

end
