(* ===== verification/Glob_Match.thy ===== *)
theory Glob_Match
  imports Go_Prelude
begin

text \<open>
  The three wildcard matchers of the gateway: \<open>matchPattern\<close> (auth/bucket_policy.go, actions
  and resources of bucket policies), \<open>GlobMatch\<close> (internal/condition, the Like and Arn
  operators) and \<open>wildcardMatch\<close> (auth/bucket_cors.go, CORS origins and headers).

  Each is a loop over two indices with one remembered star. The loops are translated with
  their indices and their branch order; \<open>starIdx = -1\<close> is \<open>None\<close>. The reference definition
  \<open>glob\<close> is the grammar the comments document: \<open>*\<close> matches any run of characters, a
  single-character wildcard exactly one, everything else itself. The locale \<open>wildcard_loop\<close>
  holds what the three share, and each loop is an interpretation of it.
\<close>

section \<open>The loops\<close>

text \<open>
  The termination measure of the loops, lexicographic in: whether the remembered star is
  inconsistent with the indices (only possible before the first star is met), how much of the
  pattern lies behind the star, how much input is left behind the star's match, how much input
  is left.
\<close>

definition wild_bad :: "nat \<Rightarrow> nat \<Rightarrow> nat option \<Rightarrow> nat \<Rightarrow> nat" where
  "wild_bad p s star m = (case star of None \<Rightarrow> 0 | Some st \<Rightarrow> if st < p \<and> m \<le> s then 0 else 1)"

definition wild_next :: "nat option \<Rightarrow> nat" where
  "wild_next star = (case star of None \<Rightarrow> 0 | Some st \<Rightarrow> Suc st)"

definition wild_rel :: "((string \<times> string \<times> nat \<times> nat \<times> nat option \<times> nat) \<times>
    string \<times> string \<times> nat \<times> nat \<times> nat option \<times> nat) set" where
  "wild_rel = measures [
     (\<lambda>(pat, inp, p, s, star, m). wild_bad p s star m),
     (\<lambda>(pat, inp, p, s, star, m). length pat - wild_next star),
     (\<lambda>(pat, inp, p, s, star, m). length inp - m),
     (\<lambda>(pat, inp, p, s, star, m). length inp - s)]"

lemma wf_wild_rel: "wf wild_rel"
  by (simp add: wild_rel_def)

lemma wild_rel_step:
  "s < length inp \<Longrightarrow>
     ((pat, inp, Suc p, Suc s, star, m), (pat, inp, p, s, star, m)) \<in> wild_rel"
  "s < length inp \<Longrightarrow> p < length pat \<Longrightarrow>
     ((pat, inp, Suc p, s, Some p, s), (pat, inp, p, s, star, m)) \<in> wild_rel"
  "s < length inp \<Longrightarrow>
     ((pat, inp, Suc st, Suc m, Some st, Suc m), (pat, inp, p, s, Some st, m)) \<in> wild_rel"
  by (auto simp: wild_rel_def wild_bad_def wild_next_def split: option.splits)

text \<open>auth/bucket_policy.go, \<open>matchPattern\<close>: the first loop and, after it, the skipping of
  trailing stars. \<open>None\<close> is the \<open>return false\<close> inside the loop.\<close>

function matchPattern_loop ::
    "string \<Rightarrow> string \<Rightarrow> nat \<Rightarrow> nat \<Rightarrow> nat option \<Rightarrow> nat \<Rightarrow> nat option" where
  "matchPattern_loop pattern input pIdx sIdx starIdx matchIdx =
     (if sIdx < length input then
        if pIdx < length pattern
             \<and> (pattern ! pIdx = CHR ''?'' \<or> pattern ! pIdx = input ! sIdx) then
          matchPattern_loop pattern input (Suc pIdx) (Suc sIdx) starIdx matchIdx
        else if pIdx < length pattern \<and> pattern ! pIdx = CHR ''*'' then
          matchPattern_loop pattern input (Suc pIdx) sIdx (Some pIdx) sIdx
        else (case starIdx of
            Some st \<Rightarrow>
              matchPattern_loop pattern input (Suc st) (Suc matchIdx) (Some st) (Suc matchIdx)
          | None \<Rightarrow> None)
      else Some pIdx)"
  by pat_completeness auto
termination
  by (relation wild_rel) (auto simp: wf_wild_rel wild_rel_step)

declare matchPattern_loop.simps [simp del]

function skip_stars :: "string \<Rightarrow> nat \<Rightarrow> nat" where
  "skip_stars pattern pIdx =
     (if pIdx < length pattern \<and> pattern ! pIdx = CHR ''*'' then skip_stars pattern (Suc pIdx)
      else pIdx)"
  by pat_completeness auto
termination
  by (relation "measure (\<lambda>(pattern, pIdx). length pattern - pIdx)") auto

declare skip_stars.simps [simp del]

definition matchPattern :: "string \<Rightarrow> string \<Rightarrow> bool" where
  "matchPattern pattern input =
     (case matchPattern_loop pattern input 0 0 None 0 of
        None \<Rightarrow> False
      | Some pIdx \<Rightarrow> skip_stars pattern pIdx = length pattern)"

text \<open>internal/condition/condition.go, \<open>GlobMatch\<close>.\<close>

function GlobMatch_loop ::
    "string \<Rightarrow> string \<Rightarrow> nat \<Rightarrow> nat \<Rightarrow> nat option \<Rightarrow> nat \<Rightarrow> nat option" where
  "GlobMatch_loop pattern s pi si star match =
     (if si < length s then
        if pi < length pattern \<and> (pattern ! pi = CHR ''?'' \<or> pattern ! pi = s ! si) then
          GlobMatch_loop pattern s (Suc pi) (Suc si) star match
        else if pi < length pattern \<and> pattern ! pi = CHR ''*'' then
          GlobMatch_loop pattern s (Suc pi) si (Some pi) si
        else (case star of
            Some st \<Rightarrow> GlobMatch_loop pattern s (Suc st) (Suc match) (Some st) (Suc match)
          | None \<Rightarrow> None)
      else Some pi)"
  by pat_completeness auto
termination
  by (relation wild_rel) (auto simp: wf_wild_rel wild_rel_step)

declare GlobMatch_loop.simps [simp del]

definition GlobMatch :: "string \<Rightarrow> string \<Rightarrow> bool" where
  "GlobMatch pattern s =
     (case GlobMatch_loop pattern s 0 0 None 0 of
        None \<Rightarrow> False
      | Some pi \<Rightarrow> skip_stars pattern pi = length pattern)"

text \<open>auth/bucket_cors.go, \<open>wildcardMatch\<close>: no single-character wildcard.\<close>

function wildcardMatch_loop ::
    "string \<Rightarrow> string \<Rightarrow> nat \<Rightarrow> nat \<Rightarrow> nat option \<Rightarrow> nat \<Rightarrow> nat option" where
  "wildcardMatch_loop pattern input pIdx sIdx starIdx matchIdx =
     (if sIdx < length input then
        if pIdx < length pattern \<and> pattern ! pIdx = input ! sIdx then
          wildcardMatch_loop pattern input (Suc pIdx) (Suc sIdx) starIdx matchIdx
        else if pIdx < length pattern \<and> pattern ! pIdx = CHR ''*'' then
          wildcardMatch_loop pattern input (Suc pIdx) sIdx (Some pIdx) sIdx
        else (case starIdx of
            Some st \<Rightarrow>
              wildcardMatch_loop pattern input (Suc st) (Suc matchIdx) (Some st) (Suc matchIdx)
          | None \<Rightarrow> None)
      else Some pIdx)"
  by pat_completeness auto
termination
  by (relation wild_rel) (auto simp: wf_wild_rel wild_rel_step)

declare wildcardMatch_loop.simps [simp del]

definition wildcardMatch :: "string \<Rightarrow> string \<Rightarrow> bool" where
  "wildcardMatch pattern input =
     (case wildcardMatch_loop pattern input 0 0 None 0 of
        None \<Rightarrow> False
      | Some pIdx \<Rightarrow> skip_stars pattern pIdx = length pattern)"

section \<open>The reference grammar\<close>

text \<open>\<open>single\<close> holds of the pattern characters that match any one character.\<close>

fun glob :: "(char \<Rightarrow> bool) \<Rightarrow> string \<Rightarrow> string \<Rightarrow> bool" where
  "glob single [] inp = (inp = [])"
| "glob single (c # pat) [] = (c = CHR ''*'' \<and> glob single pat [])"
| "glob single (c # pat) (x # inp) =
     (if c = CHR ''*'' then glob single pat (x # inp) \<or> glob single (c # pat) inp
      else (single c \<or> c = x) \<and> glob single pat inp)"

lemma glob_star: "glob single (CHR ''*'' # pat) inp \<longleftrightarrow> (\<exists>k \<le> length inp. glob single pat (drop k inp))"
proof (induction inp)
  case Nil
  then show ?case by simp
next
  case (Cons x inp)
  have "(\<exists>k \<le> length (x # inp). glob single pat (drop k (x # inp)))
      \<longleftrightarrow> glob single pat (x # inp) \<or> (\<exists>k \<le> length inp. glob single pat (drop k inp))"
    (is "?l \<longleftrightarrow> ?r")
  proof
    assume ?l
    then obtain k where "k \<le> length (x # inp)" "glob single pat (drop k (x # inp))" by blast
    then show ?r by (cases k) auto
  next
    assume ?r
    then show ?l
      by (metis drop0 drop_Suc_Cons le0 length_Cons Suc_le_mono)
  qed
  with Cons show ?case by simp
qed

lemma glob_empty_inp: "glob single pat [] \<longleftrightarrow> set pat \<subseteq> {CHR ''*''}"
  by (induction pat) auto


section \<open>What the loops compute\<close>

text \<open>The suffix of the pattern from \<open>p\<close> matches the suffix of the input from \<open>s\<close>.\<close>

definition tail_match :: "(char \<Rightarrow> bool) \<Rightarrow> string \<Rightarrow> string \<Rightarrow> nat \<Rightarrow> nat \<Rightarrow> bool" where
  "tail_match single pat inp p s = glob single (drop p pat) (drop s inp)"

definition accepts :: "string \<Rightarrow> nat option \<Rightarrow> bool" where
  "accepts pat r = (case r of None \<Rightarrow> False | Some p \<Rightarrow> skip_stars pat p = length pat)"

text \<open>
  The loop invariant: behind the remembered star the pattern has no star up to the current
  position, and it has consumed exactly the input between the star's match and the current
  position.
\<close>

definition wild_inv :: "string \<Rightarrow> string \<Rightarrow> nat \<Rightarrow> nat \<Rightarrow> nat option \<Rightarrow> nat \<Rightarrow> bool" where
  "wild_inv pat inp p s star m \<longleftrightarrow> s \<le> length inp \<and> p \<le> length pat \<and>
     (case star of None \<Rightarrow> True
      | Some st \<Rightarrow> st < p \<and> m \<le> s \<and> p - Suc st = s - m
          \<and> (\<forall>i. st < i \<and> i < p \<longrightarrow> pat ! i \<noteq> CHR ''*''))"

lemma skip_stars_accepts:
  "p \<le> length pat \<Longrightarrow> skip_stars pat p = length pat \<longleftrightarrow> set (drop p pat) \<subseteq> {CHR ''*''}"
proof (induction pat p rule: skip_stars.induct)
  case (1 pat p)
  show ?case
  proof (cases "p < length pat")
    case False
    with "1.prems" have "p = length pat" by simp
    then show ?thesis by (simp add: skip_stars.simps [of pat "length pat"])
  next
    case True
    then have "drop p pat = pat ! p # drop (Suc p) pat" by (simp add: Cons_nth_drop_Suc)
    with True "1" show ?thesis by (auto simp: skip_stars.simps [of pat p])
  qed
qed

lemma tail_match_step:
  assumes "p < length pat" "s < length inp" "pat ! p \<noteq> CHR ''*''"
  shows "tail_match single pat inp p s \<longleftrightarrow>
     (single (pat ! p) \<or> pat ! p = inp ! s) \<and> tail_match single pat inp (Suc p) (Suc s)"
proof -
  have "drop p pat = pat ! p # drop (Suc p) pat" "drop s inp = inp ! s # drop (Suc s) inp"
    using assms by (simp_all add: Cons_nth_drop_Suc)
  with assms(3) show ?thesis by (simp add: tail_match_def)
qed

lemma tail_match_star:
  assumes "p < length pat" "s \<le> length inp" "pat ! p = CHR ''*''"
  shows "tail_match single pat inp p s \<longleftrightarrow>
     (\<exists>k. s \<le> k \<and> k \<le> length inp \<and> tail_match single pat inp (Suc p) k)"
proof -
  have "drop p pat = CHR ''*'' # drop (Suc p) pat"
    using assms by (metis Cons_nth_drop_Suc)
  then have "tail_match single pat inp p s \<longleftrightarrow>
      (\<exists>k \<le> length inp - s. tail_match single pat inp (Suc p) (s + k))"
    by (simp add: tail_match_def glob_star add.commute)
  also have "\<dots> \<longleftrightarrow> (\<exists>k. s \<le> k \<and> k \<le> length inp \<and> tail_match single pat inp (Suc p) k)"
  proof
    assume "\<exists>k \<le> length inp - s. tail_match single pat inp (Suc p) (s + k)"
    then obtain k where "k \<le> length inp - s" "tail_match single pat inp (Suc p) (s + k)" by blast
    with assms(2) show "\<exists>k. s \<le> k \<and> k \<le> length inp \<and> tail_match single pat inp (Suc p) k"
      by (intro exI [of _ "s + k"]) simp
  next
    assume "\<exists>k. s \<le> k \<and> k \<le> length inp \<and> tail_match single pat inp (Suc p) k"
    then obtain k where "s \<le> k" "k \<le> length inp" "tail_match single pat inp (Suc p) k" by blast
    then show "\<exists>k \<le> length inp - s. tail_match single pat inp (Suc p) (s + k)"
      by (intro exI [of _ "k - s"]) simp
  qed
  finally show ?thesis .
qed

lemma tail_match_no_input:
  "p \<le> length pat \<Longrightarrow> length inp \<le> s \<Longrightarrow>
     tail_match single pat inp p s \<longleftrightarrow> set (drop p pat) \<subseteq> {CHR ''*''}"
  by (simp add: tail_match_def glob_empty_inp)

text \<open>A star-free stretch of the pattern consumes exactly its length of input.\<close>

lemma tail_match_segment:
  assumes "tail_match single pat inp q k" "q \<le> p" "p \<le> length pat" "k \<le> length inp"
    and "\<And>i. q \<le> i \<Longrightarrow> i < p \<Longrightarrow> pat ! i \<noteq> CHR ''*''"
  shows "k + (p - q) \<le> length inp \<and> tail_match single pat inp p (k + (p - q))"
  using assms
proof (induction "p - q" arbitrary: q k)
  case 0
  then show ?case by simp
next
  case (Suc n)
  then have q: "q < p" "q < length pat" "pat ! q \<noteq> CHR ''*''" by auto
  have k: "k < length inp"
  proof (rule ccontr)
    assume "\<not> k < length inp"
    then have "set (drop q pat) \<subseteq> {CHR ''*''}"
      using Suc.prems q by (simp add: tail_match_no_input)
    moreover have "pat ! q \<in> set (drop q pat)"
      using q by (metis Cons_nth_drop_Suc list.set_intros(1))
    ultimately show False using q by auto
  qed
  with Suc.prems q have "tail_match single pat inp (Suc q) (Suc k)"
    by (simp add: tail_match_step)
  moreover have "n = p - Suc q" using Suc.hyps q by simp
  ultimately have "Suc k + (p - Suc q) \<le> length inp \<and>
      tail_match single pat inp p (Suc k + (p - Suc q))"
    using Suc.prems q k by (intro Suc.hyps(1)) auto
  moreover have "Suc k + (p - Suc q) = k + (p - q)" using q by simp
  ultimately show ?case by metis
qed

text \<open>
  What the loop still has to decide in a state: the rest matches, or it matches after giving the
  remembered star a longer stretch of input.
\<close>

definition wild_spec :: "(char \<Rightarrow> bool) \<Rightarrow> string \<Rightarrow> string \<Rightarrow> nat \<Rightarrow> nat \<Rightarrow> nat option \<Rightarrow> nat \<Rightarrow> bool"
where
  "wild_spec single pat inp p s star m \<longleftrightarrow> tail_match single pat inp p s \<or>
     (\<exists>st k. star = Some st \<and> m < k \<and> k \<le> length inp \<and> tail_match single pat inp (Suc st) k)"

lemma tail_match_star_mono:
  "\<lbrakk>tail_match single pat inp p k; pat ! p = CHR ''*''; p < length pat; s \<le> k; k \<le> length inp\<rbrakk>
     \<Longrightarrow> tail_match single pat inp p s"
  by (subst tail_match_star) (auto simp: tail_match_star intro: order_trans)

text \<open>What a longer stretch for the star gives at the current pattern position.\<close>

lemma wild_inv_stretch:
  assumes inv: "wild_inv pat inp p s (Some st) m" and "m < k" "k \<le> length inp"
    and "tail_match single pat inp (Suc st) k"
  obtains k' where "s < k'" "k' \<le> length inp" "tail_match single pat inp p k'"
proof -
  have st: "st < p" "m \<le> s" "p - Suc st = s - m" "p \<le> length pat"
      "\<forall>i. st < i \<and> i < p \<longrightarrow> pat ! i \<noteq> CHR ''*''"
    using inv by (auto simp: wild_inv_def)
  have "k + (p - Suc st) \<le> length inp \<and> tail_match single pat inp p (k + (p - Suc st))"
    using assms(3,4) st by (intro tail_match_segment) auto
  moreover have "s < k + (p - Suc st)" using st assms(2) by simp
  ultimately show ?thesis using that by blast
qed

lemma wild_spec_done:
  assumes "wild_inv pat inp p s star m" "\<not> s < length inp"
  shows "wild_spec single pat inp p s star m \<longleftrightarrow> set (drop p pat) \<subseteq> {CHR ''*''}"
proof -
  have "\<not> (\<exists>st k. star = Some st \<and> m < k \<and> k \<le> length inp \<and> tail_match single pat inp (Suc st) k)"
    using assms wild_inv_stretch by (metis less_le_trans)
  moreover have "p \<le> length pat" using assms(1) by (simp add: wild_inv_def)
  ultimately show ?thesis
    using assms(2) by (auto simp: wild_spec_def tail_match_no_input)
qed

lemma wild_spec_literal:
  assumes "s < length inp" "p < length pat" "pat ! p \<noteq> CHR ''*''" "single (pat ! p) \<or> pat ! p = inp ! s"
  shows "wild_spec single pat inp p s star m \<longleftrightarrow> wild_spec single pat inp (Suc p) (Suc s) star m"
  using assms by (simp add: wild_spec_def tail_match_step)

lemma wild_spec_star:
  assumes inv: "wild_inv pat inp p s star m" and p: "p < length pat" "pat ! p = CHR ''*''"
  shows "wild_spec single pat inp p s star m \<longleftrightarrow> wild_spec single pat inp (Suc p) s (Some p) s"
proof -
  have s: "s \<le> length inp" using inv by (simp add: wild_inv_def)
  have "wild_spec single pat inp p s star m \<longleftrightarrow> tail_match single pat inp p s"
  proof
    assume "wild_spec single pat inp p s star m"
    then consider "tail_match single pat inp p s"
      | st k where "star = Some st" "m < k" "k \<le> length inp" "tail_match single pat inp (Suc st) k"
      by (auto simp: wild_spec_def)
    then show "tail_match single pat inp p s"
    proof cases
      case 2
      obtain k' where "s < k'" "k' \<le> length inp" "tail_match single pat inp p k'"
        using wild_inv_stretch [of pat inp p s st m k] inv 2 by blast
      with p show ?thesis by (auto intro: tail_match_star_mono [of _ _ _ _ k'])
    qed
  qed (simp add: wild_spec_def)
  also have "\<dots> \<longleftrightarrow> wild_spec single pat inp (Suc p) s (Some p) s"
    using p s by (subst tail_match_star) (auto simp: wild_spec_def le_less)
  finally show ?thesis .
qed

lemma tail_match_stuck:
  assumes "s < length inp" "\<not> (p < length pat \<and> (single (pat ! p) \<or> pat ! p = inp ! s))"
    and "\<not> (p < length pat \<and> pat ! p = CHR ''*'')"
  shows "\<not> tail_match single pat inp p s"
proof (cases "p < length pat")
  case True
  with assms show ?thesis by (simp add: tail_match_step)
next
  case False
  with assms(1) show ?thesis by (simp add: tail_match_def)
qed

lemma wild_spec_backtrack:
  assumes "m < length inp" "\<not> tail_match single pat inp p s"
  shows "wild_spec single pat inp p s (Some st) m \<longleftrightarrow>
    wild_spec single pat inp (Suc st) (Suc m) (Some st) (Suc m)"
proof -
  have "(\<exists>k. m < k \<and> k \<le> length inp \<and> tail_match single pat inp (Suc st) k) \<longleftrightarrow>
      tail_match single pat inp (Suc st) (Suc m) \<or>
      (\<exists>k. Suc m < k \<and> k \<le> length inp \<and> tail_match single pat inp (Suc st) k)"
    using assms(1) by (metis Suc_leI Suc_lessD lessI le_less)
  with assms(2) show ?thesis by (simp add: wild_spec_def)
qed

text \<open>Each branch of the loop keeps the invariant.\<close>

lemma wild_inv_literal:
  "\<lbrakk>wild_inv pat inp p s star m; s < length inp; p < length pat; pat ! p \<noteq> CHR ''*''\<rbrakk>
     \<Longrightarrow> wild_inv pat inp (Suc p) (Suc s) star m"
  by (auto simp: wild_inv_def less_Suc_eq split: option.splits)

lemma wild_inv_star:
  "\<lbrakk>wild_inv pat inp p s star m; p < length pat\<rbrakk> \<Longrightarrow> wild_inv pat inp (Suc p) s (Some p) s"
  by (auto simp: wild_inv_def)

lemma wild_inv_backtrack:
  "\<lbrakk>wild_inv pat inp p s (Some st) m; s < length inp\<rbrakk>
     \<Longrightarrow> m < length inp \<and> wild_inv pat inp (Suc st) (Suc m) (Some st) (Suc m)"
  by (auto simp: wild_inv_def)

locale wildcard_loop =
  fixes single :: "char \<Rightarrow> bool"
    and loop :: "string \<Rightarrow> string \<Rightarrow> nat \<Rightarrow> nat \<Rightarrow> nat option \<Rightarrow> nat \<Rightarrow> nat option"
  assumes single_star: "\<not> single (CHR ''*'')"
    and loop_unfold: "loop pat inp p s star m =
      (if s < length inp then
         if p < length pat \<and> (single (pat ! p) \<or> pat ! p = inp ! s) then
           loop pat inp (Suc p) (Suc s) star m
         else if p < length pat \<and> pat ! p = CHR ''*'' then loop pat inp (Suc p) s (Some p) s
         else (case star of
             Some st \<Rightarrow> loop pat inp (Suc st) (Suc m) (Some st) (Suc m)
           | None \<Rightarrow> None)
       else Some p)"
begin

lemma loop_accepts:
  assumes nostar: "CHR ''*'' \<notin> set inp"
  shows "wild_inv pat inp p s star m \<Longrightarrow>
    accepts pat (loop pat inp p s star m) \<longleftrightarrow> wild_spec single pat inp p s star m"
proof (induction "(pat, inp, p, s, star, m)" arbitrary: p s star m rule: wf_induct_rule [OF wf_wild_rel])
  case (1 p s star m)
  note IH = "1.hyps" and inv = "1.prems"
  let ?lit = "p < length pat \<and> (single (pat ! p) \<or> pat ! p = inp ! s)"
  let ?star = "p < length pat \<and> pat ! p = CHR ''*''"
  consider (exit) "\<not> s < length inp" | (literal) "s < length inp" "?lit"
    | (wild) "s < length inp" "\<not> ?lit" "?star"
    | (retry) st where "s < length inp" "\<not> ?lit" "\<not> ?star" "star = Some st"
    | (fail) "s < length inp" "\<not> ?lit" "\<not> ?star" "star = None"
    by (cases star; cases "s < length inp"; cases "?lit"; cases "?star") blast+
  then show ?case
  proof cases
    case exit
    have "p \<le> length pat" using inv by (simp add: wild_inv_def)
    with exit inv show ?thesis
      by (subst loop_unfold) (simp add: accepts_def skip_stars_accepts wild_spec_done)
  next
    case literal
    then have ns: "pat ! p \<noteq> CHR ''*''" using nostar single_star by (metis nth_mem)
    have "accepts pat (loop pat inp (Suc p) (Suc s) star m) =
        wild_spec single pat inp (Suc p) (Suc s) star m"
      using inv literal ns by (intro IH wild_rel_step wild_inv_literal) auto
    with literal ns show ?thesis by (subst loop_unfold) (simp add: wild_spec_literal)
  next
    case wild
    have "accepts pat (loop pat inp (Suc p) s (Some p) s) = wild_spec single pat inp (Suc p) s (Some p) s"
      using wild by (intro IH wild_rel_step wild_inv_star [OF inv]) auto
    with wild inv show ?thesis by (subst loop_unfold) (simp add: wild_spec_star)
  next
    case (retry st)
    from inv retry have m: "m < length inp" "wild_inv pat inp (Suc st) (Suc m) (Some st) (Suc m)"
      by (auto dest: wild_inv_backtrack)
    have "accepts pat (loop pat inp (Suc st) (Suc m) (Some st) (Suc m)) =
        wild_spec single pat inp (Suc st) (Suc m) (Some st) (Suc m)"
      using retry m by (intro IH) (auto intro: wild_rel_step)
    moreover have "loop pat inp p s star m = loop pat inp (Suc st) (Suc m) (Some st) (Suc m)"
      using retry by (subst loop_unfold) auto
    ultimately show ?thesis
      using retry m tail_match_stuck [where single = single, OF retry(1-3)] by (simp add: wild_spec_backtrack)
  next
    case fail
    moreover from fail have "loop pat inp p s star m = None" by (subst loop_unfold) auto
    ultimately show ?thesis
      using tail_match_stuck [where single = single, OF fail(1-3)] by (simp add: accepts_def wild_spec_def)
  qed
qed

lemma run_eq_glob:
  assumes "CHR ''*'' \<notin> set inp"
  shows "accepts pat (loop pat inp 0 0 None 0) \<longleftrightarrow> glob single pat inp"
proof -
  have "wild_inv pat inp 0 0 None 0" by (simp add: wild_inv_def)
  from loop_accepts [OF assms this] show ?thesis by (simp add: wild_spec_def tail_match_def)
qed

text \<open>A common prefix without a star is consumed character by character.\<close>

lemma loop_common_prefix:
  "loop (b @ pat) (b @ inp) (length b) (length b) None 0 = loop (b @ pat) (b @ inp) k k None 0"
  if "k \<le> length b"
  using that
proof (induction "length b - k" arbitrary: k)
  case 0
  then show ?case by simp
next
  case (Suc n)
  then have "k < length b" by simp
  then have "loop (b @ pat) (b @ inp) k k None 0 = loop (b @ pat) (b @ inp) (Suc k) (Suc k) None 0"
    by (subst loop_unfold) (simp add: nth_append)
  with Suc show ?case by simp
qed

text \<open>
  The literal test comes before the star test. A star of the pattern that meets a star of the
  input is therefore taken as a literal, and its wildcard meaning is lost.
\<close>

lemma run_literal_star:
  "\<not> accepts (b @ ''*'') (loop (b @ ''*'') (b @ ''*'' @ c # x) 0 0 None 0)"
proof -
  let ?pat = "b @ ''*''" and ?inp = "b @ ''*'' @ c # x"
  have "loop ?pat ?inp 0 0 None 0 = loop ?pat ?inp (Suc (length b)) (Suc (length b)) None 0"
    using loop_common_prefix [of 0 "b @ ''*''" "[]" "c # x"] by simp
  also have "\<dots> = None"
    by (subst loop_unfold) simp
  finally show ?thesis by (simp add: accepts_def)
qed

text \<open>A prefix of the pattern without special characters has to stand in the input.\<close>

lemma accepts_literal_prefix:
  assumes lit: "\<forall>c \<in> set b. \<not> single c \<and> c \<noteq> CHR ''*''"
  shows "accepts (b @ rest) (loop (b @ rest) inp k k None 0) \<Longrightarrow> k \<le> length b \<Longrightarrow> k \<le> length inp
    \<Longrightarrow> prefix (drop k b) (drop k inp)"
proof (induction "length b - k" arbitrary: k)
  case 0
  then show ?case by simp
next
  case (Suc n)
  then have k: "k < length b" by simp
  then have b: "\<not> single (b ! k)" "b ! k \<noteq> CHR ''*''" using lit by auto
  have inp: "k < length inp"
  proof (rule ccontr)
    assume "\<not> k < length inp"
    then have "loop (b @ rest) inp k k None 0 = Some k" by (subst loop_unfold) simp
    moreover have "skip_stars (b @ rest) k = k"
      using k b by (subst skip_stars.simps) (simp add: nth_append)
    ultimately show False using Suc.prems(1) k by (simp add: accepts_def)
  qed
  have eq: "b ! k = inp ! k"
  proof (rule ccontr)
    assume "b ! k \<noteq> inp ! k"
    then have "loop (b @ rest) inp k k None 0 = None"
      using k b inp by (subst loop_unfold) (simp add: nth_append)
    with Suc.prems(1) show False by (simp add: accepts_def)
  qed
  then have "loop (b @ rest) inp k k None 0 = loop (b @ rest) inp (Suc k) (Suc k) None 0"
    using k inp by (subst loop_unfold) (simp add: nth_append)
  with Suc k inp have "prefix (drop (Suc k) b) (drop (Suc k) inp)" by simp
  then show ?case using k inp eq by (simp add: Cons_nth_drop_Suc [symmetric])
qed

lemma run_literal_prefix:
  assumes "\<forall>c \<in> set b. \<not> single c \<and> c \<noteq> CHR ''*''"
    and "accepts (b @ rest) (loop (b @ rest) inp 0 0 None 0)"
  shows "prefix b inp"
  using accepts_literal_prefix [OF assms(1), of rest inp 0] assms(2) by simp

text \<open>Without special characters in the pattern the match is equality.\<close>

lemma run_literal:
  assumes "\<forall>c \<in> set b. \<not> single c \<and> c \<noteq> CHR ''*''"
  shows "accepts b (loop b inp 0 0 None 0) \<longleftrightarrow> inp = b"
proof
  assume a: "accepts b (loop b inp 0 0 None 0)"
  with run_literal_prefix [of b "[]" inp] assms obtain x where x: "inp = b @ x"
    by (auto simp: prefix_def)
  show "inp = b"
  proof (cases x)
    case (Cons c y)
    have "loop b inp (length b) (length b) None 0 = None"
      using Cons x by (subst loop_unfold) simp
    with x loop_common_prefix [of 0 b "[]" x] have "loop b inp 0 0 None 0 = None" by simp
    with a show ?thesis by (simp add: accepts_def)
  qed (simp add: x)
next
  assume "inp = b"
  then have "loop b inp 0 0 None 0 = Some (length b)"
    using loop_common_prefix [of 0 b "[]" "[]"] by (simp add: loop_unfold [of b b "length b"])
  then show "accepts b (loop b inp 0 0 None 0)"
    by (simp add: accepts_def skip_stars.simps)
qed

end

interpretation mp: wildcard_loop "\<lambda>c. c = CHR ''?''" matchPattern_loop
  by unfold_locales (simp, rule matchPattern_loop.simps)

interpretation gm: wildcard_loop "\<lambda>c. c = CHR ''?''" GlobMatch_loop
  by unfold_locales (simp, rule GlobMatch_loop.simps)

interpretation wm: wildcard_loop "\<lambda>c. False" wildcardMatch_loop
  by unfold_locales (simp, subst wildcardMatch_loop.simps, simp)

lemma matchPattern_accepts:
  "matchPattern pattern input = accepts pattern (matchPattern_loop pattern input 0 0 None 0)"
  by (simp add: matchPattern_def accepts_def)

lemma GlobMatch_accepts:
  "GlobMatch pattern s = accepts pattern (GlobMatch_loop pattern s 0 0 None 0)"
  by (simp add: GlobMatch_def accepts_def)

lemma wildcardMatch_accepts:
  "wildcardMatch pattern input = accepts pattern (wildcardMatch_loop pattern input 0 0 None 0)"
  by (simp add: wildcardMatch_def accepts_def)

text \<open>Two loops with the same single-character wildcard are the same function.\<close>

lemma matchPattern_loop_eq:
  "matchPattern_loop pat inp p s star m = GlobMatch_loop pat inp p s star m"
proof (induction "(pat, inp, p, s, star, m)" arbitrary: p s star m rule: wf_induct_rule [OF wf_wild_rel])
  case (1 p s star m)
  show ?case
    by (subst mp.loop_unfold, subst gm.loop_unfold)
       (auto split: option.splits intro!: 1 intro: wild_rel_step)
qed

lemmas literal_prefix =
  mp.run_literal_prefix [folded matchPattern_accepts] gm.run_literal_prefix [folded GlobMatch_accepts]
  wm.run_literal_prefix [folded wildcardMatch_accepts]

section \<open>Properties\<close>

text \<open>
  C18. On an input without a star, the backtracking matchers decide exactly the glob relation:
  \<open>matchPattern\<close> (policy actions and resources) and \<open>GlobMatch\<close> (StringLike and the Arn
  operators) with star and question mark, \<open>wildcardMatch\<close> (CORS) with star alone. They always
  end.
\<close>

theorem matchers_decide_glob:
  assumes "CHR ''*'' \<notin> set input"
  shows "(matchPattern pattern input \<longleftrightarrow> glob (\<lambda>c. c = CHR ''?'') pattern input)
    \<and> (GlobMatch pattern input \<longleftrightarrow> glob (\<lambda>c. c = CHR ''?'') pattern input)
    \<and> (wildcardMatch pattern input \<longleftrightarrow> glob (\<lambda>c. False) pattern input)"
  using mp.run_eq_glob [OF assms] gm.run_eq_glob [OF assms] wm.run_eq_glob [OF assms]
  by (simp add: matchPattern_accepts GlobMatch_accepts wildcardMatch_accepts)

theorem matchers_decide_glob_witness:
  "CHR ''*'' \<notin> set ''bucket/a/b.txt'' \<and>
   (matchPattern ''bucket/*.t?t'' ''bucket/a/b.txt'' \<longleftrightarrow>
      glob (\<lambda>c. c = CHR ''?'') ''bucket/*.t?t'' ''bucket/a/b.txt'') \<and>
   glob (\<lambda>c. c = CHR ''?'') ''bucket/*.t?t'' ''bucket/a/b.txt''"
  using matchers_decide_glob [of "''bucket/a/b.txt''" "''bucket/*.t?t''"] by simp

text \<open>
  A star that meets a star of the input is consumed as a literal: the pattern
  \<open>b*\<close> does not match \<open>b*cx\<close> although the glob relation holds. A policy statement on
  \<open>bucket/*\<close> does not cover the key \<open>*x\<close>.
\<close>

theorem matchPattern_literal_star:
  "\<not> matchPattern (b @ ''*'') (b @ ''*'' @ c # x)
   \<and> glob (\<lambda>c. c = CHR ''?'') (b @ ''*'') (b @ ''*'' @ c # x)"
proof
  show "\<not> matchPattern (b @ ''*'') (b @ ''*'' @ c # x)"
    using mp.run_literal_star [of b c x] by (simp add: matchPattern_accepts)
  have "glob (\<lambda>c. c = CHR ''?'') ''*'' y" for y by (induction y) auto
  then have "glob (\<lambda>c. c = CHR ''?'') (b @ ''*'') (b @ y)" for y
    by (induction b) (auto simp: glob_star intro: exI [of _ 1])
  then show "glob (\<lambda>c. c = CHR ''?'') (b @ ''*'') (b @ ''*'' @ c # x)" .
qed

text \<open>
  The matcher of bucket policies and the matcher of conditions are the same function.
\<close>

theorem matchPattern_is_GlobMatch: "matchPattern pattern input = GlobMatch pattern input"
  by (simp add: matchPattern_accepts GlobMatch_accepts matchPattern_loop_eq)

end
