(* ===== verification/Condition_Eval.thy ===== *)
theory Condition_Eval
  imports Glob_Match
begin

text \<open>
  Package internal/condition: the Condition grammar of IAM and bucket policies. A statement's
  raw Condition block, the request's context values and the document's Version give whether
  the condition holds.

  The number, date and address parsers of the Go library (\<open>strconv.ParseFloat\<close>, \<open>time.Parse\<close>,
  \<open>net.ParseIP\<close>, \<open>net.ParseCIDR\<close>) are the fields of the record \<open>cond_host\<close>; everything the
  package itself does with their results is defined here.
\<close>

section \<open>Library parsers\<close>

text \<open>
  A parsed float64. A finite value is the dyadic rational \<open>m * 2 ^ e\<close>; a comparison with NaN is
  false.
\<close>

datatype float64 = NaN | NegInf | Finite int int | PosInf

text \<open>The two mantissas at a common exponent.\<close>

definition align :: "int \<Rightarrow> int \<Rightarrow> int \<Rightarrow> int" where
  "align m e e' = m * 2 ^ nat (e - min e e')"

fun float_eq :: "float64 \<Rightarrow> float64 \<Rightarrow> bool" where
  "float_eq (Finite m e) (Finite m' e') = (align m e e' = align m' e' e)"
| "float_eq PosInf PosInf = True"
| "float_eq NegInf NegInf = True"
| "float_eq _ _ = False"

fun float_less :: "float64 \<Rightarrow> float64 \<Rightarrow> bool" where
  "float_less (Finite m e) (Finite m' e') = (align m e e' < align m' e' e)"
| "float_less NegInf (Finite _ _) = True"
| "float_less NegInf PosInf = True"
| "float_less (Finite _ _) PosInf = True"
| "float_less _ _ = False"

type_synonym go_ip = "nat list"

text \<open>
  \<open>ParseTime layout s\<close> gives the instant in nanoseconds, \<open>UnixFloat f\<close> the instant of
  \<open>time.Unix(int64(f), int64((f - float64(int64(f))) * 1e9))\<close>, \<open>ParseCIDR\<close> the membership test
  of the network.
\<close>

record cond_host =
  ParseFloat :: "string \<Rightarrow> float64 option"
  ParseTime :: "string \<Rightarrow> string \<Rightarrow> int option"
  UnixFloat :: "float64 \<Rightarrow> int"
  ParseIP :: "string \<Rightarrow> go_ip option"
  IsIPv4 :: "go_ip \<Rightarrow> bool"
  ParseCIDR :: "string \<Rightarrow> (go_ip \<Rightarrow> bool) option"

section \<open>Values and blocks\<close>

type_synonym Values = "string list"

fun decodeConditionScalar :: "json \<Rightarrow> string option" where
  "decodeConditionScalar (JStr s) = Some s"
| "decodeConditionScalar (JBool b) = Some (if b then ''true'' else ''false'')"
| "decodeConditionScalar (JNum n) = Some n"
| "decodeConditionScalar _ = None"

fun decode_all :: "('a \<Rightarrow> 'b option) \<Rightarrow> 'a list \<Rightarrow> 'b list option" where
  "decode_all f [] = Some []"
| "decode_all f (x # xs) =
     (case f x of None \<Rightarrow> None
      | Some y \<Rightarrow> (case decode_all f xs of None \<Rightarrow> None | Some ys \<Rightarrow> Some (y # ys)))"

fun Values_UnmarshalJSON :: "json \<Rightarrow> Values option" where
  "Values_UnmarshalJSON (JArr raws) = decode_all decodeConditionScalar raws"
| "Values_UnmarshalJSON j = map_option (\<lambda>s. [s]) (decodeConditionScalar j)"

text \<open>\<open>Block\<close>: operator name to key to values, entries in the order of one iteration.\<close>

type_synonym Block = "(string \<times> (string \<times> Values) list) list"

text \<open>Decoding one operator's \<open>map[string]Values\<close>; a JSON null is a nil map.\<close>

fun unmarshal_kvs :: "json \<Rightarrow> (string \<times> Values) list option" where
  "unmarshal_kvs (JObj ms) =
     decode_all (\<lambda>(k, v). map_option (Pair k) (Values_UnmarshalJSON v)) ms"
| "unmarshal_kvs JNull = Some []"
| "unmarshal_kvs _ = None"

fun unmarshal_block :: "json \<Rightarrow> Block option" where
  "unmarshal_block (JObj ms) =
     map_option (\<lambda>b. map (\<lambda>(op, kvs). (op, json_map_entries kvs)) (json_map_entries b))
       (decode_all (\<lambda>(op, v). map_option (Pair op) (unmarshal_kvs v)) ms)"
| "unmarshal_block JNull = Some []"
| "unmarshal_block _ = None"

section \<open>Operators\<close>

datatype Qualifier = QualifierNone | QualifierForAllValues | QualifierForAnyValue

type_synonym conditionComparator = "string \<Rightarrow> string \<Rightarrow> bool"

record conditionOperatorDef =
  compare :: conditionComparator
  negate :: bool

definition stringExact :: conditionComparator where
  "stringExact expected actual = (expected = actual)"

definition stringFold :: conditionComparator where
  "stringFold expected actual = EqualFold expected actual"

definition stringLike :: conditionComparator where
  "stringLike expected actual = GlobMatch expected actual"

definition numericCompare :: "cond_host \<Rightarrow> (float64 \<Rightarrow> float64 \<Rightarrow> bool) \<Rightarrow> conditionComparator" where
  "numericCompare h op expected actual =
     (case (ParseFloat h expected, ParseFloat h actual) of
        (Some e, Some a) \<Rightarrow> op a e
      | _ \<Rightarrow> False)"

definition parseConditionDate :: "cond_host \<Rightarrow> string \<Rightarrow> int option" where
  "parseConditionDate h s =
     (case ParseTime h ''RFC3339'' s of Some t \<Rightarrow> Some t
      | None \<Rightarrow> (case ParseTime h ''RFC3339Nano'' s of Some t \<Rightarrow> Some t
      | None \<Rightarrow> map_option (UnixFloat h) (ParseFloat h s)))"

definition dateCompare :: "cond_host \<Rightarrow> (int \<Rightarrow> int \<Rightarrow> bool) \<Rightarrow> conditionComparator" where
  "dateCompare h op expected actual =
     (case (parseConditionDate h expected, parseConditionDate h actual) of
        (Some e, Some a) \<Rightarrow> op a e
      | _ \<Rightarrow> False)"

text \<open>\<open>strconv.ParseBool\<close>.\<close>

definition ParseBool :: "string \<Rightarrow> bool option" where
  "ParseBool s =
     (if s \<in> {''1'', ''t'', ''T'', ''true'', ''TRUE'', ''True''} then Some True
      else if s \<in> {''0'', ''f'', ''F'', ''false'', ''FALSE'', ''False''} then Some False
      else None)"

definition boolMatch :: conditionComparator where
  "boolMatch expected actual =
     (case (ParseBool expected, ParseBool actual) of (Some e, Some a) \<Rightarrow> e = a | _ \<Rightarrow> False)"

definition normalizeIPOrCIDR :: "cond_host \<Rightarrow> string \<Rightarrow> string" where
  "normalizeIPOrCIDR h s =
     (if Contains s ''/'' then s
      else case ParseIP h s of
          Some ip \<Rightarrow> if IsIPv4 h ip then s @ ''/32'' else s @ ''/128''
        | None \<Rightarrow> s @ ''/128'')"

definition ParseIPOrCIDR :: "cond_host \<Rightarrow> string \<Rightarrow> bool" where
  "ParseIPOrCIDR h s \<longleftrightarrow> ParseCIDR h (normalizeIPOrCIDR h s) \<noteq> None"

definition ipMatch :: "cond_host \<Rightarrow> conditionComparator" where
  "ipMatch h cidr actual =
     (case ParseCIDR h (normalizeIPOrCIDR h cidr) of
        None \<Rightarrow> False
      | Some network \<Rightarrow> (case ParseIP h actual of None \<Rightarrow> False | Some ip \<Rightarrow> network ip))"

definition conditionRegistry :: "cond_host \<Rightarrow> (string \<times> conditionOperatorDef) list" where
  "conditionRegistry h =
    [(''StringEquals'', \<lparr>compare = stringExact, negate = False\<rparr>),
     (''StringNotEquals'', \<lparr>compare = stringExact, negate = True\<rparr>),
     (''StringEqualsIgnoreCase'', \<lparr>compare = stringFold, negate = False\<rparr>),
     (''StringNotEqualsIgnoreCase'', \<lparr>compare = stringFold, negate = True\<rparr>),
     (''StringLike'', \<lparr>compare = stringLike, negate = False\<rparr>),
     (''StringNotLike'', \<lparr>compare = stringLike, negate = True\<rparr>),
     (''NumericEquals'', \<lparr>compare = numericCompare h float_eq, negate = False\<rparr>),
     (''NumericNotEquals'', \<lparr>compare = numericCompare h float_eq, negate = True\<rparr>),
     (''NumericLessThan'', \<lparr>compare = numericCompare h (\<lambda>a e. float_less a e), negate = False\<rparr>),
     (''NumericLessThanEquals'',
        \<lparr>compare = numericCompare h (\<lambda>a e. float_less a e \<or> float_eq a e), negate = False\<rparr>),
     (''NumericGreaterThan'', \<lparr>compare = numericCompare h (\<lambda>a e. float_less e a), negate = False\<rparr>),
     (''NumericGreaterThanEquals'',
        \<lparr>compare = numericCompare h (\<lambda>a e. float_less e a \<or> float_eq a e), negate = False\<rparr>),
     (''DateEquals'', \<lparr>compare = dateCompare h (\<lambda>a e. a = e), negate = False\<rparr>),
     (''DateNotEquals'', \<lparr>compare = dateCompare h (\<lambda>a e. a = e), negate = True\<rparr>),
     (''DateLessThan'', \<lparr>compare = dateCompare h (\<lambda>a e. a < e), negate = False\<rparr>),
     (''DateLessThanEquals'', \<lparr>compare = dateCompare h (\<lambda>a e. \<not> e < a), negate = False\<rparr>),
     (''DateGreaterThan'', \<lparr>compare = dateCompare h (\<lambda>a e. e < a), negate = False\<rparr>),
     (''DateGreaterThanEquals'', \<lparr>compare = dateCompare h (\<lambda>a e. \<not> a < e), negate = False\<rparr>),
     (''Bool'', \<lparr>compare = boolMatch, negate = False\<rparr>),
     (''BinaryEquals'', \<lparr>compare = stringExact, negate = False\<rparr>),
     (''ArnEquals'', \<lparr>compare = stringLike, negate = False\<rparr>),
     (''ArnLike'', \<lparr>compare = stringLike, negate = False\<rparr>),
     (''ArnNotEquals'', \<lparr>compare = stringLike, negate = True\<rparr>),
     (''ArnNotLike'', \<lparr>compare = stringLike, negate = True\<rparr>),
     (''IpAddress'', \<lparr>compare = ipMatch h, negate = False\<rparr>),
     (''NotIpAddress'', \<lparr>compare = ipMatch h, negate = True\<rparr>)]"

text \<open>The base names do not depend on the host.\<close>

definition registryNames :: "string list" where
  "registryNames =
    [''StringEquals'', ''StringNotEquals'', ''StringEqualsIgnoreCase'',
     ''StringNotEqualsIgnoreCase'', ''StringLike'', ''StringNotLike'',
     ''NumericEquals'', ''NumericNotEquals'', ''NumericLessThan'', ''NumericLessThanEquals'',
     ''NumericGreaterThan'', ''NumericGreaterThanEquals'',
     ''DateEquals'', ''DateNotEquals'', ''DateLessThan'', ''DateLessThanEquals'',
     ''DateGreaterThan'', ''DateGreaterThanEquals'',
     ''Bool'', ''BinaryEquals'', ''ArnEquals'', ''ArnLike'', ''ArnNotEquals'', ''ArnNotLike'',
     ''IpAddress'', ''NotIpAddress'']"

lemma registryNames_eq: "map fst (conditionRegistry h) = registryNames"
  by (simp add: conditionRegistry_def registryNames_def)

record ParsedOperator =
  Qualifier :: Qualifier
  Base :: string
  IfExists :: bool

definition splitQualifier :: "string \<Rightarrow> Qualifier \<times> string" where
  "splitQualifier name =
     (if HasPrefix name ''ForAllValues:'' then
        (QualifierForAllValues, TrimPrefix name ''ForAllValues:'')
      else if HasPrefix name ''ForAnyValue:'' then
        (QualifierForAnyValue, TrimPrefix name ''ForAnyValue:'')
      else (QualifierNone, name))"

definition ParseOperatorName :: "string \<Rightarrow> ParsedOperator option" where
  "ParseOperatorName name =
     (let (qualifier, op) = splitQualifier name
      in if op = ''Null'' then
           Some \<lparr>Qualifier = qualifier, Base = ''Null'', IfExists = False\<rparr>
         else
           let base = TrimSuffix op ''IfExists''; ifExists = (base \<noteq> op)
           in if base \<in> set registryNames then
                Some \<lparr>Qualifier = qualifier, Base = base, IfExists = ifExists\<rparr>
              else None)"

text \<open>\<open>Parse\<close>; \<open>None\<close> is a non-nil error, an absent or null block is the empty block.\<close>

definition Parse :: "json option \<Rightarrow> Block option" where
  "Parse raw =
     (case raw of
        None \<Rightarrow> Some []
      | Some j \<Rightarrow>
          if j = JNull then Some []
          else case unmarshal_block j of
              None \<Rightarrow> None
            | Some block \<Rightarrow>
                if \<forall>(operator, _) \<in> set block. ParseOperatorName operator \<noteq> None then Some block
                else None)"

definition ShapeValid :: "json option \<Rightarrow> bool" where
  "ShapeValid raw \<longleftrightarrow> Parse raw \<noteq> None"

section \<open>Context values and policy variables\<close>

type_synonym ctx_vars = "(string \<times> string list) list"

definition lookupContextValues :: "ctx_vars \<Rightarrow> string \<Rightarrow> string list option" where
  "lookupContextValues ctxVars key =
     (case map_of ctxVars key of
        Some v \<Rightarrow> Some v
      | None \<Rightarrow> map_option snd (find (\<lambda>(k, v). EqualFold k key) ctxVars))"

definition conditionVariableOperators :: "string list" where
  "conditionVariableOperators =
    [''StringEquals'', ''StringNotEquals'', ''StringEqualsIgnoreCase'',
     ''StringNotEqualsIgnoreCase'', ''StringLike'', ''StringNotLike'',
     ''ArnEquals'', ''ArnLike'', ''ArnNotEquals'', ''ArnNotLike'']"

text \<open>
  \<open>policyVariablePattern\<close>, the regular expression \<open>${key}\<close> with a non-empty key over
  \<open>[A-Za-z0-9_:.-]\<close>, tried at the start of a string: the key and the text behind the match.
\<close>

definition var_char :: "char \<Rightarrow> bool" where
  "var_char c \<longleftrightarrow> ascii_alnum c \<or> c \<in> {CHR ''_'', CHR '':'', CHR ''.'', CHR ''-''}"

definition policyVariablePattern :: "string \<Rightarrow> (string \<times> string) option" where
  "policyVariablePattern s =
     (if prefix ''${'' s then
        let r = drop 2 s; key = takeWhile var_char r; rest = dropWhile var_char r
        in if key \<noteq> [] \<and> rest \<noteq> [] \<and> hd rest = CHR ''}'' then Some (key, tl rest) else None
      else None)"

lemma policyVariablePattern_Some:
  assumes "policyVariablePattern s = Some (key, rest)"
  shows "s = ''${'' @ key @ ''}'' @ rest"
proof -
  define r where "r = drop 2 s"
  from assms have s: "s = ''${'' @ r"
    by (auto simp: policyVariablePattern_def r_def prefix_def split: if_splits)
  from assms have key: "key = takeWhile var_char r" and tl: "rest = tl (dropWhile var_char r)"
    and hd: "dropWhile var_char r \<noteq> []" "hd (dropWhile var_char r) = CHR ''}''"
    by (simp_all add: policyVariablePattern_def Let_def r_def split: if_splits)
  have "r = key @ dropWhile var_char r" using key by simp
  also have "dropWhile var_char r = CHR ''}'' # rest" using hd tl by (metis list.collapse)
  finally show ?thesis using s by simp
qed

lemma policyVariablePattern_shorter:
  "policyVariablePattern s = Some (key, rest) \<Longrightarrow> length rest < length s"
  using policyVariablePattern_Some [of s key rest] by simp

definition substituteMatch :: "ctx_vars \<Rightarrow> string \<Rightarrow> string" where
  "substituteMatch ctxVars key =
     (case lookupContextValues ctxVars key of
        Some [v] \<Rightarrow> v
      | _ \<Rightarrow> ''${'' @ key @ ''}'')"

text \<open>\<open>ReplaceAllStringFunc\<close>: leftmost, non-overlapping matches, the replacement not rescanned.\<close>

function replaceVariables :: "ctx_vars \<Rightarrow> string \<Rightarrow> string" where
  "replaceVariables ctxVars s =
     (case policyVariablePattern s of
        Some (key, rest) \<Rightarrow> substituteMatch ctxVars key @ replaceVariables ctxVars rest
      | None \<Rightarrow> (case s of [] \<Rightarrow> [] | c # s' \<Rightarrow> c # replaceVariables ctxVars s'))"
  by pat_completeness auto
termination
  by (relation "measure (\<lambda>(ctxVars, s). length s)")
     (auto simp: policyVariablePattern_shorter)

declare replaceVariables.simps [simp del]

definition SubstitutePolicyVariables :: "string \<Rightarrow> ctx_vars \<Rightarrow> string" where
  "SubstitutePolicyVariables s ctxVars =
     (if \<not> Contains s ''${'' then s else replaceVariables ctxVars s)"

definition substituteConditionValues :: "Values \<Rightarrow> ctx_vars \<Rightarrow> Values" where
  "substituteConditionValues values ctxVars = map (\<lambda>v. SubstitutePolicyVariables v ctxVars) values"

section \<open>Evaluation\<close>

fun evaluateNull :: "Values \<Rightarrow> bool \<Rightarrow> bool" where
  "evaluateNull [] present = False"
| "evaluateNull (e # es) present =
     (if EqualFold e ''true'' then (if \<not> present then True else evaluateNull es present)
      else if EqualFold e ''false'' then (if present then True else evaluateNull es present)
      else evaluateNull es present)"

definition aggregate ::
    "Qualifier \<Rightarrow> bool \<Rightarrow> Values \<Rightarrow> string list \<Rightarrow> conditionComparator \<Rightarrow> bool" where
  "aggregate qualifier neg expected actual cmp =
     (let matchesAny = (\<lambda>a. list_ex (\<lambda>e. cmp e a) expected);
          useForAll = (qualifier = QualifierForAllValues \<or> qualifier = QualifierNone \<and> neg)
      in if useForAll then list_all (\<lambda>a. matchesAny a \<noteq> neg) actual
         else list_ex (\<lambda>a. matchesAny a \<noteq> neg) actual)"

text \<open>\<open>actual\<close> is \<open>None\<close> where \<open>present\<close> is false.\<close>

definition evaluateConditionKey ::
    "cond_host \<Rightarrow> ParsedOperator \<Rightarrow> Values \<Rightarrow> string list option \<Rightarrow> bool" where
  "evaluateConditionKey h op expected actual =
     (if Base op = ''Null'' then evaluateNull expected (actual \<noteq> None)
      else case map_of (conditionRegistry h) (Base op) of
          None \<Rightarrow> False
        | Some entry \<Rightarrow>
            (case actual of
               None \<Rightarrow>
                 if Qualifier op = QualifierForAllValues then True
                 else if negate entry then True
                 else IfExists op
             | Some vals \<Rightarrow> aggregate (Qualifier op) (negate entry) expected vals (compare entry)))"

definition version2012 :: string where
  "version2012 = ''2012-10-17''"

fun evaluate_kvs ::
    "cond_host \<Rightarrow> ParsedOperator \<Rightarrow> ctx_vars \<Rightarrow> string \<Rightarrow> (string \<times> Values) list \<Rightarrow> bool" where
  "evaluate_kvs h op ctxVars version [] = True"
| "evaluate_kvs h op ctxVars version ((key, expected) # kvs) =
     (let actual = lookupContextValues ctxVars key;
          expected' =
            (if version = version2012 \<and> Base op \<in> set conditionVariableOperators
             then substituteConditionValues expected ctxVars else expected)
      in if \<not> evaluateConditionKey h op expected' actual then False
         else evaluate_kvs h op ctxVars version kvs)"

fun evaluate_block :: "cond_host \<Rightarrow> ctx_vars \<Rightarrow> string \<Rightarrow> Block \<Rightarrow> bool" where
  "evaluate_block h ctxVars version [] = True"
| "evaluate_block h ctxVars version ((operator, kvs) # block) =
     (case ParseOperatorName operator of
        None \<Rightarrow> False
      | Some op \<Rightarrow>
          if \<not> evaluate_kvs h op ctxVars version kvs then False
          else evaluate_block h ctxVars version block)"

text \<open>\<open>Evaluate\<close>: the pair (matched, ok).\<close>

definition Evaluate :: "cond_host \<Rightarrow> json option \<Rightarrow> ctx_vars \<Rightarrow> string \<Rightarrow> bool \<times> bool" where
  "Evaluate h raw ctxVars version =
     (case Parse raw of
        None \<Rightarrow> (False, False)
      | Some block \<Rightarrow> (evaluate_block h ctxVars version block, True))"

section \<open>Facts\<close>

lemma Evaluate_ok: "snd (Evaluate h raw ctxVars version) \<longleftrightarrow> Parse raw \<noteq> None"
  by (simp add: Evaluate_def split: option.splits)

lemma Evaluate_absent [simp]: "Evaluate h None ctxVars version = (True, True)"
  by (simp add: Evaluate_def Parse_def)

text \<open>The value one key is tested with.\<close>

definition effective_values :: "ParsedOperator \<Rightarrow> ctx_vars \<Rightarrow> string \<Rightarrow> Values \<Rightarrow> Values" where
  "effective_values op ctxVars version expected =
     (if version = version2012 \<and> Base op \<in> set conditionVariableOperators
      then substituteConditionValues expected ctxVars else expected)"

lemma evaluate_kvs_iff:
  "evaluate_kvs h op ctxVars version kvs \<longleftrightarrow>
     (\<forall>(key, expected) \<in> set kvs.
        evaluateConditionKey h op (effective_values op ctxVars version expected)
          (lookupContextValues ctxVars key))"
proof (induction kvs)
  case (Cons kv kvs)
  then show ?case by (cases kv) (simp add: effective_values_def Let_def)
qed simp

lemma evaluate_block_iff:
  "evaluate_block h ctxVars version block \<longleftrightarrow>
     (\<forall>(operator, kvs) \<in> set block. \<exists>op. ParseOperatorName operator = Some op \<and>
        evaluate_kvs h op ctxVars version kvs)"
proof (induction block)
  case (Cons b block)
  then show ?case by (cases b; cases "ParseOperatorName (fst b)") simp_all
qed simp

subsection \<open>Context lookup\<close>

definition fold_distinct :: "ctx_vars \<Rightarrow> bool" where
  "fold_distinct ctxVars \<longleftrightarrow> distinct (map (ToLower \<circ> fst) ctxVars)"

lemma fold_distinct_unique:
  assumes "fold_distinct ctxVars" "(k, v) \<in> set ctxVars" "(k', v') \<in> set ctxVars" "EqualFold k k'"
  shows "v = v'"
proof -
  have "inj_on (ToLower \<circ> fst) (set ctxVars)"
    using assms(1) by (simp add: fold_distinct_def distinct_map)
  from inj_onD [OF this _ assms(2,3)] assms(4) show ?thesis by (simp add: EqualFold_def)
qed

lemma lookupContextValues_Some:
  assumes "fold_distinct ctxVars"
  shows "lookupContextValues ctxVars key = Some v \<longleftrightarrow>
           (\<exists>k. (k, v) \<in> set ctxVars \<and> EqualFold k key)"
proof
  assume "lookupContextValues ctxVars key = Some v"
  then show "\<exists>k. (k, v) \<in> set ctxVars \<and> EqualFold k key"
    by (auto simp: lookupContextValues_def split: option.splits dest!: find_Some_mem map_of_SomeD)
next
  assume "\<exists>k. (k, v) \<in> set ctxVars \<and> EqualFold k key"
  then obtain k where k: "(k, v) \<in> set ctxVars" "EqualFold k key" by blast
  show "lookupContextValues ctxVars key = Some v"
  proof (cases "map_of ctxVars key")
    case (Some w)
    with k fold_distinct_unique [OF assms k(1), of key w] show ?thesis
      by (auto simp: lookupContextValues_def dest: map_of_SomeD)
  next
    case None
    from k obtain k' w where f: "find (\<lambda>(k, v). EqualFold k key) ctxVars = Some (k', w)"
      by (cases "find (\<lambda>(k, v). EqualFold k key) ctxVars") (auto simp: find_None)
    then have "(k', w) \<in> set ctxVars" "EqualFold k' key" by (auto dest: find_Some_mem)
    with k have "v = w" using fold_distinct_unique [OF assms k(1), of k' w] by (simp add: EqualFold_def)
    with None f show ?thesis by (simp add: lookupContextValues_def)
  qed
qed

lemma lookupContextValues_perm:
  assumes "fold_distinct ctxVars" "mset ctxVars' = mset ctxVars"
  shows "lookupContextValues ctxVars' key = lookupContextValues ctxVars key"
proof -
  have "fold_distinct ctxVars'"
    using assms by (metis fold_distinct_def mset_eq_imp_distinct_iff mset_map)
  moreover have "set ctxVars' = set ctxVars" using assms(2) by (rule mset_eq_setD)
  ultimately have "lookupContextValues ctxVars' key = Some v \<longleftrightarrow>
      lookupContextValues ctxVars key = Some v" for v
    using assms(1) by (simp add: lookupContextValues_Some)
  then show ?thesis by (metis not_None_eq)
qed

lemma replaceVariables_cong:
  assumes "\<And>key. lookupContextValues c' key = lookupContextValues c key"
  shows "replaceVariables c' s = replaceVariables c s"
proof (induction s rule: length_induct)
  case (1 s)
  show ?case
  proof (cases "policyVariablePattern s")
    case None
    with 1 show ?thesis by (subst (1 2) replaceVariables.simps) (simp split: list.splits)
  next
    case (Some kr)
    with 1 assms policyVariablePattern_shorter [of s "fst kr" "snd kr"] show ?thesis
      by (cases kr) (simp add: replaceVariables.simps [of _ s] substituteMatch_def)
  qed
qed

lemma Evaluate_cong:
  assumes "\<And>key. lookupContextValues c' key = lookupContextValues c key"
  shows "Evaluate h raw c' version = Evaluate h raw c version"
proof -
  have "effective_values op c' version e = effective_values op c version e" for op e
    using replaceVariables_cong [OF assms]
    by (simp add: effective_values_def substituteConditionValues_def SubstitutePolicyVariables_def)
  then have "evaluate_kvs h op c' version kvs = evaluate_kvs h op c version kvs" for op kvs
    by (simp add: evaluate_kvs_iff assms)
  then have "evaluate_block h c' version block = evaluate_block h c version block" for block
    by (simp add: evaluate_block_iff)
  then show ?thesis by (simp add: Evaluate_def split: option.splits)
qed

subsection \<open>Substitution\<close>

lemma replaceVariables_Nil [simp]: "replaceVariables c [] = []"
  by (simp add: replaceVariables.simps policyVariablePattern_def)

lemma replaceVariables_skip:
  assumes "x \<noteq> CHR ''$''"
  shows "replaceVariables c (x # s) = x # replaceVariables c s"
proof -
  have "policyVariablePattern (x # s) = None" using assms by (simp add: policyVariablePattern_def)
  then show ?thesis by (simp add: replaceVariables.simps [of _ "x # s"])
qed

lemma replaceVariables_prefix:
  "CHR ''$'' \<notin> set pre \<Longrightarrow> replaceVariables c (pre @ s) = pre @ replaceVariables c s"
  by (induction pre) (auto simp: replaceVariables_skip)

lemma policyVariablePattern_var:
  assumes "list_all var_char key" "key \<noteq> []"
  shows "policyVariablePattern (''${'' @ key @ ''}'' @ rest) = Some (key, rest)"
proof -
  have "takeWhile var_char (key @ ''}'' @ rest) = key" "dropWhile var_char (key @ ''}'' @ rest) = ''}'' @ rest"
    using assms(1) by (simp_all add: list_all_iff takeWhile_append dropWhile_append var_char_def ascii_classes)
  then show ?thesis using assms(2)
    by (simp add: policyVariablePattern_def Let_def del: dropWhile_eq_Nil_conv)
qed

lemma Contains_append: "Contains (a @ t @ b) t"
proof (induction a)
  case Nil
  show ?case by (cases "t @ b") (simp_all, metis prefixI)
next
  case (Cons x a)
  then show ?case by simp
qed

section \<open>Properties\<close>

text \<open>The operators of the registry that come in a positive and a negated form.\<close>

definition negated_pairs :: "(string \<times> string) list" where
  "negated_pairs =
    [(''StringEquals'', ''StringNotEquals''),
     (''StringEqualsIgnoreCase'', ''StringNotEqualsIgnoreCase''),
     (''StringLike'', ''StringNotLike''), (''NumericEquals'', ''NumericNotEquals''),
     (''DateEquals'', ''DateNotEquals''), (''ArnEquals'', ''ArnNotEquals''),
     (''ArnLike'', ''ArnNotLike''), (''IpAddress'', ''NotIpAddress'')]"

lemma negated_pairs_registry:
  assumes "(pos, neg) \<in> set negated_pairs"
  shows "\<exists>cmp. map_of (conditionRegistry h) pos = Some \<lparr>compare = cmp, negate = False\<rparr>
    \<and> map_of (conditionRegistry h) neg = Some \<lparr>compare = cmp, negate = True\<rparr>
    \<and> pos \<noteq> ''Null'' \<and> neg \<noteq> ''Null''"
proof -
  have "list_all (\<lambda>(pos, neg). \<exists>cmp.
      map_of (conditionRegistry h) pos = Some \<lparr>compare = cmp, negate = False\<rparr>
    \<and> map_of (conditionRegistry h) neg = Some \<lparr>compare = cmp, negate = True\<rparr>
    \<and> pos \<noteq> ''Null'' \<and> neg \<noteq> ''Null'') negated_pairs"
    by (simp add: negated_pairs_def conditionRegistry_def)
  with assms show ?thesis by (auto simp: list_all_iff)
qed

text \<open>
  Without a set qualifier and without IfExists, a negated operator (StringNotEquals,
  NotIpAddress, ...) holds exactly when its positive counterpart does not, for every list of
  expected values and for every state of the context key: absent, empty, one value or many.
\<close>

theorem negated_operator_complement:
  assumes "(pos, neg) \<in> set negated_pairs"
  shows "evaluateConditionKey h \<lparr>Qualifier = QualifierNone, Base = neg, IfExists = False\<rparr> expected actual
    \<longleftrightarrow> \<not> evaluateConditionKey h \<lparr>Qualifier = QualifierNone, Base = pos, IfExists = False\<rparr> expected actual"
proof -
  from assms obtain cmp
    where "map_of (conditionRegistry h) pos = Some \<lparr>compare = cmp, negate = False\<rparr>"
      "map_of (conditionRegistry h) neg = Some \<lparr>compare = cmp, negate = True\<rparr>"
      "pos \<noteq> ''Null''" "neg \<noteq> ''Null''"
    using negated_pairs_registry by blast
  then show ?thesis
    by (auto simp: evaluateConditionKey_def aggregate_def list_all_iff list_ex_iff split: option.splits)
qed

theorem negated_operator_complement_witness:
  "(''StringEquals'', ''StringNotEquals'') \<in> set negated_pairs \<and>
   (\<forall>h. evaluateConditionKey h \<lparr>Qualifier = QualifierNone, Base = ''StringNotEquals'', IfExists = False\<rparr>
      [''a'', ''b''] (Some [''b'', ''c''])
    \<longleftrightarrow> \<not> evaluateConditionKey h \<lparr>Qualifier = QualifierNone, Base = ''StringEquals'', IfExists = False\<rparr>
      [''a'', ''b''] (Some [''b'', ''c'']))"
proof -
  have m: "(''StringEquals'', ''StringNotEquals'') \<in> set negated_pairs"
    by (simp add: negated_pairs_def)
  show ?thesis using m negated_operator_complement [OF m] by blast
qed

text \<open>
  The result of evaluating a Condition block does not depend on the iteration order of
  the request's context map, when no two of its keys are equal up to case.
\<close>

theorem Evaluate_context_order:
  assumes "fold_distinct ctxVars" "mset ctxVars' = mset ctxVars"
  shows "Evaluate h raw ctxVars' version = Evaluate h raw ctxVars version"
  using assms by (intro Evaluate_cong lookupContextValues_perm)

theorem Evaluate_context_order_witness:
  "fold_distinct [(''aws:username'', [''u'']), (''s3:prefix'', [''p''])] \<and>
   (\<forall>h raw version.
     Evaluate h raw [(''s3:prefix'', [''p'']), (''aws:username'', [''u''])] version =
     Evaluate h raw [(''aws:username'', [''u'']), (''s3:prefix'', [''p''])] version)"
proof -
  have d: "fold_distinct [(''aws:username'', [''u'']), (''s3:prefix'', [''p''])]"
    by code_simp
  have m: "mset [(''s3:prefix'', [''p'']), (''aws:username'', [''u''])] =
      mset [(''aws:username'', [''u'']), (''s3:prefix'', [''p''])]"
    by (simp only: mset.simps add_mset_commute)
  show ?thesis using d Evaluate_context_order [OF d m] by (intro conjI allI)
qed

text \<open>
  Policy variables are substituted in one pass: the value of a variable is copied as it
  is, whatever it contains, and the scan goes on behind the closing brace. A context value
  that looks like a variable is never expanded.
\<close>

theorem substitution_single_pass:
  assumes "CHR ''$'' \<notin> set pre" "list_all var_char key" "key \<noteq> []"
    and "lookupContextValues ctxVars key = Some [v]"
  shows "SubstitutePolicyVariables (pre @ ''${'' @ key @ ''}'' @ rest) ctxVars =
           pre @ v @ SubstitutePolicyVariables rest ctxVars"
proof -
  have no_var: "replaceVariables ctxVars s = s" if "\<not> Contains s ''${''" for s
    using that
  proof (induction s)
    case (Cons x s)
    then have "\<not> prefix ''${'' (x # s)" by simp
    then have "policyVariablePattern (x # s) = None" unfolding policyVariablePattern_def by (rule if_not_P)
    with Cons show ?case by (simp add: replaceVariables.simps [of _ "x # s"])
  qed simp
  have "SubstitutePolicyVariables s ctxVars = replaceVariables ctxVars s" for s
    by (simp add: SubstitutePolicyVariables_def no_var)
  moreover have "replaceVariables ctxVars (''${'' @ key @ ''}'' @ rest) = v @ replaceVariables ctxVars rest"
    using policyVariablePattern_var [OF assms(2,3)] assms(4)
    by (subst replaceVariables.simps) (simp add: substituteMatch_def)
  ultimately show ?thesis using assms(1) by (simp add: replaceVariables_prefix)
qed

theorem substitution_single_pass_witness:
  "SubstitutePolicyVariables (''home/'' @ ''${'' @ ''aws:username'' @ ''}'' @ ''/x'')
     [(''aws:username'', [''${s3:prefix}'']), (''s3:prefix'', [''secret''])] =
   ''home/'' @ ''${s3:prefix}'' @ SubstitutePolicyVariables ''/x''
     [(''aws:username'', [''${s3:prefix}'']), (''s3:prefix'', [''secret''])]"
proof (rule substitution_single_pass)
  show "list_all var_char ''aws:username''" by (simp add: var_char_def ascii_classes)
qed (simp_all add: lookupContextValues_def)

end
