(* ===== verification/Policy_Actions.thy ===== *)
theory Policy_Actions
  imports Glob_Match
begin

text \<open>
  auth/bucket_policy_actions.go: the S3 actions a bucket policy can name, which of them are
  object actions, and the matching of a requested action against a statement's action patterns.
  The type \<open>Action\<close> is a string type in the source.
\<close>

type_synonym Action = string

section \<open>The action constants\<close>

abbreviation GetBucketAclAction :: Action where "GetBucketAclAction \<equiv> ''s3:GetBucketAcl''"
abbreviation CreateBucketAction :: Action where "CreateBucketAction \<equiv> ''s3:CreateBucket''"
abbreviation PutBucketAclAction :: Action where "PutBucketAclAction \<equiv> ''s3:PutBucketAcl''"
abbreviation DeleteBucketAction :: Action where "DeleteBucketAction \<equiv> ''s3:DeleteBucket''"
abbreviation PutBucketVersioningAction :: Action where "PutBucketVersioningAction \<equiv> ''s3:PutBucketVersioning''"
abbreviation GetBucketVersioningAction :: Action where "GetBucketVersioningAction \<equiv> ''s3:GetBucketVersioning''"
abbreviation PutBucketPolicyAction :: Action where "PutBucketPolicyAction \<equiv> ''s3:PutBucketPolicy''"
abbreviation GetBucketPolicyAction :: Action where "GetBucketPolicyAction \<equiv> ''s3:GetBucketPolicy''"
abbreviation DeleteBucketPolicyAction :: Action where "DeleteBucketPolicyAction \<equiv> ''s3:DeleteBucketPolicy''"
abbreviation AbortMultipartUploadAction :: Action where "AbortMultipartUploadAction \<equiv> ''s3:AbortMultipartUpload''"
abbreviation ListMultipartUploadPartsAction :: Action where "ListMultipartUploadPartsAction \<equiv> ''s3:ListMultipartUploadParts''"
abbreviation ListBucketMultipartUploadsAction :: Action where "ListBucketMultipartUploadsAction \<equiv> ''s3:ListBucketMultipartUploads''"
abbreviation PutObjectAction :: Action where "PutObjectAction \<equiv> ''s3:PutObject''"
abbreviation GetObjectAction :: Action where "GetObjectAction \<equiv> ''s3:GetObject''"
abbreviation GetObjectVersionAction :: Action where "GetObjectVersionAction \<equiv> ''s3:GetObjectVersion''"
abbreviation DeleteObjectAction :: Action where "DeleteObjectAction \<equiv> ''s3:DeleteObject''"
abbreviation DeleteObjectVersionAction :: Action where "DeleteObjectVersionAction \<equiv> ''s3:DeleteObjectVersion''"
abbreviation GetObjectAclAction :: Action where "GetObjectAclAction \<equiv> ''s3:GetObjectAcl''"
abbreviation GetObjectAttributesAction :: Action where "GetObjectAttributesAction \<equiv> ''s3:GetObjectAttributes''"
abbreviation GetObjectVersionAttributesAction :: Action where "GetObjectVersionAttributesAction \<equiv> ''s3:GetObjectVersionAttributes''"
abbreviation PutObjectAclAction :: Action where "PutObjectAclAction \<equiv> ''s3:PutObjectAcl''"
abbreviation RestoreObjectAction :: Action where "RestoreObjectAction \<equiv> ''s3:RestoreObject''"
abbreviation GetBucketTaggingAction :: Action where "GetBucketTaggingAction \<equiv> ''s3:GetBucketTagging''"
abbreviation PutBucketTaggingAction :: Action where "PutBucketTaggingAction \<equiv> ''s3:PutBucketTagging''"
abbreviation GetObjectTaggingAction :: Action where "GetObjectTaggingAction \<equiv> ''s3:GetObjectTagging''"
abbreviation GetObjectVersionTaggingAction :: Action where "GetObjectVersionTaggingAction \<equiv> ''s3:GetObjectVersionTagging''"
abbreviation PutObjectTaggingAction :: Action where "PutObjectTaggingAction \<equiv> ''s3:PutObjectTagging''"
abbreviation PutObjectVersionTaggingAction :: Action where "PutObjectVersionTaggingAction \<equiv> ''s3:PutObjectVersionTagging''"
abbreviation DeleteObjectTaggingAction :: Action where "DeleteObjectTaggingAction \<equiv> ''s3:DeleteObjectTagging''"
abbreviation DeleteObjectVersionTaggingAction :: Action where "DeleteObjectVersionTaggingAction \<equiv> ''s3:DeleteObjectVersionTagging''"
abbreviation ListBucketVersionsAction :: Action where "ListBucketVersionsAction \<equiv> ''s3:ListBucketVersions''"
abbreviation ListBucketAction :: Action where "ListBucketAction \<equiv> ''s3:ListBucket''"
abbreviation GetBucketObjectLockConfigurationAction :: Action where "GetBucketObjectLockConfigurationAction \<equiv> ''s3:GetBucketObjectLockConfiguration''"
abbreviation PutBucketObjectLockConfigurationAction :: Action where "PutBucketObjectLockConfigurationAction \<equiv> ''s3:PutBucketObjectLockConfiguration''"
abbreviation GetObjectLegalHoldAction :: Action where "GetObjectLegalHoldAction \<equiv> ''s3:GetObjectLegalHold''"
abbreviation PutObjectLegalHoldAction :: Action where "PutObjectLegalHoldAction \<equiv> ''s3:PutObjectLegalHold''"
abbreviation GetObjectRetentionAction :: Action where "GetObjectRetentionAction \<equiv> ''s3:GetObjectRetention''"
abbreviation PutObjectRetentionAction :: Action where "PutObjectRetentionAction \<equiv> ''s3:PutObjectRetention''"
abbreviation BypassGovernanceRetentionAction :: Action where "BypassGovernanceRetentionAction \<equiv> ''s3:BypassGovernanceRetention''"
abbreviation PutBucketOwnershipControlsAction :: Action where "PutBucketOwnershipControlsAction \<equiv> ''s3:PutBucketOwnershipControls''"
abbreviation GetBucketOwnershipControlsAction :: Action where "GetBucketOwnershipControlsAction \<equiv> ''s3:GetBucketOwnershipControls''"
abbreviation PutBucketCorsAction :: Action where "PutBucketCorsAction \<equiv> ''s3:PutBucketCORS''"
abbreviation GetBucketCorsAction :: Action where "GetBucketCorsAction \<equiv> ''s3:GetBucketCORS''"
abbreviation PutAnalyticsConfigurationAction :: Action where "PutAnalyticsConfigurationAction \<equiv> ''s3:PutAnalyticsConfiguration''"
abbreviation GetAnalyticsConfigurationAction :: Action where "GetAnalyticsConfigurationAction \<equiv> ''s3:GetAnalyticsConfiguration''"
abbreviation PutEncryptionConfigurationAction :: Action where "PutEncryptionConfigurationAction \<equiv> ''s3:PutEncryptionConfiguration''"
abbreviation GetEncryptionConfigurationAction :: Action where "GetEncryptionConfigurationAction \<equiv> ''s3:GetEncryptionConfiguration''"
abbreviation PutIntelligentTieringConfigurationAction :: Action where "PutIntelligentTieringConfigurationAction \<equiv> ''s3:PutIntelligentTieringConfiguration''"
abbreviation GetIntelligentTieringConfigurationAction :: Action where "GetIntelligentTieringConfigurationAction \<equiv> ''s3:GetIntelligentTieringConfiguration''"
abbreviation PutInventoryConfigurationAction :: Action where "PutInventoryConfigurationAction \<equiv> ''s3:PutInventoryConfiguration''"
abbreviation GetInventoryConfigurationAction :: Action where "GetInventoryConfigurationAction \<equiv> ''s3:GetInventoryConfiguration''"
abbreviation PutLifecycleConfigurationAction :: Action where "PutLifecycleConfigurationAction \<equiv> ''s3:PutLifecycleConfiguration''"
abbreviation GetLifecycleConfigurationAction :: Action where "GetLifecycleConfigurationAction \<equiv> ''s3:GetLifecycleConfiguration''"
abbreviation PutBucketLoggingAction :: Action where "PutBucketLoggingAction \<equiv> ''s3:PutBucketLogging''"
abbreviation GetBucketLoggingAction :: Action where "GetBucketLoggingAction \<equiv> ''s3:GetBucketLogging''"
abbreviation PutBucketRequestPaymentAction :: Action where "PutBucketRequestPaymentAction \<equiv> ''s3:PutBucketRequestPayment''"
abbreviation GetBucketRequestPaymentAction :: Action where "GetBucketRequestPaymentAction \<equiv> ''s3:GetBucketRequestPayment''"
abbreviation PutMetricsConfigurationAction :: Action where "PutMetricsConfigurationAction \<equiv> ''s3:PutMetricsConfiguration''"
abbreviation GetMetricsConfigurationAction :: Action where "GetMetricsConfigurationAction \<equiv> ''s3:GetMetricsConfiguration''"
abbreviation PutReplicationConfigurationAction :: Action where "PutReplicationConfigurationAction \<equiv> ''s3:PutReplicationConfiguration''"
abbreviation GetReplicationConfigurationAction :: Action where "GetReplicationConfigurationAction \<equiv> ''s3:GetReplicationConfiguration''"
abbreviation PutBucketPublicAccessBlockAction :: Action where "PutBucketPublicAccessBlockAction \<equiv> ''s3:PutBucketPublicAccessBlock''"
abbreviation GetBucketPublicAccessBlockAction :: Action where "GetBucketPublicAccessBlockAction \<equiv> ''s3:GetBucketPublicAccessBlock''"
abbreviation PutBucketNotificationAction :: Action where "PutBucketNotificationAction \<equiv> ''s3:PutBucketNotification''"
abbreviation GetBucketNotificationAction :: Action where "GetBucketNotificationAction \<equiv> ''s3:GetBucketNotification''"
abbreviation PutAccelerateConfigurationAction :: Action where "PutAccelerateConfigurationAction \<equiv> ''s3:PutAccelerateConfiguration''"
abbreviation GetAccelerateConfigurationAction :: Action where "GetAccelerateConfigurationAction \<equiv> ''s3:GetAccelerateConfiguration''"
abbreviation PutBucketWebsiteAction :: Action where "PutBucketWebsiteAction \<equiv> ''s3:PutBucketWebsite''"
abbreviation GetBucketWebsiteAction :: Action where "GetBucketWebsiteAction \<equiv> ''s3:GetBucketWebsite''"
abbreviation DeleteBucketWebsiteAction :: Action where "DeleteBucketWebsiteAction \<equiv> ''s3:DeleteBucketWebsite''"
abbreviation GetBucketPolicyStatusAction :: Action where "GetBucketPolicyStatusAction \<equiv> ''s3:GetBucketPolicyStatus''"
abbreviation GetBucketLocationAction :: Action where "GetBucketLocationAction \<equiv> ''s3:GetBucketLocation''"
abbreviation ListAllMyBucketsAction :: Action where "ListAllMyBucketsAction \<equiv> ''s3:ListAllMyBuckets''"
abbreviation AllActions :: Action where "AllActions \<equiv> ''s3:*''"

section \<open>The supported actions\<close>

text \<open>The keys of the two tables; only membership is used.\<close>

definition supportedActionList :: "Action list" where
  "supportedActionList =
   [GetBucketAclAction, CreateBucketAction, PutBucketAclAction, DeleteBucketAction,
    PutBucketVersioningAction, GetBucketVersioningAction, PutBucketPolicyAction,
    GetBucketPolicyAction, DeleteBucketPolicyAction, AbortMultipartUploadAction,
    ListMultipartUploadPartsAction, ListBucketMultipartUploadsAction, PutObjectAction,
    GetObjectAction, GetObjectVersionAction, DeleteObjectAction, DeleteObjectVersionAction,
    GetObjectAclAction, GetObjectAttributesAction, GetObjectVersionAttributesAction,
    PutObjectAclAction, RestoreObjectAction, GetBucketTaggingAction, PutBucketTaggingAction,
    GetObjectTaggingAction, GetObjectVersionTaggingAction, PutObjectTaggingAction,
    PutObjectVersionTaggingAction, DeleteObjectTaggingAction, DeleteObjectVersionTaggingAction,
    ListBucketVersionsAction, ListBucketAction, GetBucketObjectLockConfigurationAction,
    PutBucketObjectLockConfigurationAction, GetObjectLegalHoldAction, PutObjectLegalHoldAction,
    GetObjectRetentionAction, PutObjectRetentionAction, BypassGovernanceRetentionAction,
    PutBucketOwnershipControlsAction, GetBucketOwnershipControlsAction, PutBucketCorsAction,
    GetBucketCorsAction, PutAnalyticsConfigurationAction, GetAnalyticsConfigurationAction,
    PutEncryptionConfigurationAction, GetEncryptionConfigurationAction,
    PutIntelligentTieringConfigurationAction, GetIntelligentTieringConfigurationAction,
    PutInventoryConfigurationAction, GetInventoryConfigurationAction,
    PutLifecycleConfigurationAction, GetLifecycleConfigurationAction, PutBucketLoggingAction,
    GetBucketLoggingAction, PutBucketRequestPaymentAction, GetBucketRequestPaymentAction,
    PutMetricsConfigurationAction, GetMetricsConfigurationAction,
    PutReplicationConfigurationAction, GetReplicationConfigurationAction,
    PutBucketPublicAccessBlockAction, GetBucketPublicAccessBlockAction,
    PutBucketNotificationAction, GetBucketNotificationAction, PutAccelerateConfigurationAction,
    GetAccelerateConfigurationAction, PutBucketWebsiteAction, GetBucketWebsiteAction,
    DeleteBucketWebsiteAction, GetBucketPolicyStatusAction, GetBucketLocationAction,
    AllActions]"

definition supportedObjectActionList :: "Action list" where
  "supportedObjectActionList =
   [AbortMultipartUploadAction, ListMultipartUploadPartsAction, PutObjectAction,
    GetObjectAction, GetObjectVersionAction, DeleteObjectAction, DeleteObjectVersionAction,
    GetObjectAclAction, GetObjectAttributesAction, GetObjectVersionAttributesAction,
    PutObjectAclAction, RestoreObjectAction, GetObjectTaggingAction,
    GetObjectVersionTaggingAction, PutObjectTaggingAction, PutObjectVersionTaggingAction,
    DeleteObjectTaggingAction, DeleteObjectVersionTaggingAction, GetObjectLegalHoldAction,
    PutObjectLegalHoldAction, GetObjectRetentionAction, PutObjectRetentionAction,
    BypassGovernanceRetentionAction, AllActions]"

section \<open>Validation and matching\<close>

text \<open>\<open>Match\<close>: the receiver is the concrete action, the argument the pattern.\<close>

definition Action_Match :: "Action \<Rightarrow> Action \<Rightarrow> bool" where
  "Action_Match a pattern = matchPattern pattern a"

definition policyErrInvalidAction :: string where
  "policyErrInvalidAction = ''Policy has invalid action''"

definition Action_IsValid :: "Action \<Rightarrow> string option" where
  "Action_IsValid a =
     (if \<not> HasPrefix a ''s3:'' then Some policyErrInvalidAction
      else if a = AllActions then None
      else if a \<in> set supportedActionList then None
      else if list_ex (\<lambda>action. Action_Match action a) supportedActionList then None
      else Some policyErrInvalidAction)"

text \<open>\<open>IsObjectAction\<close>: \<open>None\<close> is the nil pointer returned for \<open>s3:*\<close>.\<close>

definition IsObjectAction :: "Action \<Rightarrow> bool option" where
  "IsObjectAction a =
     (if a = AllActions then None
      else if a \<in> set supportedObjectActionList then Some True
      else Some (list_ex (\<lambda>action. Action_Match action a) supportedObjectActionList))"

text \<open>\<open>Actions\<close> is a set of actions; the list is one iteration order of the map.\<close>

definition Actions_FindMatch :: "Action list \<Rightarrow> Action \<Rightarrow> bool" where
  "Actions_FindMatch acts action =
     (if AllActions \<in> set acts then True
      else if action \<in> set acts then True
      else list_ex (\<lambda>act. Action_Match action act) acts)"

lemma Actions_FindMatch_iff:
  "Actions_FindMatch acts action \<longleftrightarrow>
     AllActions \<in> set acts \<or> (\<exists>act \<in> set acts. act = action \<or> matchPattern act action)"
  by (auto simp: Actions_FindMatch_def Action_Match_def list_ex_iff)

end
