(* ===== verification/S3_Errors.thy ===== *)
theory S3_Errors
  imports Go_Prelude
begin

text \<open>
  The errors the modelled components return (package s3err and the error values of package
  auth). An error is identified by what the code can observe of it: its code, the arguments it
  was built from, and whether \<open>errors.Is\<close> recognises it.
\<close>

text \<open>The error codes the modelled code names; \<open>ErrOther\<close> stands for every other code.\<close>

datatype s3_code =
    ErrAccessDenied
  | ErrMethodNotAllowed
  | ErrNoSuchKey
  | ErrMalformedXML
  | ErrInvalidRequest
  | ErrObjectLockConfigurationNotFound
  | ErrNoSuchObjectLockConfiguration
  | ErrObjectLocked
  | ErrNoSuchBucketPolicy
  | ErrMalformedACL
  | ErrCORSForbidden
  | ErrAdminUserNotFound
  | ErrAdminMethodNotSupported
  | ErrAdminInvalidUserRole
  | ErrNotModified
  | ErrInvalidPart
  | ErrInvalidTagKey
  | ErrInvalidTagValue
  | ErrDuplicateTagKey
  | ErrBucketTaggingLimited
  | ErrOther nat

text \<open>The argument codes of \<open>GetInvalidArgumentErr\<close> the modelled code names.\<close>

datatype invalid_arg =
    InvalidArgCopySourceEncoding
  | InvalidArgCopySourceBucket
  | InvalidArgCopySourceObject
  | InvalidArgCopySourceRange
  | InvalidArgURLEncodedTagging
  | InvalidArgObjectLockRetentionDays
  | InvalidArgObjectLockRetentionDaysTooLarge
  | InvalidArgObjectLockRetentionYears
  | InvalidArgObjectLockRetentionYearsTooLarge
  | InvalidArgPastObjectLockRetainDate
  | InvalidArgCannedAcl
  | InvalidArgUploadIdMarker

text \<open>
  \<^item> \<open>APIError c\<close>: \<open>s3err.GetAPIError(c)\<close>;
  \<^item> \<open>CodedError c args\<close>: an error type that embeds \<open>GetAPIError(c)\<close> with extra fields and
    whose \<open>Is\<close> method compares the embedded value (BucketError, MethodNotAllowedError,
    AccessForbiddenError, NoSuchVersionError and others);
  \<^item> \<open>ExplicitDeny principal action arn source\<close> and \<open>ImplicitDeny principal action arn\<close>:
    \<open>GetExplicitDenyAccessErr\<close> and \<open>GetImplicitDenyAccessErr\<close>;
  \<^item> \<open>MalformedPolicy msg\<close>: \<open>getMalformedPolicyError\<close>;
  \<^item> \<open>PolicyDocumentErr kind args\<close>: \<open>s3err.InvalidPolicyDocument.<kind>(args)\<close>, the errors of POST
    policy documents, and \<open>PolicyConditionErr c\<close>: its \<open>ConditionFailed\<close> for the condition \<open>c\<close>;
  \<^item> \<open>CORSErr kind arg\<close>: the errors of an invalid CORS configuration or request header;
  \<^item> \<open>InvalidRange header size\<close>, \<open>ExceedingRange size\<close>, \<open>PreconditionFailed condition\<close>,
    \<open>NotImplemented header message\<close>: the factories of the same names in s3err;
  \<^item> \<open>EntityTooLarge proposed allowed\<close>, \<open>EntityTooSmall proposed allowed\<close>;
  \<^item> \<open>ErrorString msg\<close>: a value of \<open>errors.New\<close> or \<open>fmt.Errorf\<close>;
  \<^item> \<open>Wrapped msg e\<close>: \<open>fmt.Errorf\<close> with \<open>%w\<close> around \<open>e\<close>;
  \<^item> \<open>NilPointer\<close>: not an error value but the panic of a nil pointer dereference, which ends the
    request.
\<close>

datatype go_error =
    APIError s3_code
  | CodedError s3_code "string list"
  | ExplicitDeny string string string string
  | ImplicitDeny string string string
  | InvalidArgument invalid_arg string
  | MalformedPolicy string
  | PolicyDocumentErr string "string list"
  | PolicyConditionErr json
  | CORSErr string string
  | InvalidRange string int
  | ExceedingRange int
  | PreconditionFailed string
  | NotImplemented string string
  | EntityTooLarge int int
  | EntityTooSmall int int
  | ErrorString string
  | Wrapped string go_error
  | NilPointer

text \<open>\<open>errors.Is(err, s3err.GetAPIError(c))\<close>.\<close>

fun errors_is :: "go_error \<Rightarrow> s3_code \<Rightarrow> bool" where
  "errors_is (APIError c') c = (c' = c)"
| "errors_is (CodedError c' _) c = (c' = c)"
| "errors_is (Wrapped _ e) c = errors_is e c"
| "errors_is _ c = False"

end
