(* ===== verification/Bucket_Policy.thy ===== *)
theory Bucket_Policy
  imports Condition_Eval Policy_Actions S3_Errors
begin

text \<open>
  Bucket policies (auth/bucket_policy*.go): decoding a policy document, validating it when it
  is put, and evaluating it for a request. The sets of principals, actions and resources are
  Go maps with empty values: a list is one iteration order of the map.
\<close>

section \<open>Decisions and errors\<close>

datatype policyDecision = policyDecisionNoMatch | policyDecisionAllow | policyDecisionDeny

definition policyErrResourceMismatch :: string where
  "policyErrResourceMismatch = ''Action does not apply to any resource(s) in statement''"
definition policyErrInvalidResource :: string where
  "policyErrInvalidResource = ''Policy has invalid resource''"
definition policyErrInvalidPrincipal :: string where
  "policyErrInvalidPrincipal = ''Invalid principal in policy''"
definition policyErrInvalidPolicy :: string where
  "policyErrInvalidPolicy = ''This policy contains invalid Json''"
definition policyErrInvalidFirstChar :: string where
  "policyErrInvalidFirstChar =
     ''Policies must be valid JSON and the first byte must be '' @ [CHR 0x27, CHR ''{'', CHR 0x27]"
definition policyErrEmptyStatement :: string where
  "policyErrEmptyStatement = ''Could not parse the policy: Statement is empty!''"
definition policyErrMissingStatmentField :: string where
  "policyErrMissingStatmentField = ''Missing required field Statement''"
definition policyErrInvalidVersion :: string where
  "policyErrInvalidVersion = ''The policy must contain a valid version string''"
definition policyErrInvalidConditionKey :: string where
  "policyErrInvalidConditionKey = ''Policy has an invalid condition key''"
definition policyErrConditionActionMismatch :: string where
  "policyErrConditionActionMismatch =
     ''Conditions do not apply to combination of actions and resources in statement''"
definition policyErrInvalidIPCondition :: string where
  "policyErrInvalidIPCondition = ''Invalid IP address in Conditions''"

lemmas policyErr_defs =
  policyErrResourceMismatch_def policyErrInvalidResource_def policyErrInvalidPrincipal_def
  policyErrInvalidPolicy_def policyErrInvalidFirstChar_def policyErrEmptyStatement_def
  policyErrMissingStatmentField_def policyErrInvalidVersion_def policyErrInvalidConditionKey_def
  policyErrConditionActionMismatch_def policyErrInvalidIPCondition_def policyErrInvalidAction_def

text \<open>
  What decoding reports: a \<open>policyErr\<close> of this package, or any other error of encoding/json.
  \<open>ParsePolicyDocument\<close> distinguishes exactly these two.
\<close>

datatype decode_err = PolicyErr string | JSONErr

text \<open>The text of the error; the texts of encoding/json are not modelled further.\<close>

fun decode_text :: "decode_err \<Rightarrow> string" where
  "decode_text (PolicyErr e) = e"
| "decode_text JSONErr = ''json error''"

section \<open>Policy documents\<close>

record BucketPolicyItem =
  Effect :: string
  Principals :: "string list"
  Actions :: "Action list"
  Resources :: "string list"
  Condition :: "json option"

record BucketPolicy =
  Version :: string
  Statement :: "BucketPolicyItem list"

type_synonym objectKeyNormalizer = "(string \<Rightarrow> string \<Rightarrow> string) option"

definition BucketPolicyAccessTypeDeny :: string where
  "BucketPolicyAccessTypeDeny = ''Deny''"
definition BucketPolicyAccessTypeAllow :: string where
  "BucketPolicyAccessTypeAllow = ''Allow''"

definition PolicyVersion2008 :: string where "PolicyVersion2008 = ''2008-10-17''"
definition PolicyVersion2012 :: string where "PolicyVersion2012 = ''2012-10-17''"


definition ResourceArnPrefix :: string where
  "ResourceArnPrefix = ''arn:aws:s3:::''"

subsection \<open>Decoding\<close>

text \<open>Inserting into a set kept as a list.\<close>

definition set_add :: "'a \<Rightarrow> 'a list \<Rightarrow> 'a list" where
  "set_add x xs = (if x \<in> set xs then xs else xs @ [x])"

text \<open>Values of the members named \<open>AWS\<close> of a principal object, in order.\<close>

definition aws_members :: "(string \<times> json) list \<Rightarrow> json list" where
  "aws_members ms = map snd (filter (\<lambda>(k, _). EqualFold k ''AWS'') ms)"

text \<open>Decoding the members into a field of type string: null leaves the field unchanged.\<close>

fun aws_string :: "string \<Rightarrow> json list \<Rightarrow> string option" where
  "aws_string cur [] = Some cur"
| "aws_string cur (JStr s # js) = aws_string s js"
| "aws_string cur (JNull # js) = aws_string cur js"
| "aws_string cur (j # js) = None"

text \<open>Decoding the members into a field of type \<open>[]string\<close>.\<close>

fun aws_list :: "string list \<Rightarrow> json list \<Rightarrow> string list option" where
  "aws_list cur [] = Some cur"
| "aws_list cur (j # js) = (case json_string_list j of None \<Rightarrow> None | Some ss \<Rightarrow> aws_list ss js)"

definition Principals_UnmarshalJSON :: "json \<Rightarrow> (decode_err, string list) result" where
  "Principals_UnmarshalJSON data =
     (case json_string_list data of
        Some ss \<Rightarrow>
          if ss = [] then Inl (PolicyErr policyErrInvalidPrincipal)
          else Inr (foldl (\<lambda>p s. set_add s p) [] ss)
      | None \<Rightarrow>
     (case json_string data of
        Some s \<Rightarrow>
          if s = [] then Inl (PolicyErr policyErrInvalidPrincipal) else Inr [s]
      | None \<Rightarrow>
     (case data of
        JObj ms \<Rightarrow>
          (case aws_string [] (aws_members ms) of
             Some s \<Rightarrow>
               if s = [] then Inl (PolicyErr policyErrInvalidPrincipal) else Inr [s]
           | None \<Rightarrow>
               (case aws_list [] (aws_members ms) of
                  Some ss \<Rightarrow>
                    if ss = [] then Inl (PolicyErr policyErrInvalidPrincipal)
                    else Inr (foldl (\<lambda>p s. set_add s p) [] ss)
                | None \<Rightarrow> Inl JSONErr))
      | _ \<Rightarrow> Inl JSONErr)))"

fun Actions_Add :: "Action list \<Rightarrow> string list \<Rightarrow> (decode_err, Action list) result" where
  "Actions_Add a [] = Inr a"
| "Actions_Add a (s # ss) =
     (case Action_IsValid s of
        Some e \<Rightarrow> Inl (PolicyErr e)
      | None \<Rightarrow> Actions_Add (set_add s a) ss)"

definition Actions_UnmarshalJSON :: "json \<Rightarrow> (decode_err, Action list) result" where
  "Actions_UnmarshalJSON data =
     (case json_string_list data of
        Some ss \<Rightarrow>
          if ss = [] then Inl (PolicyErr policyErrInvalidAction) else Actions_Add [] ss
      | None \<Rightarrow>
     (case json_string data of
        Some s \<Rightarrow>
          if s = [] then Inl (PolicyErr policyErrInvalidAction) else Actions_Add [] [s]
      | None \<Rightarrow> Inl JSONErr))"

text \<open>\<open>isValidResource\<close>: the pattern behind the ARN prefix, \<open>None\<close> when invalid.\<close>

definition isValidResource :: "string \<Rightarrow> string option" where
  "isValidResource rc =
     (if \<not> HasPrefix rc ResourceArnPrefix then None
      else let res = TrimPrefix rc ResourceArnPrefix
           in if res = [] then None
              else if HasPrefix res ''/'' then None
              else Some res)"

fun Resources_Add :: "string list \<Rightarrow> string list \<Rightarrow> (decode_err, string list) result" where
  "Resources_Add r [] = Inr r"
| "Resources_Add r (rc # rcs) =
     (case isValidResource rc of
        None \<Rightarrow> Inl (PolicyErr policyErrInvalidResource)
      | Some pattern \<Rightarrow> Resources_Add (set_add pattern r) rcs)"

definition Resources_UnmarshalJSON :: "json \<Rightarrow> (decode_err, string list) result" where
  "Resources_UnmarshalJSON data =
     (case json_string_list data of
        Some ss \<Rightarrow>
          if ss = [] then Inl (PolicyErr policyErrInvalidResource) else Resources_Add [] ss
      | None \<Rightarrow>
     (case json_string data of
        Some s \<Rightarrow>
          if s = [] then Inl (PolicyErr policyErrInvalidResource) else Resources_Add [] [s]
      | None \<Rightarrow> Inl JSONErr))"

definition empty_item :: BucketPolicyItem where
  "empty_item = \<lparr>Effect = [], Principals = [], Actions = [], Resources = [], Condition = None\<rparr>"

text \<open>
  Decoding the members of a statement into the struct. An error of a custom unmarshaller ends
  the decoding at once; a type error of a plain field is remembered (the flag) and reported at
  the end, where no unmarshaller failed. Of a member given twice the last one counts.
\<close>

fun item_fields ::
    "(string \<times> json) list \<Rightarrow> BucketPolicyItem \<times> bool \<Rightarrow> (decode_err, BucketPolicyItem \<times> bool) result"
where
  "item_fields [] st = Inr st"
| "item_fields ((k, v) # ms) (it, bad) =
     (if EqualFold k ''Effect'' then
        (case v of
           JStr s \<Rightarrow> item_fields ms (it\<lparr>Effect := s\<rparr>, bad)
         | JNull \<Rightarrow> item_fields ms (it, bad)
         | _ \<Rightarrow> item_fields ms (it, True))
      else if EqualFold k ''Principal'' then
        (case Principals_UnmarshalJSON v of
           Inl e \<Rightarrow> Inl e | Inr p \<Rightarrow> item_fields ms (it\<lparr>Principals := p\<rparr>, bad))
      else if EqualFold k ''Action'' then
        (case Actions_UnmarshalJSON v of
           Inl e \<Rightarrow> Inl e | Inr a \<Rightarrow> item_fields ms (it\<lparr>Actions := a\<rparr>, bad))
      else if EqualFold k ''Resource'' then
        (case Resources_UnmarshalJSON v of
           Inl e \<Rightarrow> Inl e | Inr r \<Rightarrow> item_fields ms (it\<lparr>Resources := r\<rparr>, bad))
      else if EqualFold k ''Condition'' then item_fields ms (it\<lparr>Condition := Some v\<rparr>, bad)
      else item_fields ms (it, bad))"

fun statement_items ::
    "json list \<Rightarrow> BucketPolicyItem list \<times> bool \<Rightarrow> (decode_err, BucketPolicyItem list \<times> bool) result"
where
  "statement_items [] st = Inr st"
| "statement_items (j # js) (its, bad) =
     (case j of
        JObj ms \<Rightarrow>
          (case item_fields ms (empty_item, bad) of
             Inl e \<Rightarrow> Inl e
           | Inr (it, bad') \<Rightarrow> statement_items js (its @ [it], bad'))
      | JNull \<Rightarrow> statement_items js (its @ [empty_item], bad)
      | _ \<Rightarrow> statement_items js (its @ [empty_item], True))"

text \<open>The temporary struct of \<open>BucketPolicy.UnmarshalJSON\<close>, with nil-able fields.\<close>

record policy_tmp =
  tmp_Version :: "string option"
  tmp_Statement :: "BucketPolicyItem list option"

fun policy_fields ::
    "(string \<times> json) list \<Rightarrow> policy_tmp \<times> bool \<Rightarrow> (decode_err, policy_tmp \<times> bool) result"
where
  "policy_fields [] st = Inr st"
| "policy_fields ((k, v) # ms) (tmp, bad) =
     (if EqualFold k ''Version'' then
        (case v of
           JStr s \<Rightarrow> policy_fields ms (tmp\<lparr>tmp_Version := Some s\<rparr>, bad)
         | JNull \<Rightarrow> policy_fields ms (tmp\<lparr>tmp_Version := None\<rparr>, bad)
         | _ \<Rightarrow> policy_fields ms (tmp, True))
      else if EqualFold k ''Statement'' then
        (case v of
           JArr js \<Rightarrow>
             (case statement_items js ([], bad) of
                Inl e \<Rightarrow> Inl e
              | Inr (its, bad') \<Rightarrow> policy_fields ms (tmp\<lparr>tmp_Statement := Some its\<rparr>, bad'))
         | JNull \<Rightarrow> policy_fields ms (tmp\<lparr>tmp_Statement := None\<rparr>, bad)
         | _ \<Rightarrow> policy_fields ms (tmp, True))
      else policy_fields ms (tmp, bad))"

definition BucketPolicy_UnmarshalJSON :: "json \<Rightarrow> (decode_err, BucketPolicy) result" where
  "BucketPolicy_UnmarshalJSON data =
     (let tmp0 = \<lparr>tmp_Version = None, tmp_Statement = None\<rparr>;
          r = (case data of
                 JObj ms \<Rightarrow> policy_fields ms (tmp0, False)
               | JNull \<Rightarrow> Inr (tmp0, False)
               | _ \<Rightarrow> Inl JSONErr)
      in case r of
           Inl e \<Rightarrow> Inl e
         | Inr (tmp, bad) \<Rightarrow>
             if bad then Inl JSONErr
             else case tmp_Statement tmp of
                 None \<Rightarrow> Inl (PolicyErr policyErrMissingStatmentField)
               | Some sts \<Rightarrow>
                   Inr \<lparr>Version =
                          (case tmp_Version tmp of None \<Rightarrow> PolicyVersion2008 | Some v \<Rightarrow> v),
                        Statement = sts\<rparr>)"

text \<open>\<open>json.Unmarshal(data, &policy)\<close> on bytes that may not be JSON at all.\<close>

definition unmarshal_policy :: "json_bytes \<Rightarrow> (decode_err, BucketPolicy) result" where
  "unmarshal_policy data =
     (case data of None \<Rightarrow> Inl JSONErr | Some j \<Rightarrow> BucketPolicy_UnmarshalJSON j)"

definition ParsePolicyDocument :: "json_bytes \<Rightarrow> (go_error, BucketPolicy) result" where
  "ParsePolicyDocument data =
     (case unmarshal_policy data of
        Inl (PolicyErr e) \<Rightarrow> Inl (MalformedPolicy e)
      | Inl JSONErr \<Rightarrow> Inl (MalformedPolicy policyErrInvalidPolicy)
      | Inr policy \<Rightarrow> Inr policy)"

section \<open>Validation\<close>

subsection \<open>Conditions\<close>

definition anyAction :: "Action \<Rightarrow> bool" where "anyAction a = True"

definition isListAction :: "Action \<Rightarrow> bool" where
  "isListAction a \<longleftrightarrow> a = ListBucketAction \<or> a = ListBucketVersionsAction"

definition isAclPutAction :: "Action \<Rightarrow> bool" where
  "isAclPutAction a \<longleftrightarrow> a \<in> {PutObjectAction, PutBucketAclAction, PutObjectAclAction}"

definition isObjectWriteAction :: "Action \<Rightarrow> bool" where
  "isObjectWriteAction a \<longleftrightarrow> a = PutObjectAction"

definition isVersionedAction :: "Action \<Rightarrow> bool" where
  "isVersionedAction a \<longleftrightarrow>
     a \<in> {GetObjectVersionAction, DeleteObjectVersionAction, GetObjectVersionAttributesAction,
          GetObjectVersionTaggingAction, PutObjectVersionTaggingAction,
          DeleteObjectVersionTaggingAction}"

record conditionKeyRule =
  appliesTo :: "Action \<Rightarrow> bool"
  ipSemantic :: bool

definition bucketPolicyConditionKeys :: "(string \<times> conditionKeyRule) list" where
  "bucketPolicyConditionKeys =
    [(''aws:sourceip'', \<lparr>appliesTo = anyAction, ipSemantic = True\<rparr>),
     (''aws:currenttime'', \<lparr>appliesTo = anyAction, ipSemantic = False\<rparr>),
     (''aws:epochtime'', \<lparr>appliesTo = anyAction, ipSemantic = False\<rparr>),
     (''aws:securetransport'', \<lparr>appliesTo = anyAction, ipSemantic = False\<rparr>),
     (''aws:useragent'', \<lparr>appliesTo = anyAction, ipSemantic = False\<rparr>),
     (''aws:referer'', \<lparr>appliesTo = anyAction, ipSemantic = False\<rparr>),
     (''aws:principalarn'', \<lparr>appliesTo = anyAction, ipSemantic = False\<rparr>),
     (''aws:username'', \<lparr>appliesTo = anyAction, ipSemantic = False\<rparr>),
     (''aws:userid'', \<lparr>appliesTo = anyAction, ipSemantic = False\<rparr>),
     (''aws:multifactorauthage'', \<lparr>appliesTo = anyAction, ipSemantic = False\<rparr>),
     (''s3:prefix'', \<lparr>appliesTo = isListAction, ipSemantic = False\<rparr>),
     (''s3:delimiter'', \<lparr>appliesTo = isListAction, ipSemantic = False\<rparr>),
     (''s3:max-keys'', \<lparr>appliesTo = isListAction, ipSemantic = False\<rparr>),
     (''s3:x-amz-acl'', \<lparr>appliesTo = isAclPutAction, ipSemantic = False\<rparr>),
     (''s3:versionid'', \<lparr>appliesTo = isVersionedAction, ipSemantic = False\<rparr>),
     (''s3:x-amz-server-side-encryption'',
        \<lparr>appliesTo = isObjectWriteAction, ipSemantic = False\<rparr>),
     (''s3:x-amz-server-side-encryption-aws-kms-key-id'',
        \<lparr>appliesTo = isObjectWriteAction, ipSemantic = False\<rparr>),
     (''s3:x-amz-server-side-encryption-customer-algorithm'',
        \<lparr>appliesTo = isObjectWriteAction, ipSemantic = False\<rparr>)]"

definition lookupConditionKeyRule :: "string \<Rightarrow> conditionKeyRule option" where
  "lookupConditionKeyRule key = map_of bucketPolicyConditionKeys (ToLower key)"

text \<open>The first unrecognised operator of an object, in iteration order.\<close>

definition unrecognizedConditionOperator :: "json option \<Rightarrow> string option" where
  "unrecognizedConditionOperator raw =
     (case raw of
        Some (JObj ms) \<Rightarrow>
          find (\<lambda>operator. ParseOperatorName operator = None) (map fst (json_map_entries ms))
      | _ \<Rightarrow> None)"

definition concreteActions :: "Action list \<Rightarrow> Action list" where
  "concreteActions acts = filter (\<lambda>a. CHR ''*'' \<notin> set a \<and> CHR ''?'' \<notin> set a) acts"

definition validate_condition_key :: "cond_host \<Rightarrow> Action list \<Rightarrow> string \<times> Values \<Rightarrow> string option" where
  "validate_condition_key h concrete kv =
     (case lookupConditionKeyRule (fst kv) of
        None \<Rightarrow> Some policyErrInvalidConditionKey
      | Some rule \<Rightarrow>
          if \<not> list_all (appliesTo rule) concrete then Some policyErrConditionActionMismatch
          else if ipSemantic rule \<and> \<not> list_all (ParseIPOrCIDR h) (snd kv)
            then Some policyErrInvalidIPCondition
          else None)"

definition validateBucketPolicyCondition ::
    "cond_host \<Rightarrow> json option \<Rightarrow> Action list \<Rightarrow> string option" where
  "validateBucketPolicyCondition h raw acts =
     (case Parse raw of
        None \<Rightarrow>
          (case unrecognizedConditionOperator raw of
             Some op \<Rightarrow> Some (''Invalid Condition type : '' @ op)
           | None \<Rightarrow> Some policyErrInvalidPolicy)
      | Some block \<Rightarrow>
          first_err (\<lambda>(operator, kvs).
            first_err (validate_condition_key h (concreteActions acts)) kvs) block)"

subsection \<open>Statements\<close>

definition BucketPolicyAccessType_Validate :: "string \<Rightarrow> string option" where
  "BucketPolicyAccessType_Validate bpat =
     (if bpat = BucketPolicyAccessTypeAllow \<or> bpat = BucketPolicyAccessTypeDeny then None
      else Some (''Invalid effect: '' @ bpat))"

definition Principals_ToSlice :: "string list \<Rightarrow> string list" where
  "Principals_ToSlice p = filter (\<lambda>x. x \<noteq> ''*'') p"

text \<open>
  \<open>ResolveAccounts\<close> of the IAM service returns the access keys that do not exist. An error of
  the validation is its text, which is all \<open>getMalformedPolicyError\<close> uses of it.
\<close>

type_synonym resolve_accounts = "string list \<Rightarrow> (string, string list) result"

definition Principals_Validate :: "string list \<Rightarrow> resolve_accounts \<Rightarrow> string option" where
  "Principals_Validate p resolveAccounts =
     (if ''*'' \<in> set p then
        (if length p = 1 then None else Some policyErrInvalidPrincipal)
      else case resolveAccounts (Principals_ToSlice p) of
          Inl e \<Rightarrow> Some e
        | Inr accs \<Rightarrow>
            if accs \<noteq> [] then Some policyErrInvalidPrincipal else None)"

definition ContainsObjectPattern :: "string list \<Rightarrow> bool" where
  "ContainsObjectPattern r = list_ex (\<lambda>resource. resource = ''*'' \<or> Contains resource ''/'') r"

definition ContainsBucketPattern :: "string list \<Rightarrow> bool" where
  "ContainsBucketPattern r = list_ex (\<lambda>resource. resource = ''*'' \<or> \<not> Contains resource ''/'') r"

definition Resources_Validate :: "string list \<Rightarrow> string \<Rightarrow> string option" where
  "Resources_Validate r bucket =
     (if list_all (\<lambda>resource. HasPrefix resource bucket) r then None
      else Some policyErrInvalidResource)"

text \<open>The loop over the actions: \<open>s3:*\<close> ends the loop, it does not skip the entry.\<close>

fun validate_action_types :: "bool \<Rightarrow> bool \<Rightarrow> Action list \<Rightarrow> string option" where
  "validate_action_types containsObjectAction containsBucketAction [] = None"
| "validate_action_types containsObjectAction containsBucketAction (action # acts) =
     (case IsObjectAction action of
        None \<Rightarrow> None
      | Some isObjectAction \<Rightarrow>
          if isObjectAction \<and> \<not> containsObjectAction then Some policyErrResourceMismatch
          else if \<not> isObjectAction \<and> \<not> containsBucketAction then Some policyErrResourceMismatch
          else validate_action_types containsObjectAction containsBucketAction acts)"

definition BucketPolicyItem_Validate ::
    "cond_host \<Rightarrow> BucketPolicyItem \<Rightarrow> string \<Rightarrow> resolve_accounts \<Rightarrow> string option" where
  "BucketPolicyItem_Validate h bpi bucket iam =
     (case BucketPolicyAccessType_Validate (Effect bpi) of Some e \<Rightarrow> Some e
      | None \<Rightarrow>
     (case Principals_Validate (Principals bpi) iam of Some e \<Rightarrow> Some e
      | None \<Rightarrow>
     (case Resources_Validate (Resources bpi) bucket of Some e \<Rightarrow> Some e
      | None \<Rightarrow>
     (case validateBucketPolicyCondition h (Condition bpi) (Actions bpi) of
        Some e \<Rightarrow> Some e
      | None \<Rightarrow>
          validate_action_types (ContainsObjectPattern (Resources bpi))
            (ContainsBucketPattern (Resources bpi)) (Actions bpi)))))"



section \<open>Evaluation\<close>

definition normalizePolicyObjectKey :: "string \<Rightarrow> string \<Rightarrow> objectKeyNormalizer \<Rightarrow> string" where
  "normalizePolicyObjectKey bucket key normalizeObjectKey =
     (if key = [] then key
      else case normalizeObjectKey of None \<Rightarrow> key | Some f \<Rightarrow> f bucket key)"

definition makePolicyResource :: "string \<Rightarrow> string \<Rightarrow> objectKeyNormalizer \<Rightarrow> string" where
  "makePolicyResource bucket object normalizeObjectKey =
     (if object = [] then bucket
      else bucket @ ''/'' @ normalizePolicyObjectKey bucket object normalizeObjectKey)"

definition normalizePolicyResource :: "string \<Rightarrow> objectKeyNormalizer \<Rightarrow> string" where
  "normalizePolicyResource resource normalizeObjectKey =
     (case Cut resource ''/'' of
        None \<Rightarrow> resource
      | Some (bucket, key) \<Rightarrow>
          bucket @ ''/'' @ normalizePolicyObjectKey bucket key normalizeObjectKey)"

definition Resources_Match :: "string \<Rightarrow> string \<Rightarrow> objectKeyNormalizer \<Rightarrow> bool" where
  "Resources_Match pattern input normalizer =
     matchPattern (normalizePolicyResource pattern normalizer) input"

definition Resources_FindMatch :: "string list \<Rightarrow> string \<Rightarrow> objectKeyNormalizer \<Rightarrow> bool" where
  "Resources_FindMatch r resource normalizer =
     list_ex (\<lambda>res. Resources_Match res resource normalizer) r"

definition Principals_Contains :: "string list \<Rightarrow> string \<Rightarrow> bool" where
  "Principals_Contains p userAccess =
     (if ''*'' \<in> set p then True else userAccess \<in> set p)"

definition Principals_isPublic :: "string list \<Rightarrow> bool" where
  "Principals_isPublic p \<longleftrightarrow> ''*'' \<in> set p"

text \<open>\<open>findMatch\<close> and \<open>isPublicFor\<close>: the pair (matched, evaluable).\<close>

definition findMatch ::
    "cond_host \<Rightarrow> BucketPolicyItem \<Rightarrow> string \<Rightarrow> Action \<Rightarrow> string \<Rightarrow> ctx_vars \<Rightarrow> string
      \<Rightarrow> objectKeyNormalizer \<Rightarrow> bool \<times> bool" where
  "findMatch h bpi access action resource condCtx version normalizeObjectKey =
     (if \<not> (Principals_Contains (Principals bpi) access
            \<and> Actions_FindMatch (Actions bpi) action
            \<and> Resources_FindMatch (Resources bpi) resource normalizeObjectKey)
      then (False, True)
      else Evaluate h (Condition bpi) condCtx version)"

definition isPublicFor ::
    "cond_host \<Rightarrow> BucketPolicyItem \<Rightarrow> string \<Rightarrow> Action \<Rightarrow> ctx_vars \<Rightarrow> string
      \<Rightarrow> objectKeyNormalizer \<Rightarrow> bool \<times> bool" where
  "isPublicFor h bpi resource action condCtx version normalizeObjectKey =
     (if \<not> (Principals_isPublic (Principals bpi)
            \<and> Actions_FindMatch (Actions bpi) action
            \<and> Resources_FindMatch (Resources bpi) resource normalizeObjectKey)
      then (False, True)
      else Evaluate h (Condition bpi) condCtx version)"

text \<open>The loop over the statements of \<open>decisionFor\<close>, with its flag \<open>isAllowed\<close>.\<close>

fun decision_loop ::
    "cond_host \<Rightarrow> BucketPolicyItem list \<Rightarrow> bool \<Rightarrow> string \<Rightarrow> Action \<Rightarrow> string \<Rightarrow> ctx_vars \<Rightarrow> string
      \<Rightarrow> objectKeyNormalizer \<Rightarrow> policyDecision" where
  "decision_loop h [] isAllowed access action resource condCtx version nrm =
     (if isAllowed then policyDecisionAllow else policyDecisionNoMatch)"
| "decision_loop h (statement # sts) isAllowed access action resource condCtx version nrm =
     (let (matched, evaluable) = findMatch h statement access action resource condCtx version nrm
      in if \<not> evaluable then policyDecisionDeny
         else if \<not> matched then
           decision_loop h sts isAllowed access action resource condCtx version nrm
         else if Effect statement = BucketPolicyAccessTypeAllow then
           decision_loop h sts True access action resource condCtx version nrm
         else if Effect statement = BucketPolicyAccessTypeDeny then policyDecisionDeny
         else decision_loop h sts isAllowed access action resource condCtx version nrm)"

definition decisionFor ::
    "cond_host \<Rightarrow> BucketPolicy \<Rightarrow> string \<Rightarrow> Action \<Rightarrow> string \<Rightarrow> ctx_vars \<Rightarrow> objectKeyNormalizer
      \<Rightarrow> policyDecision" where
  "decisionFor h bp access action resource condCtx nrm =
     decision_loop h (Statement bp) False access action resource condCtx (Version bp) nrm"

fun public_loop ::
    "cond_host \<Rightarrow> BucketPolicyItem list \<Rightarrow> bool \<Rightarrow> string \<Rightarrow> Action \<Rightarrow> ctx_vars \<Rightarrow> string
      \<Rightarrow> objectKeyNormalizer \<Rightarrow> policyDecision" where
  "public_loop h [] isAllowed resource action condCtx version nrm =
     (if isAllowed then policyDecisionAllow else policyDecisionNoMatch)"
| "public_loop h (statement # sts) isAllowed resource action condCtx version nrm =
     (let (matched, evaluable) = isPublicFor h statement resource action condCtx version nrm
      in if \<not> evaluable then policyDecisionDeny
         else if \<not> matched then public_loop h sts isAllowed resource action condCtx version nrm
         else if Effect statement = BucketPolicyAccessTypeAllow then
           public_loop h sts True resource action condCtx version nrm
         else if Effect statement = BucketPolicyAccessTypeDeny then policyDecisionDeny
         else public_loop h sts isAllowed resource action condCtx version nrm)"

definition publicDecisionFor ::
    "cond_host \<Rightarrow> BucketPolicy \<Rightarrow> string \<Rightarrow> Action \<Rightarrow> ctx_vars \<Rightarrow> objectKeyNormalizer
      \<Rightarrow> policyDecision" where
  "publicDecisionFor h bp resource action condCtx nrm =
     public_loop h (Statement bp) False resource action condCtx (Version bp) nrm"

definition BucketPolicy_IsPublic :: "BucketPolicy \<Rightarrow> bool" where
  "BucketPolicy_IsPublic bp = list_ex (\<lambda>statement. Principals_isPublic (Principals statement)) (Statement bp)"

text \<open>The loop over the actions of \<open>verifyBucketPolicy\<close>, with its result and blamed action.\<close>

fun verify_actions ::
    "(Action \<Rightarrow> policyDecision) \<Rightarrow> policyDecision \<Rightarrow> Action \<Rightarrow> Action list \<Rightarrow> policyDecision \<times> Action" where
  "verify_actions decide res blamed [] = (res, blamed)"
| "verify_actions decide res blamed (action # acts) =
     (case decide action of
        policyDecisionDeny \<Rightarrow> (policyDecisionDeny, action)
      | policyDecisionNoMatch \<Rightarrow>
          if res \<noteq> policyDecisionNoMatch then verify_actions decide policyDecisionNoMatch action acts
          else verify_actions decide res blamed acts
      | policyDecisionAllow \<Rightarrow> verify_actions decide res blamed acts)"

definition verifyBucketPolicy ::
    "cond_host \<Rightarrow> json_bytes \<Rightarrow> string \<Rightarrow> string \<Rightarrow> string \<Rightarrow> ctx_vars \<Rightarrow> objectKeyNormalizer
      \<Rightarrow> Action list \<Rightarrow> (go_error, policyDecision \<times> Action) result" where
  "verifyBucketPolicy h policyBytes access bucket object condCtx nrm acts =
     (if acts = [] then Inr (policyDecisionNoMatch, [])
      else case unmarshal_policy policyBytes of
          Inl e \<Rightarrow> Inl (ErrorString (''failed to parse the bucket policy: '' @ decode_text e))
        | Inr bp \<Rightarrow>
            let resource = makePolicyResource bucket object nrm
            in Inr (verify_actions (\<lambda>action. decisionFor h bp access action resource condCtx nrm)
                      policyDecisionAllow [] acts))"

definition errAccessDenied :: go_error where "errAccessDenied = ErrorString ''access denied''"
definition errExplicitDeny :: go_error where "errExplicitDeny = ErrorString ''explicit deny''"

definition VerifyPublicBucketPolicy ::
    "cond_host \<Rightarrow> json_bytes \<Rightarrow> string \<Rightarrow> string \<Rightarrow> ctx_vars \<Rightarrow> objectKeyNormalizer \<Rightarrow> Action
      \<Rightarrow> go_error option" where
  "VerifyPublicBucketPolicy h policy bucket object condCtx nrm action =
     (case unmarshal_policy policy of
        Inl e \<Rightarrow> Some (ErrorString (decode_text e))
      | Inr bp \<Rightarrow>
          (case publicDecisionFor h bp (makePolicyResource bucket object nrm) action condCtx nrm of
             policyDecisionAllow \<Rightarrow> None
           | policyDecisionDeny \<Rightarrow> Some errExplicitDeny
           | policyDecisionNoMatch \<Rightarrow> Some errAccessDenied))"

section \<open>Statement loops\<close>

text \<open>
  What a loop over statements promises: a statement whose condition cannot be evaluated, or a
  matching Deny, decides; else a matching Allow; else nothing matched.
\<close>

definition denies :: "(BucketPolicyItem \<Rightarrow> bool \<times> bool) \<Rightarrow> BucketPolicyItem \<Rightarrow> bool" where
  "denies m st \<longleftrightarrow> \<not> snd (m st) \<or> fst (m st) \<and> Effect st = BucketPolicyAccessTypeDeny"

definition allows :: "(BucketPolicyItem \<Rightarrow> bool \<times> bool) \<Rightarrow> BucketPolicyItem \<Rightarrow> bool" where
  "allows m st \<longleftrightarrow> snd (m st) \<and> fst (m st) \<and> Effect st = BucketPolicyAccessTypeAllow"

definition policy_spec :: "(BucketPolicyItem \<Rightarrow> bool \<times> bool) \<Rightarrow> BucketPolicyItem set \<Rightarrow> policyDecision" where
  "policy_spec m sts =
     (if \<exists>st \<in> sts. denies m st then policyDecisionDeny
      else if \<exists>st \<in> sts. allows m st then policyDecisionAllow
      else policyDecisionNoMatch)"

lemma effects_differ [simp]:
  "BucketPolicyAccessTypeAllow \<noteq> BucketPolicyAccessTypeDeny"
  "BucketPolicyAccessTypeDeny \<noteq> BucketPolicyAccessTypeAllow"
  by (simp_all add: BucketPolicyAccessTypeAllow_def BucketPolicyAccessTypeDeny_def)

locale statement_loop =
  fixes m :: "BucketPolicyItem \<Rightarrow> bool \<times> bool"
    and loop :: "BucketPolicyItem list \<Rightarrow> bool \<Rightarrow> policyDecision"
  assumes loop_Nil: "loop [] isAllowed = (if isAllowed then policyDecisionAllow else policyDecisionNoMatch)"
    and loop_Cons: "loop (st # sts) isAllowed =
      (let (matched, evaluable) = m st
       in if \<not> evaluable then policyDecisionDeny
          else if \<not> matched then loop sts isAllowed
          else if Effect st = BucketPolicyAccessTypeAllow then loop sts True
          else if Effect st = BucketPolicyAccessTypeDeny then policyDecisionDeny
          else loop sts isAllowed)"
begin

lemma loop_step:
  "loop (st # sts) isAllowed =
     (if denies m st then policyDecisionDeny else loop sts (isAllowed \<or> allows m st))"
  by (cases "m st") (auto simp: loop_Cons denies_def allows_def)

lemma loop_acc:
  "loop sts isAllowed =
     (if \<exists>st \<in> set sts. denies m st then policyDecisionDeny
      else if isAllowed \<or> (\<exists>st \<in> set sts. allows m st) then policyDecisionAllow
      else policyDecisionNoMatch)"
  by (induction sts arbitrary: isAllowed) (auto simp: loop_Nil loop_step)

lemma loop_eq_spec: "loop sts False = policy_spec m (set sts)"
  by (simp add: loop_acc policy_spec_def)

end

interpretation dl: statement_loop
  "\<lambda>st. findMatch h st access action resource condCtx version nrm"
  "\<lambda>sts isAllowed. decision_loop h sts isAllowed access action resource condCtx version nrm"
  for h access action resource condCtx version nrm
  by unfold_locales simp_all

interpretation pl: statement_loop
  "\<lambda>st. isPublicFor h st resource action condCtx version nrm"
  "\<lambda>sts isAllowed. public_loop h sts isAllowed resource action condCtx version nrm"
  for h resource action condCtx version nrm
  by unfold_locales simp_all

lemma decisionFor_spec:
  "decisionFor h bp access action resource condCtx nrm =
     policy_spec (\<lambda>st. findMatch h st access action resource condCtx (Version bp) nrm)
       (set (Statement bp))"
  by (simp add: decisionFor_def dl.loop_eq_spec)

lemma publicDecisionFor_spec:
  "publicDecisionFor h bp resource action condCtx nrm =
     policy_spec (\<lambda>st. isPublicFor h st resource action condCtx (Version bp) nrm)
       (set (Statement bp))"
  by (simp add: publicDecisionFor_def pl.loop_eq_spec)

lemma policy_spec_Deny: "policy_spec m sts = policyDecisionDeny \<longleftrightarrow> (\<exists>st \<in> sts. denies m st)"
  by (simp add: policy_spec_def)

lemma policy_spec_Allow:
  "policy_spec m sts = policyDecisionAllow \<longleftrightarrow>
     (\<exists>st \<in> sts. allows m st) \<and> \<not> (\<exists>st \<in> sts. denies m st)"
  by (simp add: policy_spec_def)

text \<open>A public statement matches every principal.\<close>

lemma public_findMatch:
  assumes "Principals_isPublic (Principals st)"
  shows "findMatch h st access action resource condCtx version nrm =
    isPublicFor h st resource action condCtx version nrm"
  using assms
  by (simp add: findMatch_def isPublicFor_def Principals_isPublic_def Principals_Contains_def)

lemma not_public_isPublicFor:
  "\<not> Principals_isPublic (Principals st) \<Longrightarrow>
    isPublicFor h st resource action condCtx version nrm = (False, True)"
  by (simp add: isPublicFor_def)

section \<open>Action loop\<close>

lemma verify_actions_Deny:
  "fst (verify_actions decide res blamed acts) = policyDecisionDeny \<longleftrightarrow>
     (\<exists>a \<in> set acts. decide a = policyDecisionDeny)"
  if "res \<noteq> policyDecisionDeny"
  using that
proof (induction acts arbitrary: res blamed)
  case (Cons a acts)
  then show ?case by (cases "decide a") auto
qed auto

lemma verify_actions_no_deny:
  assumes "\<forall>a \<in> set acts. decide a \<noteq> policyDecisionDeny" "res \<noteq> policyDecisionDeny"
  shows "verify_actions decide res blamed acts =
    (if res = policyDecisionNoMatch then (res, blamed)
     else case find (\<lambda>a. decide a = policyDecisionNoMatch) acts of
         None \<Rightarrow> (res, blamed) | Some a \<Rightarrow> (policyDecisionNoMatch, a))"
  using assms
proof (induction acts arbitrary: res blamed)
  case (Cons a acts)
  then show ?case by (cases "decide a") auto
qed simp

lemma verify_actions_deny:
  assumes "\<exists>a \<in> set acts. decide a = policyDecisionDeny"
  shows "verify_actions decide res blamed acts =
    (policyDecisionDeny, the (find (\<lambda>a. decide a = policyDecisionDeny) acts))"
  using assms
proof (induction acts arbitrary: res blamed)
  case (Cons a acts)
  then show ?case by (cases "decide a") auto
qed simp

section \<open>Well-formedness of decoded documents\<close>

definition valid_pattern :: "string \<Rightarrow> bool" where
  "valid_pattern r \<longleftrightarrow> r \<noteq> [] \<and> hd r \<noteq> CHR ''/''"

definition item_wf :: "BucketPolicyItem \<Rightarrow> bool" where
  "item_wf it \<longleftrightarrow> distinct (Principals it) \<and> distinct (Actions it) \<and> distinct (Resources it)
     \<and> list_all (\<lambda>a. Action_IsValid a = None) (Actions it)
     \<and> list_all valid_pattern (Resources it)"

lemma distinct_set_add [simp]: "distinct (set_add x xs) \<longleftrightarrow> distinct xs"
  by (simp add: set_add_def)

lemma list_all_set_add [simp]: "list_all P (set_add x xs) \<longleftrightarrow> P x \<and> list_all P xs"
  by (auto simp: set_add_def list_all_iff)

lemma set_set_add [simp]: "set (set_add x xs) = insert x (set xs)"
  by (auto simp: set_add_def)

lemma distinct_fold_add: "distinct xs \<Longrightarrow> distinct (foldl (\<lambda>p s. set_add s p) xs ss)"
  by (induction ss arbitrary: xs) simp_all

lemma Principals_UnmarshalJSON_distinct:
  "Principals_UnmarshalJSON data = Inr p \<Longrightarrow> distinct p"
  by (auto simp: Principals_UnmarshalJSON_def distinct_fold_add split: option.splits json.splits if_splits)

lemma Actions_Add_wf:
  "Actions_Add a ss = Inr a' \<Longrightarrow> distinct a \<Longrightarrow> list_all (\<lambda>a. Action_IsValid a = None) a
    \<Longrightarrow> distinct a' \<and> list_all (\<lambda>a. Action_IsValid a = None) a'"
  by (induction a ss rule: Actions_Add.induct) (auto split: option.splits)

lemma Actions_UnmarshalJSON_wf:
  "Actions_UnmarshalJSON data = Inr a \<Longrightarrow> distinct a \<and> list_all (\<lambda>a. Action_IsValid a = None) a"
  unfolding Actions_UnmarshalJSON_def
  by (auto split: option.splits if_splits dest: Actions_Add_wf simp del: Actions_Add.simps)

lemma isValidResource_pattern: "isValidResource rc = Some r \<Longrightarrow> valid_pattern r"
  by (cases r) (auto simp: isValidResource_def valid_pattern_def Let_def split: if_splits)

lemma Resources_Add_wf:
  "Resources_Add r ss = Inr r' \<Longrightarrow> distinct r \<Longrightarrow> list_all valid_pattern r
    \<Longrightarrow> distinct r' \<and> list_all valid_pattern r'"
  by (induction r ss rule: Resources_Add.induct) (auto split: option.splits dest: isValidResource_pattern)

lemma Resources_UnmarshalJSON_wf:
  "Resources_UnmarshalJSON data = Inr r \<Longrightarrow> distinct r \<and> list_all valid_pattern r"
  unfolding Resources_UnmarshalJSON_def
  by (auto split: option.splits if_splits dest: Resources_Add_wf simp del: Resources_Add.simps)

lemma item_wf_empty [simp]: "item_wf empty_item"
  by (simp add: item_wf_def empty_item_def)

lemma item_wf_updates:
  assumes "item_wf it"
  shows "item_wf (it\<lparr>Effect := e\<rparr>)" "item_wf (it\<lparr>Condition := c\<rparr>)"
    "Principals_UnmarshalJSON v = Inr p \<Longrightarrow> item_wf (it\<lparr>Principals := p\<rparr>)"
    "Actions_UnmarshalJSON v = Inr a \<Longrightarrow> item_wf (it\<lparr>Actions := a\<rparr>)"
    "Resources_UnmarshalJSON v = Inr r \<Longrightarrow> item_wf (it\<lparr>Resources := r\<rparr>)"
  using assms Principals_UnmarshalJSON_distinct Actions_UnmarshalJSON_wf Resources_UnmarshalJSON_wf
  by (auto simp: item_wf_def)

lemma item_fields_wf:
  "item_fields ms (it, bad) = Inr (it', bad') \<Longrightarrow> item_wf it \<Longrightarrow> item_wf it'"
proof (induction ms arbitrary: it bad)
  case (Cons kv ms)
  obtain k v where kv: "kv = (k, v)" by (cases kv)
  from Cons.prems(1) obtain it1 bad1 where step: "item_fields ms (it1, bad1) = Inr (it', bad')"
    and "it1 = it \<or> (\<exists>e. it1 = it\<lparr>Effect := e\<rparr>) \<or> (\<exists>c. it1 = it\<lparr>Condition := c\<rparr>)
      \<or> (\<exists>p. Principals_UnmarshalJSON v = Inr p \<and> it1 = it\<lparr>Principals := p\<rparr>)
      \<or> (\<exists>a. Actions_UnmarshalJSON v = Inr a \<and> it1 = it\<lparr>Actions := a\<rparr>)
      \<or> (\<exists>r. Resources_UnmarshalJSON v = Inr r \<and> it1 = it\<lparr>Resources := r\<rparr>)"
    unfolding kv item_fields.simps by (fastforce split: if_splits json.splits sum.splits)
  with Cons.prems(2) have "item_wf it1" by (auto intro: item_wf_updates)
  with Cons.IH step show ?case by blast
qed simp

lemma statement_items_wf:
  "statement_items js (its, bad) = Inr (its', bad') \<Longrightarrow> list_all item_wf its \<Longrightarrow> list_all item_wf its'"
proof (induction js arbitrary: its bad)
  case (Cons j js)
  then show ?case
    by (cases j) (auto split: sum.splits prod.splits dest: item_fields_wf)
qed simp

lemma policy_fields_wf:
  "policy_fields ms (tmp, bad) = Inr (tmp', bad') \<Longrightarrow>
    pred_option (list_all item_wf) (tmp_Statement tmp) \<Longrightarrow>
    pred_option (list_all item_wf) (tmp_Statement tmp')"
proof (induction ms arbitrary: tmp bad)
  case (Cons kv ms)
  obtain k v where kv: "kv = (k, v)" by (cases kv)
  from Cons.prems(1) obtain tmp1 bad1 where step: "policy_fields ms (tmp1, bad1) = Inr (tmp', bad')"
    and "tmp_Statement tmp1 = tmp_Statement tmp \<or> tmp_Statement tmp1 = None
      \<or> (\<exists>js b its. statement_items js ([], bad) = Inr (its, b) \<and> tmp_Statement tmp1 = Some its)"
    unfolding kv policy_fields.simps by (fastforce split: if_splits json.splits sum.splits)
  with Cons.prems(2) have "pred_option (list_all item_wf) (tmp_Statement tmp1)"
    by (auto dest: statement_items_wf)
  with Cons.IH step show ?case by blast
qed simp

lemma unmarshal_policy_wf:
  assumes "unmarshal_policy data = Inr bp"
  shows "list_all item_wf (Statement bp)"
proof -
  from assms obtain j where "BucketPolicy_UnmarshalJSON j = Inr bp"
    by (auto simp: unmarshal_policy_def split: option.splits)
  then obtain ms tmp where
    "policy_fields ms (\<lparr>tmp_Version = None, tmp_Statement = None\<rparr>, False) = Inr (tmp, False)"
    "tmp_Statement tmp = Some (Statement bp)"
    by (auto simp: BucketPolicy_UnmarshalJSON_def Let_def split: json.splits sum.splits prod.splits
        if_splits option.splits)
  with policy_fields_wf [of ms "\<lparr>tmp_Version = None, tmp_Statement = None\<rparr>" False tmp False]
  show ?thesis by simp
qed

text \<open>What aggregating over several actions promises.\<close>

definition aggregate_spec :: "(Action \<Rightarrow> policyDecision) \<Rightarrow> Action list \<Rightarrow> policyDecision \<times> Action" where
  "aggregate_spec d acts =
     (case find (\<lambda>a. d a = policyDecisionDeny) acts of
        Some a \<Rightarrow> (policyDecisionDeny, a)
      | None \<Rightarrow>
          (case find (\<lambda>a. d a = policyDecisionNoMatch) acts of
             Some a \<Rightarrow> (policyDecisionNoMatch, a)
           | None \<Rightarrow> (policyDecisionAllow, [])))"

lemma verify_actions_spec: "verify_actions d policyDecisionAllow [] acts = aggregate_spec d acts"
proof (cases "find (\<lambda>a. d a = policyDecisionDeny) acts")
  case None
  then have "\<forall>a \<in> set acts. d a \<noteq> policyDecisionDeny" by (simp add: find_None)
  from verify_actions_no_deny [OF this, of policyDecisionAllow "[]"] None show ?thesis
    by (simp add: aggregate_spec_def split: option.splits)
next
  case (Some a)
  then have "\<exists>a \<in> set acts. d a = policyDecisionDeny" by (auto dest: find_Some_mem)
  from verify_actions_deny [OF this] Some show ?thesis by (simp add: aggregate_spec_def)
qed

section \<open>Confinement to the bucket\<close>

lemma prefix_before_slash:
  assumes "CHR ''/'' \<notin> set bucket" "prefix bucket (b @ ''/'' @ k)"
  shows "prefix bucket b"
proof -
  have "prefix b (b @ ''/'' @ k)" by simp
  with assms(2) consider "prefix bucket b" | y where "bucket = b @ y"
    using prefix_same_cases prefixE by metis
  then show ?thesis
  proof cases
    case 2
    with assms show ?thesis by (cases y) auto
  qed
qed

lemma normalizePolicyResource_prefix:
  assumes "CHR ''/'' \<notin> set bucket" "prefix bucket resource"
  shows "prefix bucket (normalizePolicyResource resource nrm)"
proof (cases "Cut resource ''/''")
  case None
  with assms show ?thesis by (simp add: normalizePolicyResource_def)
next
  case (Some bk)
  obtain b k where "bk = (b, k)" by (cases bk)
  with Some assms have "prefix bucket b"
    using prefix_before_slash [of bucket b k] Cut_Some [of resource "''/''" b k] by simp
  with Some \<open>bk = (b, k)\<close> show ?thesis by (simp add: normalizePolicyResource_def)
qed

definition plain_bucket :: "string \<Rightarrow> bool" where
  "plain_bucket b \<longleftrightarrow> CHR ''*'' \<notin> set b \<and> CHR ''?'' \<notin> set b \<and> CHR ''/'' \<notin> set b"

lemma Resources_FindMatch_prefix:
  assumes "plain_bucket bucket" "Resources_Validate r bucket = None"
    and "Resources_FindMatch r resource nrm"
  shows "prefix bucket resource"
proof -
  from assms(3) obtain res where res: "res \<in> set r"
      "matchPattern (normalizePolicyResource res nrm) resource"
    by (auto simp: Resources_FindMatch_def Resources_Match_def list_ex_iff)
  from assms(2) res(1) have "prefix bucket res"
    by (auto simp: Resources_Validate_def list_all_iff split: if_splits)
  with assms(1) obtain rest where "normalizePolicyResource res nrm = bucket @ rest"
    using normalizePolicyResource_prefix [of bucket res nrm] by (auto simp: plain_bucket_def prefix_def)
  with res(2) assms(1) show ?thesis
    by (intro literal_prefix(1) [of bucket rest resource]) (auto simp: plain_bucket_def)
qed

lemma BucketPolicyItem_ValidateD:
  assumes "BucketPolicyItem_Validate h bpi bucket iam = None"
  shows "Resources_Validate (Resources bpi) bucket = None"
    "validateBucketPolicyCondition h (Condition bpi) (Actions bpi) = None"
    "Effect bpi = BucketPolicyAccessTypeAllow \<or> Effect bpi = BucketPolicyAccessTypeDeny"
  using assms
  by (auto simp: BucketPolicyItem_Validate_def BucketPolicyAccessType_Validate_def
      split: option.splits if_splits)




section \<open>Properties\<close>

text \<open>
  C2. The decision of a bucket policy for one action is an explicit Deny exactly when some
  statement that covers the request denies it or has a condition that cannot be evaluated; it
  is an Allow exactly when some covering statement allows and none denies. The order and
  multiplicity of the statements do not matter.
\<close>

theorem decisionFor_deny_overrides:
  "(decisionFor h bp access action resource condCtx nrm = policyDecisionDeny \<longleftrightarrow>
      (\<exists>st \<in> set (Statement bp).
         denies (\<lambda>st. findMatch h st access action resource condCtx (Version bp) nrm) st))
   \<and> (decisionFor h bp access action resource condCtx nrm = policyDecisionAllow \<longleftrightarrow>
      (\<exists>st \<in> set (Statement bp).
         allows (\<lambda>st. findMatch h st access action resource condCtx (Version bp) nrm) st)
      \<and> \<not> (\<exists>st \<in> set (Statement bp).
         denies (\<lambda>st. findMatch h st access action resource condCtx (Version bp) nrm) st))"
  by (simp add: decisionFor_spec policy_spec_Deny policy_spec_Allow)

text \<open>
  Public access and principal access agree: what the policy denies to the anonymous
  caller it denies to every principal, and what it allows to the anonymous caller no principal
  is left without a decision for.
\<close>

theorem public_decision_covers_principals:
  "(publicDecisionFor h bp resource action condCtx nrm = policyDecisionDeny \<longrightarrow>
      decisionFor h bp access action resource condCtx nrm = policyDecisionDeny)
   \<and> (publicDecisionFor h bp resource action condCtx nrm = policyDecisionAllow \<longrightarrow>
      decisionFor h bp access action resource condCtx nrm \<noteq> policyDecisionNoMatch)"
proof -
  let ?f = "\<lambda>st. findMatch h st access action resource condCtx (Version bp) nrm"
  let ?p = "\<lambda>st. isPublicFor h st resource action condCtx (Version bp) nrm"
  have "denies ?p st \<Longrightarrow> denies ?f st" "allows ?p st \<Longrightarrow> allows ?f st" for st
    using public_findMatch [of st] not_public_isPublicFor [of st]
    by (cases "Principals_isPublic (Principals st)"; simp add: denies_def allows_def)+
  then show ?thesis
    unfolding decisionFor_spec publicDecisionFor_spec policy_spec_def by auto
qed

definition public_read_policy :: BucketPolicy where
  "public_read_policy =
     \<lparr>Version = PolicyVersion2012,
      Statement = [\<lparr>Effect = BucketPolicyAccessTypeAllow, Principals = [''*''],
                    Actions = [GetObjectAction], Resources = [''b/*''], Condition = None\<rparr>]\<rparr>"

lemma public_read_policy_match:
  "matchPattern ''b/*'' ''b/k''" "matchPattern GetObjectAction GetObjectAction"
  by code_simp+

theorem public_decision_covers_principals_witness:
  "\<forall>h. publicDecisionFor h public_read_policy ''b/k'' GetObjectAction [] None = policyDecisionAllow
     \<and> decisionFor h public_read_policy ''alice'' GetObjectAction ''b/k'' [] None \<noteq> policyDecisionNoMatch"
proof (intro allI)
  fix h
  have "publicDecisionFor h public_read_policy ''b/k'' GetObjectAction [] None = policyDecisionAllow"
    using public_read_policy_match
    by (simp add: publicDecisionFor_def public_read_policy_def isPublicFor_def Principals_isPublic_def
        Actions_FindMatch_def Resources_FindMatch_def Resources_Match_def normalizePolicyResource_def
        normalizePolicyObjectKey_def)
  with public_decision_covers_principals [of h public_read_policy "''b/k''" GetObjectAction "[]" None "''alice''"]
  show "publicDecisionFor h public_read_policy ''b/k'' GetObjectAction [] None = policyDecisionAllow
     \<and> decisionFor h public_read_policy ''alice'' GetObjectAction ''b/k'' [] None \<noteq> policyDecisionNoMatch"
    by simp
qed

text \<open>
  For several actions the decision of \<open>verifyBucketPolicy\<close> is Deny with the first denied
  action, else NoMatch with the first action that no statement allows, else Allow.
\<close>

theorem verifyBucketPolicy_aggregates:
  assumes "acts \<noteq> []" "unmarshal_policy policyBytes = Inr bp"
  shows "verifyBucketPolicy h policyBytes access bucket object condCtx nrm acts =
    Inr (aggregate_spec (\<lambda>a. decisionFor h bp access a (makePolicyResource bucket object nrm) condCtx nrm) acts)"
  using assms by (simp add: verifyBucketPolicy_def verify_actions_spec)

definition public_read_json :: json where
  "public_read_json = JObj
     [(''Version'', JStr ''2012-10-17''),
      (''Statement'', JArr [JObj
         [(''Effect'', JStr ''Allow''), (''Principal'', JStr ''*''),
          (''Action'', JStr ''s3:GetObject''), (''Resource'', JStr ''arn:aws:s3:::b/*'')]])]"

lemma public_read_json_decodes: "unmarshal_policy (Some public_read_json) = Inr public_read_policy"
  by code_simp

theorem verifyBucketPolicy_aggregates_witness:
  "\<forall>h. verifyBucketPolicy h (Some public_read_json) ''alice'' ''b'' ''k'' [] None
       [GetObjectAction, PutObjectAction] =
     Inr (aggregate_spec (\<lambda>a. decisionFor h public_read_policy ''alice'' a
            (makePolicyResource ''b'' ''k'' None) [] None) [GetObjectAction, PutObjectAction])"
  using verifyBucketPolicy_aggregates [OF _ public_read_json_decodes,
      of "[GetObjectAction, PutObjectAction]"] by simp


text \<open>A host whose parsers reject everything, and an account resolver that knows every account.\<close>

definition null_host :: cond_host where
  "null_host = \<lparr>ParseFloat = (\<lambda>_. None), ParseTime = (\<lambda>_ _. None), UnixFloat = (\<lambda>_. 0),
     ParseIP = (\<lambda>_. None), IsIPv4 = (\<lambda>_. False), ParseCIDR = (\<lambda>_. None)\<rparr>"

definition all_known :: resolve_accounts where
  "all_known accs = Inr []"



text \<open>
  C20. A statement accepted for a bucket only ever matches resources whose name starts with
  that bucket's name, however its patterns, its wildcards and the backend's key normalisation
  combine.
\<close>

theorem accepted_statement_confined:
  assumes "plain_bucket bucket" "BucketPolicyItem_Validate h st bucket iam = None"
    and "fst (findMatch h st access action resource condCtx version nrm)"
  shows "HasPrefix resource bucket"
proof -
  from assms(3) have "Resources_FindMatch (Resources st) resource nrm"
    by (auto simp: findMatch_def split: if_splits)
  with assms(1) BucketPolicyItem_ValidateD(1) [OF assms(2)] show ?thesis
    by (rule Resources_FindMatch_prefix)
qed

theorem accepted_statement_confined_witness:
  "plain_bucket ''b''
   \<and> BucketPolicyItem_Validate null_host (hd (Statement public_read_policy)) ''b'' all_known = None
   \<and> fst (findMatch null_host (hd (Statement public_read_policy)) ''alice'' GetObjectAction ''b/k'' []
         PolicyVersion2012 None)
   \<and> HasPrefix ''b/k'' ''b''"
proof -
  let ?st = "hd (Statement public_read_policy)"
  have "plain_bucket ''b''" by (simp add: plain_bucket_def)
  moreover have "BucketPolicyItem_Validate null_host ?st ''b'' all_known = None" by code_simp
  moreover have "fst (findMatch null_host ?st ''alice'' GetObjectAction ''b/k'' [] PolicyVersion2012 None)"
    by code_simp
  ultimately show ?thesis using accepted_statement_confined by blast
qed

text \<open>
  Every statement of a decoded document is well formed: its principals, actions and
  resources are sets, each action is one the gateway knows or a pattern that covers one, and
  no resource pattern is empty or starts with a slash.
\<close>

theorem decoded_policy_well_formed:
  assumes "ParsePolicyDocument data = Inr bp"
  shows "list_all item_wf (Statement bp)"
proof -
  from assms have "unmarshal_policy data = Inr bp"
    by (auto simp: ParsePolicyDocument_def split: sum.splits decode_err.splits)
  then show ?thesis by (rule unmarshal_policy_wf)
qed

theorem decoded_policy_well_formed_witness:
  "ParsePolicyDocument (Some public_read_json) = Inr public_read_policy \<and>
   list_all item_wf (Statement public_read_policy)"
proof -
  have "ParsePolicyDocument (Some public_read_json) = Inr public_read_policy"
    by (simp add: ParsePolicyDocument_def public_read_json_decodes)
  then show ?thesis using decoded_policy_well_formed by blast
qed

text \<open>
  Validation depends on the iteration order of the action map: with \<open>s3:*\<close> visited first
  the loop ends and a bucket action on an object resource is accepted, with the bucket action
  visited first the same statement is rejected.
\<close>

theorem validate_depends_on_action_order:
  "BucketPolicyItem_Validate null_host
     \<lparr>Effect = BucketPolicyAccessTypeAllow, Principals = [''*''],
      Actions = [AllActions, ListBucketAction], Resources = [''b/*''], Condition = None\<rparr> ''b'' all_known = None
   \<and> BucketPolicyItem_Validate null_host
     \<lparr>Effect = BucketPolicyAccessTypeAllow, Principals = [''*''],
      Actions = [ListBucketAction, AllActions], Resources = [''b/*''], Condition = None\<rparr> ''b'' all_known
     = Some policyErrResourceMismatch"
  by code_simp

text \<open>
  A condition key outside the catalogue is rejected when the policy is put, also the
  tag-based keys that the comment of the catalogue says are accepted.
\<close>

theorem unknown_condition_key_rejected:
  "validateBucketPolicyCondition h
     (Some (JObj [(''StringEquals'', JObj [(''s3:ExistingObjectTag/env'', JStr ''prod'')])])) acts
   = Some policyErrInvalidConditionKey"
proof -
  have "Parse (Some (JObj [(''StringEquals'', JObj [(''s3:ExistingObjectTag/env'', JStr ''prod'')])])) =
      Some [(''StringEquals'', [(''s3:ExistingObjectTag/env'', [''prod''])])]"
    by code_simp
  moreover have "lookupConditionKeyRule ''s3:ExistingObjectTag/env'' = None"
    by code_simp
  ultimately show ?thesis
    by (simp add: validateBucketPolicyCondition_def validate_condition_key_def)
qed
end
