(* ===== verification/IAM_Accounts.thy ===== *)
theory IAM_Accounts
  imports Bucket_Policy "HOL-Library.AList"
begin

text \<open>
  The account side of package auth: accounts and their mutable fields (iam.go), the single
  tenant and the file-based account services (iam_single.go, iam_internal.go), the cache in
  front of an account service (iam_cache.go) and the two optional interfaces of a service
  (signing_key_provider.go). Time is an int of nanoseconds; each call of \<open>time.Now\<close> is a
  parameter.
\<close>

section \<open>Accounts\<close>

type_synonym Role = string

definition RoleUser :: Role where "RoleUser = ''user''"
definition RoleAdmin :: Role where "RoleAdmin = ''admin''"
definition RoleUserPlus :: Role where "RoleUserPlus = ''userplus''"

definition Role_IsValid :: "Role \<Rightarrow> bool" where
  "Role_IsValid r \<longleftrightarrow> r = RoleAdmin \<or> r = RoleUser \<or> r = RoleUserPlus"

record Account =
  Access :: string
  Secret :: string
  Role :: Role
  UserID :: int
  GroupID :: int
  ProjectID :: int
  SessionToken :: string
  IsSession :: bool

definition zero_Account :: Account where
  "zero_Account = \<lparr>Access = [], Secret = [], Role = [], UserID = 0, GroupID = 0, ProjectID = 0,
     SessionToken = [], IsSession = False\<rparr>"

record MutableProps =
  prop_Secret :: "string option"
  prop_Role :: Role
  prop_UserID :: "int option"
  prop_GroupID :: "int option"
  prop_ProjectID :: "int option"

definition MutableProps_Validate :: "MutableProps \<Rightarrow> go_error option" where
  "MutableProps_Validate m =
     (if prop_Role m \<noteq> [] \<and> \<not> Role_IsValid (prop_Role m) then Some (APIError ErrAdminInvalidUserRole)
      else None)"

definition updateAcc :: "Account \<Rightarrow> MutableProps \<Rightarrow> Account" where
  "updateAcc acc props =
     (let acc = (case prop_Secret props of None \<Rightarrow> acc | Some v \<Rightarrow> acc\<lparr>Secret := v\<rparr>);
          acc = (case prop_GroupID props of None \<Rightarrow> acc | Some v \<Rightarrow> acc\<lparr>GroupID := v\<rparr>);
          acc = (case prop_UserID props of None \<Rightarrow> acc | Some v \<Rightarrow> acc\<lparr>UserID := v\<rparr>);
          acc = (case prop_ProjectID props of None \<Rightarrow> acc | Some v \<Rightarrow> acc\<lparr>ProjectID := v\<rparr>)
      in if prop_Role props \<noteq> [] then acc\<lparr>Role := prop_Role props\<rparr> else acc)"

definition ErrUserExists :: go_error where "ErrUserExists = ErrorString ''user already exists''"
definition ErrNoSuchUser :: go_error where "ErrNoSuchUser = ErrorString ''user not found''"
definition ErrInvalidSessionToken :: go_error where
  "ErrInvalidSessionToken = ErrorString ''invalid session token''"

fun resolve_loop ::
    "(string \<Rightarrow> (go_error, Account) result) \<Rightarrow> string list \<Rightarrow> string list \<Rightarrow> (go_error, string list) result" where
  "resolve_loop getUserAccount missing [] = Inr missing"
| "resolve_loop getUserAccount missing (access # accs) =
     (case getUserAccount access of
        Inr _ \<Rightarrow> resolve_loop getUserAccount missing accs
      | Inl err \<Rightarrow>
          if err = ErrNoSuchUser \<or> err = APIError ErrAdminUserNotFound then
            resolve_loop getUserAccount (missing @ [access]) accs
          else if errors_is err ErrAdminMethodNotSupported then Inl err
          else Inl (Wrapped ''check user account: '' err))"

definition resolveAccountsByLookup ::
    "string list \<Rightarrow> (string \<Rightarrow> (go_error, Account) result) \<Rightarrow> (go_error, string list) result" where
  "resolveAccountsByLookup accessKeyIDs getUserAccount = resolve_loop getUserAccount [] accessKeyIDs"

text \<open>\<open>PolicyEvaluation\<close> and the interfaces a service may implement.\<close>

record PolicyEvaluation =
  Decisions :: "policyDecision list list"
  SessionDecisions :: "policyDecision list list"
  HasSessionPolicy :: bool
  PrincipalArn :: string

type_synonym PolicyEvaluator =
  "string \<Rightarrow> string \<Rightarrow> Action list \<Rightarrow> string list \<Rightarrow> ctx_vars \<Rightarrow> (go_error, PolicyEvaluation) result"

type_synonym SigningKeyProvider =
  "string \<Rightarrow> string \<Rightarrow> string \<Rightarrow> string \<Rightarrow> string \<Rightarrow> (go_error, string \<times> Account) result"

text \<open>
  \<open>ResolveDerivedKey\<close>. \<open>DeriveKey\<close> and \<open>IsTempAccessKeyID\<close> of package sigv4auth are parameters;
  \<open>skp\<close> is \<open>None\<close> where the service does not implement \<open>SigningKeyProvider\<close>.
\<close>

definition ResolveDerivedKey ::
    "(string \<Rightarrow> string \<Rightarrow> string \<Rightarrow> string \<Rightarrow> string) \<Rightarrow> (string \<Rightarrow> bool) \<Rightarrow> SigningKeyProvider option
     \<Rightarrow> (string \<Rightarrow> (go_error, Account) result) \<Rightarrow> Account \<Rightarrow> string \<Rightarrow> string \<Rightarrow> string \<Rightarrow> string \<Rightarrow> string
     \<Rightarrow> (go_error, string \<times> Account) result" where
  "ResolveDerivedKey DeriveKey IsTempAccessKeyID skp getUserAccount root access sessionToken date region service =
     (if access = Access root then
        (if sessionToken \<noteq> [] then Inl ErrInvalidSessionToken
         else Inr (DeriveKey (Secret root) date region service, root))
      else case skp of
          Some deriveSigningKey \<Rightarrow> deriveSigningKey access sessionToken date region service
        | None \<Rightarrow>
            if sessionToken \<noteq> [] \<or> IsTempAccessKeyID access then Inl ErrInvalidSessionToken
            else case getUserAccount access of
                Inl err \<Rightarrow> Inl err
              | Inr account \<Rightarrow> Inr (DeriveKey (Secret account) date region service, account))"

section \<open>Account services\<close>

text \<open>
  The operations of \<open>IAMService\<close> that a request or an admin call uses, over the service's own
  state.
\<close>

record 's iam_ops =
  svc_CreateAccount :: "Account \<Rightarrow> 's \<Rightarrow> go_error option \<times> 's"
  svc_GetUserAccount :: "string \<Rightarrow> 's \<Rightarrow> (go_error, Account) result"
  svc_UpdateUserAccount :: "string \<Rightarrow> MutableProps \<Rightarrow> 's \<Rightarrow> go_error option \<times> 's"
  svc_DeleteUserAccount :: "string \<Rightarrow> 's \<Rightarrow> go_error option \<times> 's"
  svc_ListUserAccounts :: "'s \<Rightarrow> (go_error, Account list) result"

subsection \<open>Single tenant service\<close>

definition single_GetUserAccount :: "Account \<Rightarrow> string \<Rightarrow> (go_error, Account) result" where
  "single_GetUserAccount root access =
     (if access = Access root then Inr root else Inl (APIError ErrAdminUserNotFound))"

definition single_ResolveAccounts :: "Account \<Rightarrow> string list \<Rightarrow> (go_error, string list) result" where
  "single_ResolveAccounts root accessKeyIDs =
     resolveAccountsByLookup accessKeyIDs (single_GetUserAccount root)"

definition IAMServiceSingle :: "Account \<Rightarrow> unit iam_ops" where
  "IAMServiceSingle root =
     \<lparr>svc_CreateAccount = (\<lambda>account s. (Some (APIError ErrAdminMethodNotSupported), s)),
      svc_GetUserAccount = (\<lambda>access s. single_GetUserAccount root access),
      svc_UpdateUserAccount = (\<lambda>access props s. (Some (APIError ErrAdminMethodNotSupported), s)),
      svc_DeleteUserAccount = (\<lambda>access s. (Some (APIError ErrAdminMethodNotSupported), s)),
      svc_ListUserAccounts = (\<lambda>s. Inl (APIError ErrAdminMethodNotSupported))\<rparr>"

subsection \<open>Internal service\<close>

text \<open>
  \<open>iAMConfig\<close>: the accounts of the file, by access key. An account that goes through the file loses its session
  fields, which are not encoded. \<open>io\<close> is the outcome of the storage engine around an update:
  an error of reading or writing the file, in which case nothing is stored.
\<close>

type_synonym iAMConfig = "(string \<times> Account) list"

definition persisted :: "Account \<Rightarrow> Account" where
  "persisted acc = acc\<lparr>SessionToken := [], IsSession := False\<rparr>"

definition store_conf ::
    "go_error option \<Rightarrow> (iAMConfig \<Rightarrow> (go_error, iAMConfig) result) \<Rightarrow> iAMConfig \<Rightarrow> go_error option \<times> iAMConfig" where
  "store_conf io update conf =
     (case io of
        Some e \<Rightarrow> (Some e, conf)
      | None \<Rightarrow>
          (case update conf of
             Inl err \<Rightarrow> (Some (Wrapped ''update iam data: '' err), conf)
           | Inr conf' \<Rightarrow> (None, conf')))"

definition internal_CreateAccount ::
    "Account \<Rightarrow> go_error option \<Rightarrow> Account \<Rightarrow> iAMConfig \<Rightarrow> go_error option \<times> iAMConfig" where
  "internal_CreateAccount rootAcc io account conf =
     (if Access account = Access rootAcc then (Some ErrUserExists, conf)
      else store_conf io (\<lambda>conf.
             case map_of conf (Access account) of
               Some _ \<Rightarrow> Inl ErrUserExists
             | None \<Rightarrow> Inr (AList.update (Access account) (persisted account) conf)) conf)"

definition internal_GetUserAccount ::
    "Account \<Rightarrow> go_error option \<Rightarrow> string \<Rightarrow> iAMConfig \<Rightarrow> (go_error, Account) result" where
  "internal_GetUserAccount rootAcc io access conf =
     (if access = Access rootAcc then Inr rootAcc
      else case io of
          Some e \<Rightarrow> Inl (Wrapped ''get iam data: '' e)
        | None \<Rightarrow> (case map_of conf access of None \<Rightarrow> Inl ErrNoSuchUser | Some acct \<Rightarrow> Inr acct))"

definition internal_ResolveAccounts ::
    "Account \<Rightarrow> go_error option \<Rightarrow> string list \<Rightarrow> iAMConfig \<Rightarrow> (go_error, string list) result" where
  "internal_ResolveAccounts rootAcc io accessKeyIDs conf =
     resolveAccountsByLookup accessKeyIDs (\<lambda>access. internal_GetUserAccount rootAcc io access conf)"

definition internal_UpdateUserAccount ::
    "go_error option \<Rightarrow> string \<Rightarrow> MutableProps \<Rightarrow> iAMConfig \<Rightarrow> go_error option \<times> iAMConfig" where
  "internal_UpdateUserAccount io access props conf =
     store_conf io (\<lambda>conf.
       case map_of conf access of
         None \<Rightarrow> Inl ErrNoSuchUser
       | Some acc \<Rightarrow> Inr (AList.update access (persisted (updateAcc acc props)) conf)) conf"

definition internal_DeleteUserAccount ::
    "go_error option \<Rightarrow> string \<Rightarrow> iAMConfig \<Rightarrow> go_error option \<times> iAMConfig" where
  "internal_DeleteUserAccount io access conf = store_conf io (\<lambda>conf. Inr (AList.delete access conf)) conf"

definition internal_ListUserAccounts :: "go_error option \<Rightarrow> iAMConfig \<Rightarrow> (go_error, Account list) result" where
  "internal_ListUserAccounts io conf =
     (case io of
        Some e \<Rightarrow> Inl (Wrapped ''get iam data: '' e)
      | None \<Rightarrow>
          Inr (map (\<lambda>k. let a = the (map_of conf k)
                         in zero_Account\<lparr>Access := k, Secret := Secret a, Role := Role a, UserID := UserID a,
                              GroupID := GroupID a, ProjectID := ProjectID a\<rparr>)
                (sort (remdups (map fst conf)))))"

definition IAMServiceInternal :: "Account \<Rightarrow> iAMConfig iam_ops" where
  "IAMServiceInternal rootAcc =
     \<lparr>svc_CreateAccount = internal_CreateAccount rootAcc None,
      svc_GetUserAccount = internal_GetUserAccount rootAcc None,
      svc_UpdateUserAccount = internal_UpdateUserAccount None,
      svc_DeleteUserAccount = internal_DeleteUserAccount None,
      svc_ListUserAccounts = internal_ListUserAccounts None\<rparr>"

section \<open>The cache\<close>

record cache_item =
  item_value :: Account
  item_exp :: int

record icache =
  ic_expire :: int
  ic_items :: "string \<Rightarrow> cache_item option"

definition icache_set :: "int \<Rightarrow> string \<Rightarrow> Account \<Rightarrow> icache \<Rightarrow> icache" where
  "icache_set now k v i =
     i\<lparr>ic_items := (ic_items i)(k \<mapsto> \<lparr>item_value = v, item_exp = now + ic_expire i\<rparr>)\<rparr>"

definition icache_get :: "int \<Rightarrow> string \<Rightarrow> icache \<Rightarrow> Account option" where
  "icache_get now k i =
     (case ic_items i k of
        None \<Rightarrow> None
      | Some v \<Rightarrow> if now < item_exp v then Some (item_value v) else None)"

definition icache_update :: "int \<Rightarrow> string \<Rightarrow> MutableProps \<Rightarrow> icache \<Rightarrow> icache" where
  "icache_update now k props i =
     (case ic_items i k of
        None \<Rightarrow> i
      | Some it \<Rightarrow>
          i\<lparr>ic_items := (ic_items i)(k \<mapsto>
              \<lparr>item_value = updateAcc (item_value it) props, item_exp = now + ic_expire i\<rparr>)\<rparr>)"

definition icache_Delete :: "string \<Rightarrow> icache \<Rightarrow> icache" where
  "icache_Delete k i = i\<lparr>ic_items := (ic_items i)(k := None)\<rparr>"

text \<open>One round of the pruning loop \<open>gcCache\<close>.\<close>

definition gcCache :: "int \<Rightarrow> icache \<Rightarrow> icache" where
  "gcCache now i =
     i\<lparr>ic_items := (\<lambda>k. case ic_items i k of
         None \<Rightarrow> None | Some v \<Rightarrow> if item_exp v < now then None else Some v)\<rparr>"

definition NewCache :: "int \<Rightarrow> icache" where
  "NewCache expireTime = \<lparr>ic_expire = expireTime, ic_items = (\<lambda>_. None)\<rparr>"

text \<open>The operations of \<open>IAMCache\<close> on the cache and the state of the service behind it.\<close>

definition IAMCache_CreateAccount ::
    "'s iam_ops \<Rightarrow> int \<Rightarrow> Account \<Rightarrow> icache \<times> 's \<Rightarrow> go_error option \<times> icache \<times> 's" where
  "IAMCache_CreateAccount svc now account = (\<lambda>(c, s).
     case svc_CreateAccount svc account s of
       (Some err, s') \<Rightarrow> (Some err, c, s')
     | (None, s') \<Rightarrow>
         let acct = zero_Account\<lparr>Access := Access account, Secret := Secret account, Role := Role account\<rparr>
         in (None, icache_set now (Access acct) acct c, s'))"

definition IAMCache_GetUserAccount ::
    "'s iam_ops \<Rightarrow> int \<Rightarrow> int \<Rightarrow> string \<Rightarrow> icache \<times> 's \<Rightarrow> (go_error, Account) result \<times> icache \<times> 's" where
  "IAMCache_GetUserAccount svc now now' access = (\<lambda>(c, s).
     case icache_get now access c of
       Some acct \<Rightarrow> (Inr acct, c, s)
     | None \<Rightarrow>
         (case svc_GetUserAccount svc access s of
            Inl err \<Rightarrow> (Inl err, c, s)
          | Inr a \<Rightarrow> (Inr a, icache_set now' access a c, s)))"

definition IAMCache_DeleteUserAccount ::
    "'s iam_ops \<Rightarrow> string \<Rightarrow> icache \<times> 's \<Rightarrow> go_error option \<times> icache \<times> 's" where
  "IAMCache_DeleteUserAccount svc access = (\<lambda>(c, s).
     case svc_DeleteUserAccount svc access s of
       (Some err, s') \<Rightarrow> (Some err, c, s')
     | (None, s') \<Rightarrow> (None, icache_Delete access c, s'))"

definition IAMCache_UpdateUserAccount ::
    "'s iam_ops \<Rightarrow> int \<Rightarrow> string \<Rightarrow> MutableProps \<Rightarrow> icache \<times> 's \<Rightarrow> go_error option \<times> icache \<times> 's" where
  "IAMCache_UpdateUserAccount svc now access props = (\<lambda>(c, s).
     case svc_UpdateUserAccount svc access props s of
       (Some err, s') \<Rightarrow> (Some err, c, s')
     | (None, s') \<Rightarrow> (None, icache_update now access props c, s'))"

section \<open>What an account service promises\<close>

text \<open>Every cached account, expired or not, is the one the service would return.\<close>

definition coherent :: "'s iam_ops \<Rightarrow> icache \<Rightarrow> 's \<Rightarrow> bool" where
  "coherent svc c s \<longleftrightarrow> (\<forall>k it. ic_items c k = Some it \<longrightarrow>
     svc_GetUserAccount svc k s = Inr (item_value it))"

datatype iam_op =
    OpCreate int Account
  | OpGet int int string
  | OpUpdate int string MutableProps
  | OpDelete string
  | OpPrune int

fun cache_step :: "'s iam_ops \<Rightarrow> iam_op \<Rightarrow> icache \<times> 's \<Rightarrow> icache \<times> 's" where
  "cache_step svc (OpCreate now a) cs = snd (IAMCache_CreateAccount svc now a cs)"
| "cache_step svc (OpGet now now' k) cs = snd (IAMCache_GetUserAccount svc now now' k cs)"
| "cache_step svc (OpUpdate now k props) cs = snd (IAMCache_UpdateUserAccount svc now k props cs)"
| "cache_step svc (OpDelete k) cs = snd (IAMCache_DeleteUserAccount svc k cs)"
| "cache_step svc (OpPrune now) cs = (gcCache now (fst cs), snd cs)"

definition run_ops :: "'s iam_ops \<Rightarrow> iam_op list \<Rightarrow> icache \<times> 's \<Rightarrow> icache \<times> 's" where
  "run_ops svc ops cs = fold (cache_step svc) ops cs"

text \<open>An account whose creation the cache records without loss.\<close>

fun plain_op :: "iam_op \<Rightarrow> bool" where
  "plain_op (OpCreate _ a) = (UserID a = 0 \<and> GroupID a = 0 \<and> ProjectID a = 0)"
| "plain_op _ = True"


lemma Access_persisted [simp]: "Access (persisted a) = Access a"
  by (simp add: persisted_def)

lemma create_copy_plain:
  assumes "UserID a = 0" "GroupID a = 0" "ProjectID a = 0"
  shows "zero_Account\<lparr>Access := Access a, Secret := Secret a, Role := Role a\<rparr> = persisted a"
  using assms by (simp add: zero_Account_def persisted_def)

locale account_service =
  fixes svc :: "'s iam_ops"
    and inv :: "'s \<Rightarrow> bool"
  assumes create_ok: "inv s \<Longrightarrow> svc_CreateAccount svc a s = (None, s') \<Longrightarrow>
      inv s' \<and> svc_GetUserAccount svc (Access a) s' = Inr (persisted a)
      \<and> (\<forall>k. k \<noteq> Access a \<longrightarrow> svc_GetUserAccount svc k s' = svc_GetUserAccount svc k s)"
    and update_ok: "inv s \<Longrightarrow> svc_UpdateUserAccount svc k props s = (None, s') \<Longrightarrow>
      inv s' \<and> (\<forall>k'. k' \<noteq> k \<longrightarrow> svc_GetUserAccount svc k' s' = svc_GetUserAccount svc k' s)
      \<and> (\<exists>a. svc_GetUserAccount svc k s = Inr a
            \<and> svc_GetUserAccount svc k s' = Inr (updateAcc a props))"
    and delete_ok: "inv s \<Longrightarrow> svc_DeleteUserAccount svc k s = (None, s') \<Longrightarrow>
      inv s' \<and> (\<forall>k'. k' \<noteq> k \<longrightarrow> svc_GetUserAccount svc k' s' = svc_GetUserAccount svc k' s)"
    and create_fail: "svc_CreateAccount svc a s = (Some e, s') \<Longrightarrow> s' = s"
    and update_fail: "svc_UpdateUserAccount svc k props s = (Some e, s') \<Longrightarrow> s' = s"
    and delete_fail: "svc_DeleteUserAccount svc k s = (Some e, s') \<Longrightarrow> s' = s"
begin

abbreviation good :: "icache \<times> 's \<Rightarrow> bool" where
  "good cs \<equiv> inv (snd cs) \<and> coherent svc (fst cs) (snd cs)"

lemma step_create:
  assumes "good (c, s)" "plain_op (OpCreate now a)"
  shows "good (cache_step svc (OpCreate now a) (c, s))"
proof (cases "svc_CreateAccount svc a s")
  case (Pair r s')
  show ?thesis
  proof (cases r)
    case None
    with Pair create_ok [of s a s'] create_copy_plain [of a] assms show ?thesis
      by (auto simp: IAMCache_CreateAccount_def icache_set_def coherent_def Let_def)
  next
    case (Some e)
    with Pair create_fail [of a s e s'] assms show ?thesis by (simp add: IAMCache_CreateAccount_def)
  qed
qed

lemma step_update:
  assumes "good (c, s)"
  shows "good (cache_step svc (OpUpdate now k props) (c, s))"
proof (cases "svc_UpdateUserAccount svc k props s")
  case (Pair r s')
  show ?thesis
  proof (cases r)
    case None
    with Pair update_ok [of s k props s'] assms show ?thesis
      by (auto simp: IAMCache_UpdateUserAccount_def icache_update_def coherent_def split: option.splits if_splits)
         (metis option.distinct(1))
  next
    case (Some e)
    with Pair update_fail [of k props s e s'] assms show ?thesis by (simp add: IAMCache_UpdateUserAccount_def)
  qed
qed

lemma step_delete:
  assumes "good (c, s)"
  shows "good (cache_step svc (OpDelete k) (c, s))"
proof (cases "svc_DeleteUserAccount svc k s")
  case (Pair r s')
  show ?thesis
  proof (cases r)
    case None
    with Pair delete_ok [of s k s'] assms show ?thesis
      by (auto simp: IAMCache_DeleteUserAccount_def icache_Delete_def coherent_def split: if_splits)
  next
    case (Some e)
    with Pair delete_fail [of k s e s'] assms show ?thesis by (simp add: IAMCache_DeleteUserAccount_def)
  qed
qed

lemma step_get_prune:
  assumes "good (c, s)"
  shows "good (cache_step svc (OpGet now now' k) (c, s))" "good (cache_step svc (OpPrune now) (c, s))"
  using assms
  by (auto simp: IAMCache_GetUserAccount_def icache_set_def gcCache_def coherent_def
      split: option.splits sum.splits if_splits)

lemma step_good:
  assumes "good cs" "plain_op op"
  shows "good (cache_step svc op cs)"
proof -
  obtain c s where cs: "cs = (c, s)" by (cases cs)
  show ?thesis
    using assms step_create [of c s] step_update [of c s] step_delete [of c s] step_get_prune [of c s]
    unfolding cs by (cases op) blast+
qed

lemma run_good: "good cs \<Longrightarrow> list_all plain_op ops \<Longrightarrow> good (run_ops svc ops cs)"
  unfolding run_ops_def by (induction ops arbitrary: cs) (use step_good in simp_all)

lemma coherent_get:
  "coherent svc c s \<Longrightarrow> fst (IAMCache_GetUserAccount svc now now' k (c, s)) = svc_GetUserAccount svc k s"
  by (auto simp: IAMCache_GetUserAccount_def icache_get_def coherent_def split: option.splits sum.splits)

lemma cache_transparent:
  assumes "inv s" "list_all plain_op ops"
  shows "fst (IAMCache_GetUserAccount svc now now' k (run_ops svc ops (NewCache e, s))) =
    svc_GetUserAccount svc k (snd (run_ops svc ops (NewCache e, s)))"
proof -
  have "good (NewCache e, s)" using assms(1) by (simp add: coherent_def NewCache_def)
  with run_good assms(2) have "good (run_ops svc ops (NewCache e, s))" by blast
  then show ?thesis using coherent_get by (cases "run_ops svc ops (NewCache e, s)") simp
qed

end

text \<open>The accounts of the file never include the root account, and carry no session.\<close>

definition conf_inv :: "Account \<Rightarrow> iAMConfig \<Rightarrow> bool" where
  "conf_inv rootAcc conf \<longleftrightarrow> map_of conf (Access rootAcc) = None
     \<and> (\<forall>k a. map_of conf k = Some a \<longrightarrow> persisted a = a)"

lemma persisted_persisted [simp]: "persisted (persisted a) = persisted a"
  by (simp add: persisted_def)


interpretation single: account_service "IAMServiceSingle rootAcc" "\<lambda>_. True" for rootAcc
  by unfold_locales (auto simp: IAMServiceSingle_def)

lemma resolve_loop_ok:
  "resolve_loop get missing accs = Inr out \<longleftrightarrow>
     (\<forall>a \<in> set accs. is_ok (get a) \<or> get a = Inl ErrNoSuchUser \<or> get a = Inl (APIError ErrAdminUserNotFound))
     \<and> out = missing @ filter (\<lambda>a. \<not> is_ok (get a)) accs"
proof (induction accs arbitrary: missing)
  case (Cons a accs)
  then show ?case by (cases "get a") (auto)
qed auto

section \<open>Properties\<close>


definition demo_root :: Account where
  "demo_root = zero_Account\<lparr>Access := ''root'', Role := RoleAdmin\<rparr>"

definition demo_user :: Account where
  "demo_user = zero_Account\<lparr>Access := ''alice'', Secret := ''s1'', Role := RoleUser\<rparr>"



text \<open>
  An account created through the cache is served with user, group and project id 0 until
  its entry expires, whatever ids it was created with, while the service holds the given ids.
\<close>

theorem cache_create_drops_ids:
  assumes "conf_inv rootAcc conf" "Access acc \<noteq> Access rootAcc" "map_of conf (Access acc) = None"
    and "t < now + ic_expire c"
  defines "svc \<equiv> IAMServiceInternal rootAcc"
  shows "\<exists>c' conf' a. IAMCache_CreateAccount svc now acc (c, conf) = (None, c', conf')
    \<and> fst (IAMCache_GetUserAccount svc t t' (Access acc) (c', conf')) = Inr a
    \<and> UserID a = 0 \<and> GroupID a = 0 \<and> ProjectID a = 0
    \<and> svc_GetUserAccount svc (Access acc) conf' = Inr (persisted acc)"
  using assms
  by (simp add: IAMCache_CreateAccount_def IAMServiceInternal_def internal_CreateAccount_def
      store_conf_def IAMCache_GetUserAccount_def icache_get_def icache_set_def zero_Account_def
      internal_GetUserAccount_def AList.update_conv')

theorem cache_create_drops_ids_witness:
  "\<exists>c' conf' a. IAMCache_CreateAccount (IAMServiceInternal demo_root) 0 (demo_user\<lparr>UserID := 1000\<rparr>) (NewCache 120, []) =
      (None, c', conf')
    \<and> fst (IAMCache_GetUserAccount (IAMServiceInternal demo_root) 60 60 ''alice'' (c', conf')) = Inr a
    \<and> UserID a = 0 \<and> GroupID a = 0 \<and> ProjectID a = 0
    \<and> svc_GetUserAccount (IAMServiceInternal demo_root) ''alice'' conf' = Inr (persisted (demo_user\<lparr>UserID := 1000\<rparr>))"
  using cache_create_drops_ids [of demo_root "[]" "demo_user\<lparr>UserID := 1000\<rparr>" 60 0 "NewCache 120" 60]
  by (simp add: conf_inv_def demo_root_def demo_user_def zero_Account_def NewCache_def)

text \<open>
  A look-up that has read the account from the service and stores it only after a
  concurrent deletion has finished brings the deleted account back: the service no longer has
  it, and the cache serves it until the entry expires.
\<close>

theorem cache_delete_race:
  assumes "svc_GetUserAccount (IAMServiceInternal rootAcc) k conf = Inr a" "k \<noteq> Access rootAcc"
    and "IAMCache_DeleteUserAccount (IAMServiceInternal rootAcc) k (c, conf) = (None, c', conf')"
    and "t < now + ic_expire c"
  shows "svc_GetUserAccount (IAMServiceInternal rootAcc) k conf' = Inl ErrNoSuchUser
    \<and> fst (IAMCache_GetUserAccount (IAMServiceInternal rootAcc) t t' k (icache_set now k a c', conf')) = Inr a"
  using assms
  by (auto simp: IAMCache_DeleteUserAccount_def IAMServiceInternal_def internal_DeleteUserAccount_def
      store_conf_def internal_GetUserAccount_def IAMCache_GetUserAccount_def icache_get_def
      icache_set_def icache_Delete_def AList.delete_conv')

theorem cache_delete_race_witness:
  "svc_GetUserAccount (IAMServiceInternal demo_root) ''alice'' [] = Inl ErrNoSuchUser
   \<and> fst (IAMCache_GetUserAccount (IAMServiceInternal demo_root) 60 60 ''alice''
        (icache_set 0 ''alice'' demo_user (icache_Delete ''alice'' (NewCache 120)), [])) = Inr demo_user"
proof -
  have g: "svc_GetUserAccount (IAMServiceInternal demo_root) ''alice'' [(''alice'', demo_user)] = Inr demo_user"
    by (simp add: IAMServiceInternal_def internal_GetUserAccount_def demo_root_def)
  have n: "''alice'' \<noteq> Access demo_root" by (simp add: demo_root_def)
  have d: "IAMCache_DeleteUserAccount (IAMServiceInternal demo_root) ''alice''
      (NewCache 120, [(''alice'', demo_user)]) = (None, icache_Delete ''alice'' (NewCache 120), [])"
    by (simp add: IAMCache_DeleteUserAccount_def IAMServiceInternal_def internal_DeleteUserAccount_def
        store_conf_def)
  show ?thesis using cache_delete_race [OF g n d, of 60 0] by (simp add: NewCache_def)
qed

text \<open>
  \<open>ResolveAccounts\<close> of the file-based service reports exactly the accounts that neither
  are root nor stand in the file, in the order given, with repetitions.
\<close>

theorem internal_ResolveAccounts_missing:
  "internal_ResolveAccounts rootAcc None accs conf =
     Inr (filter (\<lambda>a. a \<noteq> Access rootAcc \<and> map_of conf a = None) accs)"
proof -
  have "resolve_loop (\<lambda>access. internal_GetUserAccount rootAcc None access conf) [] accs =
     Inr (filter (\<lambda>a. \<not> is_ok (internal_GetUserAccount rootAcc None a conf)) accs)"
    by (subst resolve_loop_ok) (auto simp: internal_GetUserAccount_def split: option.splits)
  moreover have "(\<not> is_ok (internal_GetUserAccount rootAcc None a conf)) =
      (a \<noteq> Access rootAcc \<and> map_of conf a = None)" for a
    by (simp add: internal_GetUserAccount_def split: option.splits)
  ultimately show ?thesis by (simp add: internal_ResolveAccounts_def resolveAccountsByLookup_def)
qed

end
