(* ===== verification/Bucket_ACL.thy ===== *)
theory Bucket_ACL
  imports IAM_Accounts
begin

text \<open>
  Bucket ACLs (auth/acl.go): the stored ACL and its JSON form, the validation of an access
  control policy sent by a client, the update of the grantees, and the check of one access.
\<close>

section \<open>Data\<close>

type_synonym Permission = string

definition PermissionFullControl :: Permission where "PermissionFullControl = ''FULL_CONTROL''"
definition PermissionWrite :: Permission where "PermissionWrite = ''WRITE''"
definition PermissionWriteAcp :: Permission where "PermissionWriteAcp = ''WRITE_ACP''"
definition PermissionRead :: Permission where "PermissionRead = ''READ''"
definition PermissionReadAcp :: Permission where "PermissionReadAcp = ''READ_ACP''"

definition Permission_isValid :: "Permission \<Rightarrow> bool" where
  "Permission_isValid p \<longleftrightarrow>
     p = PermissionFullControl \<or> p = PermissionRead \<or> p = PermissionReadAcp
     \<or> p = PermissionWrite \<or> p = PermissionWriteAcp"

definition TypeCanonicalUser :: string where "TypeCanonicalUser = ''CanonicalUser''"
definition TypeGroup :: string where "TypeGroup = ''Group''"

record Grantee =
  grt_Permission :: Permission
  grt_Access :: string
  grt_Type :: string

record ACL =
  acl_Owner :: string
  acl_Grantees :: "Grantee list"

definition zero_ACL :: ACL where
  "zero_ACL = \<lparr>acl_Owner = [], acl_Grantees = []\<rparr>"

definition ACL_IsPublic :: "ACL \<Rightarrow> Permission \<Rightarrow> bool" where
  "ACL_IsPublic acl permission =
     list_ex (\<lambda>grt. grt_Permission grt = permission \<and> grt_Type grt = TypeGroup
                     \<and> grt_Access grt = ''all-users'') (acl_Grantees acl)"

record Grt =
  Grt_XMLNS :: string
  Grt_Type :: string
  Grt_ID :: string

record Grant =
  Grant_Grantee :: "Grt option"
  Grant_Permission :: Permission

record AccessControlPolicy =
  acp_Grants :: "Grant list"
  acp_Owner :: "string option option"

text \<open>\<open>acp_Owner\<close>: \<open>None\<close> is a nil Owner, \<open>Some None\<close> an Owner whose ID is nil.\<close>

record GetBucketAclOutput =
  out_Owner :: string
  out_Grants :: "Grant list"


section \<open>Validation\<close>

definition Grt_isValid :: "Grt \<Rightarrow> bool" where
  "Grt_isValid g \<longleftrightarrow> (Grt_Type g = TypeCanonicalUser \<or> Grt_Type g = TypeGroup) \<and> Grt_ID g \<noteq> []"

text \<open>The result \<open>None\<close> is the panic of reading a field through a nil grantee.\<close>

definition Grant_isValid :: "Grant \<Rightarrow> bool option" where
  "Grant_isValid g =
     (if \<not> Permission_isValid (Grant_Permission g) then Some False
      else case Grant_Grantee g of None \<Rightarrow> None | Some grt \<Rightarrow> Some (Grt_isValid grt))"

fun AccessControlList_isValid :: "Grant list \<Rightarrow> bool option" where
  "AccessControlList_isValid [] = Some True"
| "AccessControlList_isValid (el # grants) =
     (case Grant_isValid el of
        None \<Rightarrow> None
      | Some False \<Rightarrow> Some False
      | Some True \<Rightarrow> AccessControlList_isValid grants)"

definition AccessControlPolicy_Validate :: "AccessControlPolicy \<Rightarrow> go_error option" where
  "AccessControlPolicy_Validate acp =
     (case AccessControlList_isValid (acp_Grants acp) of
        None \<Rightarrow> Some NilPointer
      | Some False \<Rightarrow> Some (APIError ErrMalformedACL)
      | Some True \<Rightarrow>
          (case acp_Owner acp of
             None \<Rightarrow> Some (APIError ErrMalformedACL)
           | Some None \<Rightarrow> Some (APIError ErrMalformedACL)
           | Some (Some ownerId) \<Rightarrow> if ownerId = [] then Some (APIError ErrMalformedACL) else None))"

definition BucketCannedACLs :: "string list" where
  "BucketCannedACLs = [''private'', ''public-read'', ''public-read-write'', '''']"

definition ValidateCannedACL :: "string \<Rightarrow> go_error option" where
  "ValidateCannedACL acl =
     (if acl \<in> set BucketCannedACLs then None else Some (InvalidArgument InvalidArgCannedAcl acl))"

section \<open>Stored form\<close>

text \<open>Stored bytes: no bytes at all, bytes that are not JSON, or a JSON text.\<close>

datatype raw_bytes = EmptyBytes | NotJSON | JSONText json

definition Grantee_MarshalJSON :: "Grantee \<Rightarrow> json" where
  "Grantee_MarshalJSON g =
     JObj [(''Permission'', JStr (grt_Permission g)), (''Access'', JStr (grt_Access g)),
           (''Type'', JStr (grt_Type g))]"

definition ACL_MarshalJSON :: "ACL \<Rightarrow> json" where
  "ACL_MarshalJSON acl =
     JObj [(''Owner'', JStr (acl_Owner acl)),
           (''Grantees'', JArr (map Grantee_MarshalJSON (acl_Grantees acl)))]"

text \<open>A field of type string: null leaves it, another value is a type error (the flag).\<close>

fun string_field :: "json \<Rightarrow> string \<Rightarrow> string \<times> bool" where
  "string_field (JStr s) cur = (s, False)"
| "string_field JNull cur = (cur, False)"
| "string_field _ cur = (cur, True)"

fun grantee_fields :: "(string \<times> json) list \<Rightarrow> Grantee \<times> bool \<Rightarrow> Grantee \<times> bool" where
  "grantee_fields [] st = st"
| "grantee_fields ((k, v) # ms) (g, bad) =
     (if EqualFold k ''Permission'' then
        (let (s, b) = string_field v (grt_Permission g)
         in grantee_fields ms (g\<lparr>grt_Permission := s\<rparr>, bad \<or> b))
      else if EqualFold k ''Access'' then
        (let (s, b) = string_field v (grt_Access g)
         in grantee_fields ms (g\<lparr>grt_Access := s\<rparr>, bad \<or> b))
      else if EqualFold k ''Type'' then
        (let (s, b) = string_field v (grt_Type g)
         in grantee_fields ms (g\<lparr>grt_Type := s\<rparr>, bad \<or> b))
      else grantee_fields ms (g, bad))"

definition zero_Grantee :: Grantee where
  "zero_Grantee = \<lparr>grt_Permission = [], grt_Access = [], grt_Type = []\<rparr>"

definition decode_Grantee :: "json \<Rightarrow> Grantee \<times> bool" where
  "decode_Grantee j =
     (case j of
        JObj ms \<Rightarrow> grantee_fields ms (zero_Grantee, False)
      | JNull \<Rightarrow> (zero_Grantee, False)
      | _ \<Rightarrow> (zero_Grantee, True))"

fun acl_fields :: "(string \<times> json) list \<Rightarrow> ACL \<times> bool \<Rightarrow> ACL \<times> bool" where
  "acl_fields [] st = st"
| "acl_fields ((k, v) # ms) (a, bad) =
     (if EqualFold k ''Owner'' then
        (let (s, b) = string_field v (acl_Owner a) in acl_fields ms (a\<lparr>acl_Owner := s\<rparr>, bad \<or> b))
      else if EqualFold k ''Grantees'' then
        (case v of
           JArr js \<Rightarrow>
             acl_fields ms (a\<lparr>acl_Grantees := map (fst \<circ> decode_Grantee) js\<rparr>,
                            bad \<or> list_ex (snd \<circ> decode_Grantee) js)
         | JNull \<Rightarrow> acl_fields ms (a\<lparr>acl_Grantees := []\<rparr>, bad)
         | _ \<Rightarrow> acl_fields ms (a, True))
      else acl_fields ms (a, bad))"

text \<open>\<open>json.Unmarshal(data, &acl)\<close>.\<close>

definition unmarshal_ACL :: "raw_bytes \<Rightarrow> (go_error, ACL) result" where
  "unmarshal_ACL data =
     (case data of
        JSONText (JObj ms) \<Rightarrow>
          (let (a, bad) = acl_fields ms (zero_ACL, False)
           in if bad then Inl (ErrorString ''json error'') else Inr a)
      | JSONText JNull \<Rightarrow> Inr zero_ACL
      | _ \<Rightarrow> Inl (ErrorString ''json error''))"

definition ParseACL :: "raw_bytes \<Rightarrow> (go_error, ACL) result" where
  "ParseACL data =
     (if data = EmptyBytes then Inr zero_ACL
      else case unmarshal_ACL data of
          Inl err \<Rightarrow> Inl (Wrapped ''parse acl: '' err)
        | Inr acl \<Rightarrow> Inr acl)"

definition ParseACLOutput :: "raw_bytes \<Rightarrow> string \<Rightarrow> (go_error, GetBucketAclOutput) result" where
  "ParseACLOutput data owner =
     (if data = EmptyBytes then Inr \<lparr>out_Owner = owner, out_Grants = []\<rparr>
      else case unmarshal_ACL data of
          Inl err \<Rightarrow> Inl (Wrapped ''parse acl: '' err)
        | Inr acl \<Rightarrow>
            Inr \<lparr>out_Owner = acl_Owner acl,
                 out_Grants = map (\<lambda>elem.
                   \<lparr>Grant_Grantee = Some \<lparr>Grt_XMLNS = ''http://www.w3.org/2001/XMLSchema-instance'',
                                         Grt_Type = grt_Type elem, Grt_ID = grt_Access elem\<rparr>,
                    Grant_Permission = grt_Permission elem\<rparr>) (acl_Grantees acl)\<rparr>)"

section \<open>Update\<close>

text \<open>\<open>splitUnique\<close> with the divider \<open>,\<close>: the elements in order of first occurrence.\<close>

fun unique_loop :: "string list \<Rightarrow> string list \<Rightarrow> string list" where
  "unique_loop acc [] = acc"
| "unique_loop acc (e # es) = (if e \<in> set acc then unique_loop acc es else unique_loop (acc @ [e]) es)"

definition splitUnique :: "string \<Rightarrow> char \<Rightarrow> string list" where
  "splitUnique s divider = unique_loop [] (Split s divider)"

definition user_grantee :: "Permission \<Rightarrow> string \<Rightarrow> Grantee" where
  "user_grantee p access = \<lparr>grt_Permission = p, grt_Access = access, grt_Type = TypeCanonicalUser\<rparr>"

definition group_grantee :: "Permission \<Rightarrow> Grantee" where
  "group_grantee p = \<lparr>grt_Permission = p, grt_Access = ''all-users'', grt_Type = TypeGroup\<rparr>"


text \<open>The loop over the grants of the policy: grantees and the distinct accounts.\<close>

fun policy_grants ::
    "Grant list \<Rightarrow> Grantee list \<Rightarrow> string list \<Rightarrow> (go_error, Grantee list \<times> string list) result" where
  "policy_grants [] gs accs = Inr (gs, accs)"
| "policy_grants (grt # grants) gs accs =
     (case Grant_Grantee grt of
        None \<Rightarrow> Inl (APIError ErrInvalidRequest)
      | Some g \<Rightarrow>
          if Grt_ID g = [] \<or> Grant_Permission grt = [] then Inl (APIError ErrInvalidRequest)
          else policy_grants grants (gs @ [user_grantee (Grant_Permission grt) (Grt_ID g)])
                 (if Grt_ID g \<in> set accs then accs else accs @ [Grt_ID g]))"






section \<open>Checks\<close>

definition verifyACL :: "ACL \<Rightarrow> string \<Rightarrow> Permission \<Rightarrow> bool \<Rightarrow> go_error option" where
  "verifyACL acl access permission disableACL =
     (if disableACL then
        (if acl_Owner acl \<noteq> access then Some (APIError ErrAccessDenied) else None)
      else
        let grantee = user_grantee permission access;
            granteeFullCtrl = user_grantee PermissionFullControl access;
            granteeAllUsers = group_grantee permission;
            isFound = list_ex (\<lambda>grt. grt = grantee \<or> grt = granteeFullCtrl \<or> grt = granteeAllUsers)
                        (acl_Grantees acl)
        in if isFound then None else Some (APIError ErrAccessDenied))"

definition VerifyPublicBucketACL ::
    "(string \<Rightarrow> (go_error, raw_bytes) result) \<Rightarrow> string \<Rightarrow> Permission \<Rightarrow> go_error option" where
  "VerifyPublicBucketACL getBucketAcl bucket permission =
     (case getBucketAcl bucket of
        Inl err \<Rightarrow> Some err
      | Inr aclBytes \<Rightarrow>
          (case ParseACL aclBytes of
             Inl err \<Rightarrow> Some err
           | Inr acl \<Rightarrow> if \<not> ACL_IsPublic acl permission then Some errAccessDenied else None))"

text \<open>
  \<open>UpdateBucketACLOwner\<close>: the backend calls it makes, in order, and its result; the outcome of
  each backend call is a parameter.
\<close>

datatype acl_call = PutBucketAcl string json | DeleteBucketPolicy string

definition UpdateBucketACLOwner ::
    "(acl_call \<Rightarrow> go_error option) \<Rightarrow> string \<Rightarrow> string \<Rightarrow> acl_call list \<times> go_error option" where
  "UpdateBucketACLOwner be bucket newOwner =
     (let acl = \<lparr>acl_Owner = newOwner, acl_Grantees = [user_grantee PermissionFullControl newOwner]\<rparr>;
          put = PutBucketAcl bucket (ACL_MarshalJSON acl);
          del = DeleteBucketPolicy bucket
      in case be put of
           Some err \<Rightarrow> ([put], Some err)
         | None \<Rightarrow> ([put, del], be del))"

section \<open>Facts\<close>

lemma fold_names [simp]:
  "\<not> EqualFold ''Grantees'' ''Owner''" "\<not> EqualFold ''Access'' ''Permission''"
  "\<not> EqualFold ''Type'' ''Permission''" "\<not> EqualFold ''Type'' ''Access''"
  by (code_simp)+

lemma decode_Grantee_marshal [simp]: "decode_Grantee (Grantee_MarshalJSON g) = (g, False)"
  by (simp add: decode_Grantee_def Grantee_MarshalJSON_def zero_Grantee_def)

lemma user_grantee_simps [simp]:
  "grt_Permission (user_grantee p a) = p" "grt_Access (user_grantee p a) = a"
  "grt_Type (user_grantee p a) = TypeCanonicalUser"
  "grt_Permission (group_grantee p) = p" "grt_Access (group_grantee p) = ''all-users''"
  "grt_Type (group_grantee p) = TypeGroup"
  by (simp_all add: user_grantee_def group_grantee_def)

lemma types_differ [simp]: "TypeCanonicalUser \<noteq> TypeGroup" "TypeGroup \<noteq> TypeCanonicalUser"
  by (simp_all add: TypeCanonicalUser_def TypeGroup_def)

lemma unique_loop_set: "set (unique_loop acc es) = set acc \<union> set es"
  by (induction acc es rule: unique_loop.induct) auto

lemma unique_loop_distinct: "distinct acc \<Longrightarrow> distinct (unique_loop acc es)"
  by (induction acc es rule: unique_loop.induct) auto

lemma splitUnique_spec: "set (splitUnique s d) = set (Split s d)" "distinct (splitUnique s d)"
  by (simp_all add: splitUnique_def unique_loop_set unique_loop_distinct)





lemma AccessControlList_isValid_True:
  "AccessControlList_isValid grants = Some True \<longleftrightarrow> (\<forall>g \<in> set grants. Grant_isValid g = Some True)"
  by (induction grants rule: AccessControlList_isValid.induct) (auto split: option.splits bool.splits)

lemma AccessControlList_isValid_append:
  "\<forall>x \<in> set pre. Grant_isValid x = Some True \<Longrightarrow>
    AccessControlList_isValid (pre @ grants) = AccessControlList_isValid grants"
  by (induction pre) auto

lemma AccessControlList_isValid_None:
  "AccessControlList_isValid grants = None \<longleftrightarrow>
     (\<exists>pre g post. grants = pre @ g # post \<and> Grant_isValid g = None
        \<and> (\<forall>x \<in> set pre. Grant_isValid x = Some True))" (is "?L grants \<longleftrightarrow> ?R grants")
proof
  show "?L grants \<Longrightarrow> ?R grants"
  proof (induction grants)
    case (Cons g grants)
    consider "Grant_isValid g = None" | "Grant_isValid g = Some True" "?L grants"
      using Cons.prems by (auto split: option.splits bool.splits)
    then show ?case
    proof cases
      case 1
      then show ?thesis by (intro exI [of _ "[]"] exI [of _ g] exI [of _ grants]) simp
    next
      case 2
      with Cons.IH obtain pre g' post where "grants = pre @ g' # post" "Grant_isValid g' = None"
        "\<forall>x \<in> set pre. Grant_isValid x = Some True" by blast
      with 2 show ?thesis by (intro exI [of _ "g # pre"] exI [of _ g'] exI [of _ post]) simp
    qed
  qed simp
  show "?R grants \<Longrightarrow> ?L grants" by (auto simp: AccessControlList_isValid_append)
qed

lemma policy_grants_ok:
  assumes "\<forall>g \<in> set grants. Grant_isValid g = Some True"
  shows "\<exists>r. policy_grants grants gs accs = Inr r"
  using assms
proof (induction grants gs accs rule: policy_grants.induct)
  case (2 grt grants gs accs)
  then show ?case
    by (auto simp: Grant_isValid_def Grt_isValid_def Permission_isValid_def PermissionFullControl_def
        PermissionRead_def PermissionReadAcp_def PermissionWrite_def PermissionWriteAcp_def
        split: option.splits if_splits)
qed simp

section \<open>Properties\<close>

text \<open>An ACL survives being stored: parsing its JSON form gives it back.\<close>

theorem ParseACL_MarshalJSON: "ParseACL (JSONText (ACL_MarshalJSON acl)) = Inr acl"
  by (simp add: ParseACL_def unmarshal_ACL_def ACL_MarshalJSON_def zero_ACL_def list_ex_iff comp_def)






text \<open>
  Without disabled ACLs, access is granted exactly when the ACL gives the caller the
  permission or full control, or gives everyone the permission; with disabled ACLs exactly the
  owner has access.
\<close>

theorem verifyACL_iff:
  "verifyACL acl access permission disableACL = None \<longleftrightarrow>
     (if disableACL then access = acl_Owner acl
      else user_grantee permission access \<in> set (acl_Grantees acl)
         \<or> user_grantee PermissionFullControl access \<in> set (acl_Grantees acl)
         \<or> group_grantee permission \<in> set (acl_Grantees acl))"
  by (auto simp: verifyACL_def Let_def list_ex_iff)

text \<open>
  A policy that passes validation is never rejected as an invalid request by the update;
  a grant with a valid permission and no Grantee element makes validation itself panic.
\<close>

theorem AccessControlPolicy_Validate_outcomes:
  "(AccessControlPolicy_Validate acp = None \<longrightarrow> (\<exists>r. policy_grants (acp_Grants acp) [] [] = Inr r))
   \<and> (AccessControlPolicy_Validate acp = Some NilPointer \<longleftrightarrow>
       (\<exists>pre g post. acp_Grants acp = pre @ g # post \<and> Permission_isValid (Grant_Permission g)
          \<and> Grant_Grantee g = None \<and> (\<forall>x \<in> set pre. Grant_isValid x = Some True)))"
proof
  show "AccessControlPolicy_Validate acp = None \<longrightarrow> (\<exists>r. policy_grants (acp_Grants acp) [] [] = Inr r)"
  proof
    assume "AccessControlPolicy_Validate acp = None"
    then have "AccessControlList_isValid (acp_Grants acp) = Some True"
      by (auto simp: AccessControlPolicy_Validate_def split: option.splits bool.splits)
    then show "\<exists>r. policy_grants (acp_Grants acp) [] [] = Inr r"
      by (intro policy_grants_ok) (simp add: AccessControlList_isValid_True)
  qed
  have "AccessControlPolicy_Validate acp = Some NilPointer \<longleftrightarrow> AccessControlList_isValid (acp_Grants acp) = None"
    by (auto simp: AccessControlPolicy_Validate_def split: option.splits bool.splits)
  moreover have "Grant_isValid g = None \<longleftrightarrow> Permission_isValid (Grant_Permission g) \<and> Grant_Grantee g = None" for g
    by (auto simp: Grant_isValid_def split: option.splits)
  ultimately show "AccessControlPolicy_Validate acp = Some NilPointer \<longleftrightarrow>
       (\<exists>pre g post. acp_Grants acp = pre @ g # post \<and> Permission_isValid (Grant_Permission g)
          \<and> Grant_Grantee g = None \<and> (\<forall>x \<in> set pre. Grant_isValid x = Some True))"
    by (simp add: AccessControlList_isValid_None)
qed

theorem AccessControlPolicy_Validate_outcomes_witness:
  "AccessControlPolicy_Validate
     \<lparr>acp_Grants = [\<lparr>Grant_Grantee = None, Grant_Permission = PermissionRead\<rparr>], acp_Owner = Some (Some ''bob'')\<rparr>
   = Some NilPointer"
proof -
  let ?g = "\<lparr>Grant_Grantee = None, Grant_Permission = PermissionRead\<rparr>"
  have "\<exists>pre g post. [?g] = pre @ g # post \<and> Permission_isValid (Grant_Permission g)
          \<and> Grant_Grantee g = None \<and> (\<forall>x \<in> set pre. Grant_isValid x = Some True)"
    by (intro exI [of _ "[]"] exI [of _ ?g]) (simp add: Permission_isValid_def)
  then show ?thesis
    using AccessControlPolicy_Validate_outcomes [of "\<lparr>acp_Grants = [?g], acp_Owner = Some (Some ''bob'')\<rparr>"]
    by simp
qed

text \<open>
  A change of owner installs an ACL under which the new owner alone has access, and
  deletes the bucket policy only after the ACL has been stored.
\<close>

theorem UpdateBucketACLOwner_calls:
  "\<exists>acl. (UpdateBucketACLOwner be bucket newOwner =
       (case be (PutBucketAcl bucket (ACL_MarshalJSON acl)) of
          Some e \<Rightarrow> ([PutBucketAcl bucket (ACL_MarshalJSON acl)], Some e)
        | None \<Rightarrow> ([PutBucketAcl bucket (ACL_MarshalJSON acl), DeleteBucketPolicy bucket],
                  be (DeleteBucketPolicy bucket))))
     \<and> (\<forall>access p d. verifyACL acl access p d = None \<longleftrightarrow> access = newOwner)"
  by (rule exI [of _ "\<lparr>acl_Owner = newOwner, acl_Grantees = [user_grantee PermissionFullControl newOwner]\<rparr>"])
     (auto simp: UpdateBucketACLOwner_def Let_def verifyACL_def user_grantee_def group_grantee_def
        split: option.splits)
end
