(* ===== verification/Access_Control.thy ===== *)
theory Access_Control
  imports Bucket_ACL
begin

text \<open>
  Authorization of requests (auth/access-control.go, auth/condition_context.go): the condition
  context of a request, the decision from bucket policy or ACL, the decision of the identity
  policies, and the way they are combined. The backend is a record of the read-only calls the
  code makes; the policy evaluator of the IAM service is \<open>None\<close> where the service has none.
\<close>

section \<open>Requests and their condition context\<close>

text \<open>
  What the code reads of a request: the time as formatted by the library, the transport, the
  peer address, headers and query parameters (the empty string where absent).
\<close>

record http_request =
  req_CurrentTime :: string
  req_EpochTime :: string
  req_Secure :: bool
  req_SecureResolved :: "bool option"
  req_IP :: string
  req_Get :: "string \<Rightarrow> string"
  req_Query :: "string \<Rightarrow> string"

definition FormatBool :: "bool \<Rightarrow> string" where
  "FormatBool b = (if b then ''true'' else ''false'')"

definition ctx_entry :: "string \<Rightarrow> string \<Rightarrow> ctx_vars" where
  "ctx_entry key v = (if v \<noteq> [] then [(key, [v])] else [])"

definition requestConditionContext :: "http_request \<Rightarrow> ctx_vars" where
  "requestConditionContext ctx =
     (let secure = (case req_SecureResolved ctx of Some resolved \<Rightarrow> resolved | None \<Rightarrow> req_Secure ctx)
      in [(''aws:CurrentTime'', [req_CurrentTime ctx]),
          (''aws:EpochTime'', [req_EpochTime ctx]),
          (''aws:SecureTransport'', [FormatBool secure])]
         @ ctx_entry ''aws:SourceIp'' (req_IP ctx)
         @ ctx_entry ''aws:UserAgent'' (req_Get ctx ''User-Agent'')
         @ ctx_entry ''aws:Referer'' (req_Get ctx ''Referer'')
         @ ctx_entry ''s3:prefix'' (req_Query ctx ''prefix'')
         @ ctx_entry ''s3:delimiter'' (req_Query ctx ''delimiter'')
         @ ctx_entry ''s3:max-keys'' (req_Query ctx ''max-keys'')
         @ ctx_entry ''s3:x-amz-acl'' (req_Get ctx ''X-Amz-Acl'')
         @ ctx_entry ''s3:x-amz-server-side-encryption'' (req_Get ctx ''x-amz-server-side-encryption'')
         @ ctx_entry ''s3:x-amz-server-side-encryption-aws-kms-key-id''
             (req_Get ctx ''x-amz-server-side-encryption-aws-kms-key-id'')
         @ ctx_entry ''s3:x-amz-server-side-encryption-customer-algorithm''
             (req_Get ctx ''x-amz-server-side-encryption-customer-algorithm'')
         @ ctx_entry ''s3:VersionId'' (req_Query ctx ''versionId''))"

section \<open>Options, backend and decisions\<close>

record AccessOptions =
  opt_Acl :: ACL
  opt_AclPermission :: Permission
  opt_IsRoot :: bool
  opt_Acc :: Account
  opt_Bucket :: string
  opt_Object :: string
  opt_Actions :: "Action list"
  opt_Readonly :: bool
  opt_IsPublicRequest :: bool
  opt_DisableACL :: bool
  opt_Iam :: "PolicyEvaluator option"

definition zero_AccessOptions :: AccessOptions where
  "zero_AccessOptions = \<lparr>opt_Acl = zero_ACL, opt_AclPermission = [], opt_IsRoot = False,
     opt_Acc = zero_Account, opt_Bucket = [], opt_Object = [], opt_Actions = [],
     opt_Readonly = False, opt_IsPublicRequest = False, opt_DisableACL = False, opt_Iam = None\<rparr>"

text \<open>
  The backend calls of authorization and object locking. \<open>GetObjectRetention\<close> and
  \<open>GetObjectLockConfiguration\<close> return stored JSON, \<open>GetObjectLegalHold\<close> a pointer to the status,
  \<open>GetBucketVersioning\<close> the status, \<open>None\<close> where it is nil.
\<close>

record backend =
  be_GetBucketPolicy :: "string \<Rightarrow> (go_error, json_bytes) result"
  be_GetBucketAcl :: "string \<Rightarrow> (go_error, raw_bytes) result"
  be_NormalizeObjectKey :: "string \<Rightarrow> string \<Rightarrow> string"
  be_GetBucketVersioning :: "string \<Rightarrow> (go_error, string option) result"
  be_GetObjectLockConfiguration :: "string \<Rightarrow> (go_error, json_bytes) result"
  be_GetObjectRetention :: "string \<Rightarrow> string \<Rightarrow> string \<Rightarrow> (go_error, json_bytes) result"
  be_GetObjectLegalHold :: "string \<Rightarrow> string \<Rightarrow> string \<Rightarrow> (go_error, bool option) result"

record decisionForResource =
  dfr_Decision :: policyDecision
  dfr_Action :: Action

record identityDecisions =
  id_Decisions :: "decisionForResource list"
  id_SessionDecisions :: "decisionForResource list"
  id_HasSessionPolicy :: bool
  id_PrincipalArn :: string

definition verifyAccessGates :: "AccessOptions \<Rightarrow> go_error option" where
  "verifyAccessGates opts =
     (if opt_Readonly opts
         \<and> (opt_AclPermission opts = PermissionWrite \<or> opt_AclPermission opts = PermissionWriteAcp)
      then Some (APIError ErrAccessDenied) else None)"

definition authorizationApplies :: "AccessOptions \<Rightarrow> bool" where
  "authorizationApplies opts \<longleftrightarrow>
     \<not> opt_IsPublicRequest opts \<and> \<not> opt_IsRoot opts \<and> Role (opt_Acc opts) \<noteq> RoleAdmin"

definition objectPolicyArn :: "string \<Rightarrow> string \<Rightarrow> objectKeyNormalizer \<Rightarrow> string" where
  "objectPolicyArn bucket object normalizeObjectKey =
     ResourceArnPrefix @ makePolicyResource bucket object normalizeObjectKey"

definition verifyResourceAccess ::
    "cond_host \<Rightarrow> backend \<Rightarrow> AccessOptions \<Rightarrow> string list \<Rightarrow> ctx_vars
      \<Rightarrow> (go_error, decisionForResource list) result" where
  "verifyResourceAccess h be opts objects condCtx =
     (case be_GetBucketPolicy be (opt_Bucket opts) of
        Inl policyErr \<Rightarrow>
          if \<not> errors_is policyErr ErrNoSuchBucketPolicy then Inl policyErr
          else
            let decision =
              (case verifyACL (opt_Acl opts) (Access (opt_Acc opts)) (opt_AclPermission opts) (opt_DisableACL opts) of
                 Some _ \<Rightarrow> policyDecisionNoMatch
               | None \<Rightarrow> policyDecisionAllow)
            in Inr (map (\<lambda>_. \<lparr>dfr_Decision = decision, dfr_Action = []\<rparr>) objects)
      | Inr policy \<Rightarrow>
          map_res (\<lambda>object.
            case verifyBucketPolicy h policy (Access (opt_Acc opts)) (opt_Bucket opts) object condCtx
                   (Some (be_NormalizeObjectKey be)) (opt_Actions opts) of
              Inl err \<Rightarrow> Inl err
            | Inr (decision, action) \<Rightarrow> Inr \<lparr>dfr_Decision = decision, dfr_Action = action\<rparr>) objects)"

text \<open>The inner loop of \<open>aggregateActionDecisions\<close> over one resource's decisions.\<close>

fun aggregate_row ::
    "decisionForResource \<Rightarrow> policyDecision list \<Rightarrow> Action list \<Rightarrow> decisionForResource" where
  "aggregate_row res (decision # ds) (action # acts) =
     (if decision = policyDecisionDeny then \<lparr>dfr_Decision = policyDecisionDeny, dfr_Action = action\<rparr>
      else if decision = policyDecisionNoMatch \<and> dfr_Decision res \<noteq> policyDecisionNoMatch then
        aggregate_row (res\<lparr>dfr_Decision := policyDecisionNoMatch, dfr_Action := action\<rparr>) ds acts
      else aggregate_row res ds acts)"
| "aggregate_row res _ _ = res"

definition aggregateActionDecisions ::
    "policyDecision list list \<Rightarrow> string list \<Rightarrow> Action list \<Rightarrow> (go_error, decisionForResource list) result" where
  "aggregateActionDecisions matrix resources acts =
     (if length matrix \<noteq> length resources then
        Inl (ErrorString (''evaluate policy returned '' @ itoa_nat (length matrix)
               @ '' resource decisions for '' @ itoa_nat (length resources) @ '' resources''))
      else map_res (\<lambda>perAction.
             if length perAction \<noteq> length acts then
               Inl (ErrorString (''evaluate policy returned '' @ itoa_nat (length perAction)
                      @ '' action decisions for '' @ itoa_nat (length acts) @ '' actions''))
             else Inr (aggregate_row \<lparr>dfr_Decision = policyDecisionAllow, dfr_Action = []\<rparr> perAction acts))
             matrix)"

definition identityPolicyDecisions ::
    "PolicyEvaluator \<Rightarrow> AccessOptions \<Rightarrow> string list \<Rightarrow> objectKeyNormalizer \<Rightarrow> ctx_vars
      \<Rightarrow> (go_error, identityDecisions) result" where
  "identityPolicyDecisions pe opts objects normalizeObjectKey condCtx =
     (let resources = map (\<lambda>object. objectPolicyArn (opt_Bucket opts) object normalizeObjectKey) objects
      in case pe (Access (opt_Acc opts)) (SessionToken (opt_Acc opts)) (opt_Actions opts) resources condCtx of
           Inl err \<Rightarrow> Inl err
         | Inr eval \<Rightarrow>
             (case aggregateActionDecisions (Decisions eval) resources (opt_Actions opts) of
                Inl err \<Rightarrow> Inl err
              | Inr decisions \<Rightarrow>
                  if HasSessionPolicy eval then
                    (case aggregateActionDecisions (SessionDecisions eval) resources (opt_Actions opts) of
                       Inl err \<Rightarrow> Inl err
                     | Inr sessionDecisions \<Rightarrow>
                         Inr \<lparr>id_Decisions = decisions, id_SessionDecisions = sessionDecisions,
                              id_HasSessionPolicy = True, id_PrincipalArn = PrincipalArn eval\<rparr>)
                  else
                    Inr \<lparr>id_Decisions = decisions, id_SessionDecisions = [],
                         id_HasSessionPolicy = False, id_PrincipalArn = PrincipalArn eval\<rparr>))"

text \<open>The body of the last loop of \<open>objectsAccessErrors\<close>, for the key at index \<open>i\<close>.\<close>

definition key_access_error ::
    "backend \<Rightarrow> AccessOptions \<Rightarrow> string list \<Rightarrow> decisionForResource list \<Rightarrow> identityDecisions \<Rightarrow> nat
      \<Rightarrow> go_error option" where
  "key_access_error be opts keys resourceDecisions identity i =
     (let idp = (if id_PrincipalArn identity = [] then Access (opt_Acc opts) else id_PrincipalArn identity);
          resourceArn = objectPolicyArn (opt_Bucket opts) (keys ! i) (Some (be_NormalizeObjectKey be));
          idd = id_Decisions identity ! i;
          sd = id_SessionDecisions identity ! i;
          rd = resourceDecisions ! i
      in if dfr_Decision idd = policyDecisionDeny then
           Some (ExplicitDeny idp (dfr_Action idd) resourceArn ''an identity-based policy'')
         else if id_HasSessionPolicy identity \<and> dfr_Decision sd = policyDecisionDeny then
           Some (ExplicitDeny idp (dfr_Action sd) resourceArn ''an identity-based policy'')
         else
           let granted = (dfr_Decision rd = policyDecisionAllow \<or> dfr_Decision idd = policyDecisionAllow);
               granted = (if id_HasSessionPolicy identity \<and> dfr_Decision sd \<noteq> policyDecisionAllow then False
                          else granted)
           in if granted then None
              else
                let blamedAction = dfr_Action rd;
                    blamedAction = (if blamedAction = [] then dfr_Action idd else blamedAction);
                    blamedAction = (if blamedAction = [] \<and> id_HasSessionPolicy identity then dfr_Action sd
                                    else blamedAction)
                in Some (ImplicitDeny idp blamedAction resourceArn))"

text \<open>The index of the first element that satisfies a predicate.\<close>

fun first_index :: "('a \<Rightarrow> bool) \<Rightarrow> 'a list \<Rightarrow> nat option" where
  "first_index P [] = None"
| "first_index P (x # xs) = (if P x then Some 0 else map_option Suc (first_index P xs))"

definition objectsAccessErrors ::
    "cond_host \<Rightarrow> backend \<Rightarrow> AccessOptions \<Rightarrow> string list \<Rightarrow> ctx_vars
      \<Rightarrow> (go_error, go_error option list) result" where
  "objectsAccessErrors h be opts keys condCtx =
     (case verifyResourceAccess h be opts keys condCtx of
        Inl err \<Rightarrow> Inl err
      | Inr resourceDecisions \<Rightarrow>
          (case first_index (\<lambda>rd. dfr_Decision rd = policyDecisionDeny) resourceDecisions of
             Some i \<Rightarrow>
               Inr ((replicate (length keys) None)
                 [i := Some (ExplicitDeny (Access (opt_Acc opts)) (dfr_Action (resourceDecisions ! i))
                        (objectPolicyArn (opt_Bucket opts) (keys ! i) (Some (be_NormalizeObjectKey be)))
                        ''a resource-based policy'')])
           | None \<Rightarrow>
               (case opt_Iam opts of
                  None \<Rightarrow>
                    Inr (map (\<lambda>rd. if dfr_Decision rd \<noteq> policyDecisionAllow
                                    then Some (APIError ErrAccessDenied) else None) resourceDecisions)
                | Some pe \<Rightarrow>
                    (case identityPolicyDecisions pe opts keys (Some (be_NormalizeObjectKey be)) condCtx of
                       Inl err \<Rightarrow> Inl err
                     | Inr identity \<Rightarrow>
                         Inr (map (key_access_error be opts keys resourceDecisions identity)
                                [0..<length keys])))))"

definition VerifyAccess ::
    "cond_host \<Rightarrow> http_request \<Rightarrow> backend \<Rightarrow> AccessOptions \<Rightarrow> go_error option" where
  "VerifyAccess h ctx be opts =
     (case verifyAccessGates opts of
        Some err \<Rightarrow> Some err
      | None \<Rightarrow>
          if \<not> authorizationApplies opts then None
          else case objectsAccessErrors h be opts [opt_Object opts] (requestConditionContext ctx) of
              Inl err \<Rightarrow> Some err
            | Inr errs \<Rightarrow> errs ! 0)"

definition VerifyObjectCopyAccess ::
    "cond_host \<Rightarrow> http_request \<Rightarrow> backend \<Rightarrow> string \<Rightarrow> AccessOptions \<Rightarrow> go_error option" where
  "VerifyObjectCopyAccess h ctx be copySource opts =
     (case VerifyAccess h ctx be opts of
        Some err \<Rightarrow> Some err
      | None \<Rightarrow>
          if opt_IsRoot opts then None
          else if Role (opt_Acc opts) = RoleAdmin then None
          else case QueryUnescape copySource of
              None \<Rightarrow> Some (InvalidArgument InvalidArgCopySourceEncoding copySource)
            | Some decodedSrc \<Rightarrow>
                (case Cut decodedSrc ''/'' of
                   None \<Rightarrow> Some (InvalidArgument InvalidArgCopySourceBucket copySource)
                 | Some (srcBucket, srcObject) \<Rightarrow>
                     (case be_GetBucketAcl be srcBucket of
                        Inl err \<Rightarrow> Some err
                      | Inr srcBucketACLBytes \<Rightarrow>
                          (case unmarshal_ACL srcBucketACLBytes of
                             Inl err \<Rightarrow> Some err
                           | Inr srcBucketAcl \<Rightarrow>
                               VerifyAccess h ctx be
                                 (zero_AccessOptions\<lparr>opt_Acl := srcBucketAcl,
                                    opt_AclPermission := PermissionRead, opt_IsRoot := opt_IsRoot opts,
                                    opt_Acc := opt_Acc opts, opt_Bucket := srcBucket,
                                    opt_Object := srcObject, opt_Actions := [GetObjectAction],
                                    opt_Iam := opt_Iam opts, opt_DisableACL := opt_DisableACL opts\<rparr>)))))"

definition publicACLAllowedActions :: "Action list" where
  "publicACLAllowedActions =
     [ListBucketAction, PutObjectAction, ListBucketMultipartUploadsAction, DeleteObjectAction,
      ListBucketVersionsAction, GetObjectAction, GetObjectAttributesAction, GetObjectAclAction]"

definition methodNotAllowed :: "string \<Rightarrow> go_error" where
  "methodNotAllowed method = CodedError ErrMethodNotAllowed [method, ''BUCKETPOLICY'']"

text \<open>The fallback of \<open>VerifyPublicAccess\<close> to the ACL of the bucket.\<close>

definition public_acl_fallback :: "backend \<Rightarrow> Action \<Rightarrow> Permission \<Rightarrow> string \<Rightarrow> go_error option" where
  "public_acl_fallback be action permission bucket =
     (if action \<notin> set publicACLAllowedActions then Some (APIError ErrAccessDenied)
      else case VerifyPublicBucketACL (be_GetBucketAcl be) bucket permission of
          Some _ \<Rightarrow> Some (APIError ErrAccessDenied)
        | None \<Rightarrow> None)"

definition VerifyPublicAccess ::
    "cond_host \<Rightarrow> http_request \<Rightarrow> backend \<Rightarrow> Action \<Rightarrow> Permission \<Rightarrow> string \<Rightarrow> string \<Rightarrow> go_error option" where
  "VerifyPublicAccess h ctx be action permission bucket object =
     (case be_GetBucketPolicy be bucket of
        Inl err \<Rightarrow>
          if \<not> errors_is err ErrNoSuchBucketPolicy then Some err
          else public_acl_fallback be action permission bucket
      | Inr policy \<Rightarrow>
          (case VerifyPublicBucketPolicy h policy bucket object (requestConditionContext ctx)
                  (Some (be_NormalizeObjectKey be)) action of
             None \<Rightarrow>
               if action = GetBucketPolicyAction then Some (methodNotAllowed ''GET'')
               else if action = PutBucketPolicyAction then Some (methodNotAllowed ''PUT'')
               else if action = DeleteBucketPolicyAction then Some (methodNotAllowed ''DELETE'')
               else None
           | Some err \<Rightarrow>
               if err = errExplicitDeny then Some (APIError ErrAccessDenied)
               else public_acl_fallback be action permission bucket))"

definition verifyIdentityOnlyAccess ::
    "http_request \<Rightarrow> PolicyEvaluator \<Rightarrow> Account \<Rightarrow> Action \<Rightarrow> string \<Rightarrow> go_error option" where
  "verifyIdentityOnlyAccess ctx pe acc action resource =
     (let resourceArn = ResourceArnPrefix @ resource
      in case identityPolicyDecisions pe
                (zero_AccessOptions\<lparr>opt_Acc := acc, opt_Bucket := resource, opt_Actions := [action]\<rparr>)
                [''''] None (requestConditionContext ctx) of
           Inl err \<Rightarrow> Some err
         | Inr identity \<Rightarrow>
             let idp = (if id_PrincipalArn identity = [] then Access acc else id_PrincipalArn identity);
                 decision = dfr_Decision (id_Decisions identity ! 0);
                 sd = dfr_Decision (id_SessionDecisions identity ! 0);
                 decision =
                   (if id_HasSessionPolicy identity then
                      (if sd = policyDecisionDeny then policyDecisionDeny
                       else if sd \<noteq> policyDecisionAllow \<and> decision = policyDecisionAllow then policyDecisionNoMatch
                       else decision)
                    else decision)
             in case decision of
                  policyDecisionDeny \<Rightarrow> Some (ExplicitDeny idp action resourceArn ''an identity-based policy'')
                | policyDecisionAllow \<Rightarrow> None
                | policyDecisionNoMatch \<Rightarrow> Some (ImplicitDeny idp action resourceArn))"

definition VerifyCreateBucketAccess ::
    "http_request \<Rightarrow> PolicyEvaluator option \<Rightarrow> bool \<Rightarrow> Account \<Rightarrow> string \<Rightarrow> go_error option" where
  "VerifyCreateBucketAccess ctx iam isRoot acc bucket =
     (if isRoot \<or> Role acc = RoleAdmin then None
      else case iam of
          None \<Rightarrow> if Role acc = RoleUserPlus then None else Some (APIError ErrAccessDenied)
        | Some pe \<Rightarrow> verifyIdentityOnlyAccess ctx pe acc CreateBucketAction bucket)"

definition VerifyListAllMyBucketsAccess ::
    "http_request \<Rightarrow> PolicyEvaluator option \<Rightarrow> bool \<Rightarrow> Account \<Rightarrow> go_error option" where
  "VerifyListAllMyBucketsAccess ctx iam isRoot acc =
     (if isRoot \<or> Role acc = RoleAdmin then None
      else case iam of
          None \<Rightarrow> None
        | Some pe \<Rightarrow> verifyIdentityOnlyAccess ctx pe acc ListAllMyBucketsAction ''*'')"

definition IsAdminOrOwner :: "Account \<Rightarrow> bool \<Rightarrow> ACL \<Rightarrow> go_error option" where
  "IsAdminOrOwner acct isRoot acl =
     (if Access acct = acl_Owner acl then None
      else if isRoot then None
      else if Role acct = RoleAdmin then None
      else Some (APIError ErrAccessDenied))"

section \<open>The condition context\<close>

definition contextKeys :: "string list" where
  "contextKeys =
     [''aws:CurrentTime'', ''aws:EpochTime'', ''aws:SecureTransport'', ''aws:SourceIp'', ''aws:UserAgent'',
      ''aws:Referer'', ''s3:prefix'', ''s3:delimiter'', ''s3:max-keys'', ''s3:x-amz-acl'',
      ''s3:x-amz-server-side-encryption'', ''s3:x-amz-server-side-encryption-aws-kms-key-id'',
      ''s3:x-amz-server-side-encryption-customer-algorithm'', ''s3:VersionId'']"

lemma subseq_ctx_entry: "subseq (map fst (ctx_entry k v)) [k]"
  by (simp add: ctx_entry_def)

lemma contextKeys_distinct: "distinct (map ToLower contextKeys)"
  by code_simp

lemma subseq_Cons_append: "subseq a [k] \<Longrightarrow> subseq b ks \<Longrightarrow> subseq (a @ b) (k # ks)"
  using list_emb_append_mono [of "(=)" a "[k]" b ks] by simp

lemma requestConditionContext_keys: "subseq (map fst (requestConditionContext ctx)) contextKeys"
  unfolding requestConditionContext_def contextKeys_def Let_def map_append list.map append_Cons append_Nil fst_conv
  by (intro subseq_Cons_append subseq_ctx_entry subseq_Cons2 |
      rule subseq_ctx_entry)+

lemma requestConditionContext_distinct: "fold_distinct (requestConditionContext ctx)"
proof -
  have "subseq (map ToLower (map fst (requestConditionContext ctx))) (map ToLower contextKeys)"
    by (rule subseq_map [OF requestConditionContext_keys])
  then have "distinct (map ToLower (map fst (requestConditionContext ctx)))"
    using contextKeys_distinct by (auto simp: subseq_conv_nths intro: distinct_nthsI)
  then show ?thesis by (simp add: fold_distinct_def)
qed

section \<open>Aggregation\<close>

definition row_decision :: "policyDecision list \<Rightarrow> policyDecision" where
  "row_decision ds =
     (if policyDecisionDeny \<in> set ds then policyDecisionDeny
      else if policyDecisionNoMatch \<in> set ds then policyDecisionNoMatch
      else policyDecisionAllow)"

lemma aggregate_row_decision:
  assumes "length ds = length acts" "dfr_Decision res \<noteq> policyDecisionDeny"
  shows "dfr_Decision (aggregate_row res ds acts) =
    (if policyDecisionDeny \<in> set ds then policyDecisionDeny
     else if policyDecisionNoMatch \<in> set ds then policyDecisionNoMatch
     else dfr_Decision res)"
  using assms
proof (induction res ds acts rule: aggregate_row.induct)
  case (1 res d ds a acts)
  then show ?case by (cases d) auto
qed auto

lemma aggregate_row_Allow:
  "length ds = length acts \<Longrightarrow>
   dfr_Decision (aggregate_row \<lparr>dfr_Decision = policyDecisionAllow, dfr_Action = []\<rparr> ds acts) = row_decision ds"
  by (simp add: aggregate_row_decision row_decision_def)

lemma aggregateActionDecisions_Inr:
  "aggregateActionDecisions matrix resources acts = Inr ds \<longleftrightarrow>
     length matrix = length resources \<and> length ds = length resources \<and>
     (\<forall>i < length resources. length (matrix ! i) = length acts \<and>
        ds ! i = aggregate_row \<lparr>dfr_Decision = policyDecisionAllow, dfr_Action = []\<rparr> (matrix ! i) acts)"
  by (auto simp: aggregateActionDecisions_def map_res_Inr split: if_splits)


lemma first_index_Some:
  "first_index P xs = Some i \<longleftrightarrow> i < length xs \<and> P (xs ! i) \<and> (\<forall>j < i. \<not> P (xs ! j))"
proof (induction xs arbitrary: i)
  case (Cons x xs)
  then show ?case by (cases i) (auto simp: less_Suc_eq_0_disj)
qed simp

lemma verifyResourceAccess_length:
  "verifyResourceAccess h be opts keys c = Inr rds \<Longrightarrow> length rds = length keys"
  by (auto simp: verifyResourceAccess_def Let_def map_res_length split: sum.splits if_splits)

lemma identityPolicyDecisions_iff:
  "identityPolicyDecisions pe opts keys nrm c = Inr identity \<longleftrightarrow>
     (\<exists>eval. pe (Access (opt_Acc opts)) (SessionToken (opt_Acc opts)) (opt_Actions opts)
          (map (\<lambda>key. objectPolicyArn (opt_Bucket opts) key nrm) keys) c = Inr eval
        \<and> aggregateActionDecisions (Decisions eval)
            (map (\<lambda>key. objectPolicyArn (opt_Bucket opts) key nrm) keys) (opt_Actions opts)
            = Inr (id_Decisions identity)
        \<and> id_HasSessionPolicy identity = HasSessionPolicy eval
        \<and> id_PrincipalArn identity = PrincipalArn eval
        \<and> (if HasSessionPolicy eval then
             aggregateActionDecisions (SessionDecisions eval)
               (map (\<lambda>key. objectPolicyArn (opt_Bucket opts) key nrm) keys) (opt_Actions opts)
               = Inr (id_SessionDecisions identity)
           else id_SessionDecisions identity = []))"
  by (cases identity) (auto simp: identityPolicyDecisions_def Let_def split: sum.splits)

lemma identityPolicyDecisions_length:
  assumes "identityPolicyDecisions pe opts keys nrm c = Inr identity"
  shows "length (id_Decisions identity) = length keys"
    "id_HasSessionPolicy identity \<Longrightarrow> length (id_SessionDecisions identity) = length keys"
  using assms by (auto simp: identityPolicyDecisions_iff aggregateActionDecisions_Inr)

section \<open>The decision for one key\<close>

text \<open>What the evaluation of the identity policies has to say for a request to pass.\<close>

definition evaluation_grants :: "PolicyEvaluation \<Rightarrow> nat \<Rightarrow> policyDecision \<Rightarrow> bool" where
  "evaluation_grants eval n rd \<longleftrightarrow>
     (\<exists>ds. Decisions eval = [ds] \<and> length ds = n \<and> row_decision ds \<noteq> policyDecisionDeny
        \<and> (rd = policyDecisionAllow \<or> row_decision ds = policyDecisionAllow))
     \<and> (HasSessionPolicy eval \<longrightarrow>
          (\<exists>ss. SessionDecisions eval = [ss] \<and> length ss = n \<and> row_decision ss = policyDecisionAllow))"

lemma key_access_error_None:
  "key_access_error be opts keys rds identity i = None \<longleftrightarrow>
     dfr_Decision (id_Decisions identity ! i) \<noteq> policyDecisionDeny
     \<and> (dfr_Decision (rds ! i) = policyDecisionAllow
        \<or> dfr_Decision (id_Decisions identity ! i) = policyDecisionAllow)
     \<and> (id_HasSessionPolicy identity \<longrightarrow>
          dfr_Decision (id_SessionDecisions identity ! i) = policyDecisionAllow)"
  by (auto simp: key_access_error_def Let_def)

lemma length_1_iff: "length xs = Suc 0 \<longleftrightarrow> (\<exists>x. xs = [x])"
  by (cases xs) auto

lemma aggregate_single_key:
  "aggregateActionDecisions m [arn] acts = Inr ds \<longleftrightarrow>
     (\<exists>r. m = [r] \<and> length r = length acts
       \<and> ds = [aggregate_row \<lparr>dfr_Decision = policyDecisionAllow, dfr_Action = []\<rparr> r acts])"
  by (auto simp: aggregateActionDecisions_Inr length_1_iff)

lemma identity_single_key:
  assumes "pe (Access (opt_Acc opts)) (SessionToken (opt_Acc opts)) (opt_Actions opts)
             [objectPolicyArn (opt_Bucket opts) key nrm] c = Inr eval"
  shows "(\<exists>identity. identityPolicyDecisions pe opts [key] nrm c = Inr identity
      \<and> key_access_error be opts [key] [rd] identity 0 = None) \<longleftrightarrow>
   evaluation_grants eval (length (opt_Actions opts)) (dfr_Decision rd)" (is "?L \<longleftrightarrow> ?R")
proof
  assume ?L
  then show ?R
    using assms
    by (auto simp: identityPolicyDecisions_iff aggregate_single_key key_access_error_None
        evaluation_grants_def aggregate_row_Allow split: if_splits)
next
  assume R: ?R
  let ?agg = "\<lambda>r. [aggregate_row \<lparr>dfr_Decision = policyDecisionAllow, dfr_Action = []\<rparr> r (opt_Actions opts)]"
  from R obtain ds where ds: "Decisions eval = [ds]" "length ds = length (opt_Actions opts)"
      "row_decision ds \<noteq> policyDecisionDeny"
      "dfr_Decision rd = policyDecisionAllow \<or> row_decision ds = policyDecisionAllow"
    by (auto simp: evaluation_grants_def)
  show ?L
  proof (cases "HasSessionPolicy eval")
    case True
    with R obtain ss where ss: "SessionDecisions eval = [ss]" "length ss = length (opt_Actions opts)"
        "row_decision ss = policyDecisionAllow"
      by (auto simp: evaluation_grants_def)
    show ?thesis
      by (rule exI [of _ "\<lparr>id_Decisions = ?agg ds, id_SessionDecisions = ?agg ss,
            id_HasSessionPolicy = True, id_PrincipalArn = PrincipalArn eval\<rparr>"])
         (use assms True ds ss in \<open>auto simp: identityPolicyDecisions_iff aggregate_single_key
            key_access_error_None aggregate_row_Allow\<close>)
  next
    case False
    show ?thesis
      by (rule exI [of _ "\<lparr>id_Decisions = ?agg ds, id_SessionDecisions = [],
            id_HasSessionPolicy = False, id_PrincipalArn = PrincipalArn eval\<rparr>"])
         (use assms False ds in \<open>auto simp: identityPolicyDecisions_iff aggregate_single_key
            key_access_error_None aggregate_row_Allow\<close>)
  qed
qed

text \<open>The decision of the bucket policy or the ACL that a single-key request needs.\<close>

definition key_granted ::
    "cond_host \<Rightarrow> backend \<Rightarrow> AccessOptions \<Rightarrow> string \<Rightarrow> ctx_vars \<Rightarrow> bool" where
  "key_granted h be opts key c \<longleftrightarrow>
     (\<exists>rd. verifyResourceAccess h be opts [key] c = Inr [rd] \<and> dfr_Decision rd \<noteq> policyDecisionDeny
        \<and> (case opt_Iam opts of
             None \<Rightarrow> dfr_Decision rd = policyDecisionAllow
           | Some pe \<Rightarrow>
               (\<exists>eval. pe (Access (opt_Acc opts)) (SessionToken (opt_Acc opts)) (opt_Actions opts)
                    [objectPolicyArn (opt_Bucket opts) key (Some (be_NormalizeObjectKey be))] c = Inr eval
                  \<and> evaluation_grants eval (length (opt_Actions opts)) (dfr_Decision rd))))"

lemma objectsAccessErrors_single:
  "objectsAccessErrors h be opts [key] c = Inr [None] \<longleftrightarrow> key_granted h be opts key c"
proof (cases "verifyResourceAccess h be opts [key] c")
  case (Inl e)
  then show ?thesis by (simp add: objectsAccessErrors_def key_granted_def)
next
  case (Inr rds)
  then obtain rd where rds: "rds = [rd]"
    using verifyResourceAccess_length [of h be opts "[key]" c rds] by (auto simp: length_1_iff)
  let ?n = "Some (be_NormalizeObjectKey be)"
  show ?thesis
  proof (cases "dfr_Decision rd = policyDecisionDeny \<or> opt_Iam opts = None")
    case True
    with Inr rds show ?thesis
      by (auto simp: objectsAccessErrors_def key_granted_def split: option.splits)
  next
    case False
    then obtain pe where pe: "opt_Iam opts = Some pe" by auto
    have "objectsAccessErrors h be opts [key] c = Inr [None] \<longleftrightarrow>
        (\<exists>identity. identityPolicyDecisions pe opts [key] ?n c = Inr identity
           \<and> key_access_error be opts [key] [rd] identity 0 = None)"
      using Inr rds False pe by (simp add: objectsAccessErrors_def split: sum.splits)
    also have "\<dots> \<longleftrightarrow> key_granted h be opts key c"
    proof (cases "pe (Access (opt_Acc opts)) (SessionToken (opt_Acc opts)) (opt_Actions opts)
        [objectPolicyArn (opt_Bucket opts) key ?n] c")
      case (Inl e)
      with Inr rds False pe show ?thesis by (simp add: key_granted_def identityPolicyDecisions_def)
    next
      case (Inr eval)
      note identity_single_key [where pe = pe and opts = opts, OF Inr, of be rd]
      with \<open>verifyResourceAccess h be opts [key] c = Inr rds\<close> rds False pe Inr show ?thesis
        by (simp add: key_granted_def)
    qed
    finally show ?thesis .
  qed
qed

lemma objectsAccessErrors_length:
  "objectsAccessErrors h be opts keys c = Inr errs \<Longrightarrow> length errs = length keys"
  by (auto simp: objectsAccessErrors_def dest: verifyResourceAccess_length
      split: sum.splits option.splits)

lemma VerifyAccess_None:
  "VerifyAccess h ctx be opts = None \<longleftrightarrow>
     verifyAccessGates opts = None \<and>
     (authorizationApplies opts \<longrightarrow>
        key_granted h be opts (opt_Object opts) (requestConditionContext ctx))"
proof -
  have "(case objectsAccessErrors h be opts [key] c of Inl err \<Rightarrow> Some err | Inr errs \<Rightarrow> errs ! 0) = None \<longleftrightarrow>
      objectsAccessErrors h be opts [key] c = Inr [None]" for key c
    using objectsAccessErrors_length [of h be opts "[key]" c]
    by (auto simp: length_1_iff split: sum.splits)
  then show ?thesis
    by (simp add: VerifyAccess_def objectsAccessErrors_single split: option.splits)
qed

section \<open>Many keys\<close>




section \<open>Properties\<close>

text \<open>
  C1. A request passes \<open>VerifyAccess\<close> exactly when the read-only gate does not stop it and
  either authorization does not apply to the caller (root, admin, public request), or: the
  bucket policy (or the ACL where there is none) does not deny, no identity policy and no
  session policy denies, one of bucket policy and identity policy allows every action, and the
  session policy, where there is one, allows every action too. An evaluator that fails or
  answers in the wrong shape grants nothing.
\<close>

theorem VerifyAccess_precedence:
  "VerifyAccess h ctx be opts = None \<longleftrightarrow>
     verifyAccessGates opts = None \<and>
     (authorizationApplies opts \<longrightarrow>
        key_granted h be opts (opt_Object opts) (requestConditionContext ctx))"
  by (rule VerifyAccess_None)

definition demo_backend :: "json_bytes option \<Rightarrow> backend" where
  "demo_backend policy =
     \<lparr>be_GetBucketPolicy = (\<lambda>_. case policy of None \<Rightarrow> Inl (APIError ErrNoSuchBucketPolicy) | Some p \<Rightarrow> Inr p),
      be_GetBucketAcl = (\<lambda>_. Inr EmptyBytes), be_NormalizeObjectKey = (\<lambda>b k. k),
      be_GetBucketVersioning = (\<lambda>_. Inr None),
      be_GetObjectLockConfiguration = (\<lambda>_. Inl (APIError ErrObjectLockConfigurationNotFound)),
      be_GetObjectRetention = (\<lambda>_ _ _. Inl (APIError ErrNoSuchObjectLockConfiguration)),
      be_GetObjectLegalHold = (\<lambda>_ _ _. Inl (APIError ErrNoSuchObjectLockConfiguration))\<rparr>"

definition demo_request :: http_request where
  "demo_request = \<lparr>req_CurrentTime = ''2026-01-01T00:00:00Z'', req_EpochTime = ''1767225600'',
     req_Secure = True, req_SecureResolved = None, req_IP = ''10.0.0.1'', req_Get = (\<lambda>_. []),
     req_Query = (\<lambda>_. [])\<rparr>"

definition const_evaluator :: "policyDecision \<Rightarrow> PolicyEvaluator" where
  "const_evaluator d a t acts rs c =
     Inr \<lparr>Decisions = map (\<lambda>_. map (\<lambda>_. d) acts) rs, SessionDecisions = map (\<lambda>_. map (\<lambda>_. d) acts) rs,
          HasSessionPolicy = False, PrincipalArn = ''arn:aws:iam::1:user/alice''\<rparr>"

definition demo_opts :: "string \<Rightarrow> Action \<Rightarrow> PolicyEvaluator option \<Rightarrow> AccessOptions" where
  "demo_opts key action pe = zero_AccessOptions\<lparr>opt_Acc := demo_user, opt_Bucket := ''b'',
     opt_Object := key, opt_Actions := [action], opt_AclPermission := PermissionRead, opt_Iam := pe\<rparr>"

theorem VerifyAccess_precedence_witness:
  "VerifyAccess null_host demo_request (demo_backend (Some (Some public_read_json)))
     (demo_opts ''k'' GetObjectAction (Some (const_evaluator policyDecisionNoMatch))) = None
   \<and> VerifyAccess null_host demo_request (demo_backend (Some (Some public_read_json)))
     (demo_opts ''k'' GetObjectAction (Some (const_evaluator policyDecisionDeny))) \<noteq> None"
proof -
  let ?be = "demo_backend (Some (Some public_read_json))"
  let ?o = "\<lambda>d. demo_opts ''k'' GetObjectAction (Some (const_evaluator d))"
  have g: "verifyAccessGates (?o d) = None" "authorizationApplies (?o d)" for d
    by (simp_all add: verifyAccessGates_def authorizationApplies_def demo_opts_def zero_AccessOptions_def
        demo_user_def RoleUser_def RoleAdmin_def)
  have r: "verifyResourceAccess null_host ?be (?o d) [''k''] (requestConditionContext demo_request) =
      Inr [\<lparr>dfr_Decision = policyDecisionAllow, dfr_Action = []\<rparr>]" for d
  proof -
    have "verifyBucketPolicy null_host (Some public_read_json) ''alice'' ''b'' ''k''
        (requestConditionContext demo_request) (Some (\<lambda>b k. k)) [GetObjectAction] = Inr (policyDecisionAllow, [])"
      by code_simp
    then show ?thesis
      by (simp add: verifyResourceAccess_def demo_backend_def demo_opts_def zero_AccessOptions_def
          demo_user_def zero_Account_def)
  qed
  have "key_granted null_host ?be (?o policyDecisionNoMatch) ''k'' (requestConditionContext demo_request)"
    "\<not> key_granted null_host ?be (?o policyDecisionDeny) ''k'' (requestConditionContext demo_request)"
    using r by (simp_all add: key_granted_def demo_opts_def zero_AccessOptions_def const_evaluator_def
        evaluation_grants_def row_decision_def)
  then show ?thesis using g
    VerifyAccess_precedence [of null_host demo_request ?be "?o policyDecisionNoMatch"]
    VerifyAccess_precedence [of null_host demo_request ?be "?o policyDecisionDeny"]
    by (simp add: demo_opts_def zero_AccessOptions_def)
qed

text \<open>
  In a batch of keys, the first key that the bucket policy denies is the only one that
  gets an error: every other key of the batch comes back without one, also the keys the policy
  denies as well and the keys nothing allows.
\<close>

theorem batch_deny_clears_other_keys:
  assumes "verifyResourceAccess h be opts keys condCtx = Inr rds" "i < length keys"
    and "dfr_Decision (rds ! i) = policyDecisionDeny"
    and "\<forall>j < i. dfr_Decision (rds ! j) \<noteq> policyDecisionDeny"
  shows "\<exists>errs. objectsAccessErrors h be opts keys condCtx = Inr errs \<and> errs ! i \<noteq> None
    \<and> (\<forall>j < length keys. j \<noteq> i \<longrightarrow> errs ! j = None)"
proof -
  have "first_index (\<lambda>rd. dfr_Decision rd = policyDecisionDeny) rds = Some i"
    using assms verifyResourceAccess_length [OF assms(1)] by (simp add: first_index_Some)
  with assms(1,2) show ?thesis by (simp add: objectsAccessErrors_def)
qed

definition deny_delete_json :: json where
  "deny_delete_json = JObj
     [(''Statement'', JArr [JObj
         [(''Effect'', JStr ''Deny''), (''Principal'', JStr ''*''),
          (''Action'', JStr ''s3:DeleteObject''), (''Resource'', JStr ''arn:aws:s3:::b/*'')]])]"

lemma deny_delete_decisions:
  "verifyResourceAccess null_host (demo_backend (Some (Some deny_delete_json)))
     (demo_opts [] DeleteObjectAction None) [''x'', ''y''] [] =
   Inr [\<lparr>dfr_Decision = policyDecisionDeny, dfr_Action = DeleteObjectAction\<rparr>,
        \<lparr>dfr_Decision = policyDecisionDeny, dfr_Action = DeleteObjectAction\<rparr>]"
proof -
  have "verifyBucketPolicy null_host (Some deny_delete_json) ''alice'' ''b'' ''x'' [] (Some (\<lambda>b k. k)) [DeleteObjectAction] =
      Inr (policyDecisionDeny, DeleteObjectAction)"
    "verifyBucketPolicy null_host (Some deny_delete_json) ''alice'' ''b'' ''y'' [] (Some (\<lambda>b k. k)) [DeleteObjectAction] =
      Inr (policyDecisionDeny, DeleteObjectAction)"
    by code_simp+
  then show ?thesis
    by (simp add: verifyResourceAccess_def demo_backend_def demo_opts_def zero_AccessOptions_def
        demo_user_def zero_Account_def)
qed

theorem batch_deny_clears_other_keys_witness:
  "\<exists>errs. objectsAccessErrors null_host (demo_backend (Some (Some deny_delete_json)))
     (demo_opts [] DeleteObjectAction None) [''x'', ''y''] [] = Inr errs \<and> errs ! 0 \<noteq> None \<and> errs ! 1 = None"
  using batch_deny_clears_other_keys [OF deny_delete_decisions, of 0] by auto




text \<open>
  C24. Anonymous access is granted only by a bucket policy that allows it, for an action that
  is not a policy action, or by a public ACL, for one of the few actions ACLs cover. A bucket
  policy that denies the anonymous caller is final: no ACL overrides it.
\<close>

theorem VerifyPublicAccess_sound:
  "(VerifyPublicAccess h ctx be action permission bucket object = None \<longrightarrow>
      (\<exists>policy bp. be_GetBucketPolicy be bucket = Inr policy \<and> unmarshal_policy policy = Inr bp
         \<and> publicDecisionFor h bp (makePolicyResource bucket object (Some (be_NormalizeObjectKey be))) action
             (requestConditionContext ctx) (Some (be_NormalizeObjectKey be)) = policyDecisionAllow
         \<and> action \<notin> {GetBucketPolicyAction, PutBucketPolicyAction, DeleteBucketPolicyAction})
      \<or> (\<exists>bytes acl. be_GetBucketAcl be bucket = Inr bytes \<and> ParseACL bytes = Inr acl
         \<and> ACL_IsPublic acl permission \<and> action \<in> set publicACLAllowedActions))
   \<and> (be_GetBucketPolicy be bucket = Inr policy' \<longrightarrow> unmarshal_policy policy' = Inr bp' \<longrightarrow>
      publicDecisionFor h bp' (makePolicyResource bucket object (Some (be_NormalizeObjectKey be))) action
        (requestConditionContext ctx) (Some (be_NormalizeObjectKey be)) = policyDecisionDeny \<longrightarrow>
      VerifyPublicAccess h ctx be action permission bucket object = Some (APIError ErrAccessDenied))"
proof (intro conjI impI)
  have acl: "public_acl_fallback be action permission bucket = None \<Longrightarrow>
      \<exists>bytes acl. be_GetBucketAcl be bucket = Inr bytes \<and> ParseACL bytes = Inr acl
         \<and> ACL_IsPublic acl permission \<and> action \<in> set publicACLAllowedActions"
    by (auto simp: public_acl_fallback_def VerifyPublicBucketACL_def split: if_splits option.splits sum.splits)
  have policy: "VerifyPublicBucketPolicy h policy bucket object c nrm action = None \<Longrightarrow>
      \<exists>bp. unmarshal_policy policy = Inr bp
        \<and> publicDecisionFor h bp (makePolicyResource bucket object nrm) action c nrm = policyDecisionAllow"
    for policy c nrm
    by (auto simp: VerifyPublicBucketPolicy_def split: sum.splits policyDecision.splits)
  assume "VerifyPublicAccess h ctx be action permission bucket object = None"
  then show "(\<exists>policy bp. be_GetBucketPolicy be bucket = Inr policy \<and> unmarshal_policy policy = Inr bp
         \<and> publicDecisionFor h bp (makePolicyResource bucket object (Some (be_NormalizeObjectKey be))) action
             (requestConditionContext ctx) (Some (be_NormalizeObjectKey be)) = policyDecisionAllow
         \<and> action \<notin> {GetBucketPolicyAction, PutBucketPolicyAction, DeleteBucketPolicyAction})
      \<or> (\<exists>bytes acl. be_GetBucketAcl be bucket = Inr bytes \<and> ParseACL bytes = Inr acl
         \<and> ACL_IsPublic acl permission \<and> action \<in> set publicACLAllowedActions)"
    unfolding VerifyPublicAccess_def using acl policy
    by (fastforce split: sum.splits option.splits if_splits)
next
  assume "be_GetBucketPolicy be bucket = Inr policy'" "unmarshal_policy policy' = Inr bp'"
    "publicDecisionFor h bp' (makePolicyResource bucket object (Some (be_NormalizeObjectKey be))) action
        (requestConditionContext ctx) (Some (be_NormalizeObjectKey be)) = policyDecisionDeny"
  then show "VerifyPublicAccess h ctx be action permission bucket object = Some (APIError ErrAccessDenied)"
    by (simp add: VerifyPublicAccess_def VerifyPublicBucketPolicy_def)
qed

definition public_acl :: ACL where
  "public_acl = \<lparr>acl_Owner = ''bob'', acl_Grantees = [group_grantee PermissionRead, group_grantee PermissionWrite]\<rparr>"

definition public_acl_backend :: "json_bytes option \<Rightarrow> backend" where
  "public_acl_backend policy = (demo_backend policy)\<lparr>be_GetBucketAcl :=
     (\<lambda>_. Inr (JSONText (ACL_MarshalJSON public_acl)))\<rparr>"

lemma public_acl_backend_acl: "ParseACL (JSONText (ACL_MarshalJSON public_acl)) = Inr public_acl"
  by (simp add: ParseACL_def unmarshal_ACL_def ACL_MarshalJSON_def zero_ACL_def public_acl_def)

theorem VerifyPublicAccess_sound_witness:
  "VerifyPublicAccess null_host demo_request (public_acl_backend (Some (Some deny_delete_json)))
     DeleteObjectAction PermissionWrite ''b'' ''x'' = Some (APIError ErrAccessDenied)"
proof -
  let ?bp = "projr (unmarshal_policy (Some deny_delete_json))"
  have u: "unmarshal_policy (Some deny_delete_json) = Inr ?bp" by code_simp
  have d: "publicDecisionFor null_host ?bp (makePolicyResource ''b'' ''x'' (Some (\<lambda>b k. k))) DeleteObjectAction
      (requestConditionContext demo_request) (Some (\<lambda>b k. k)) = policyDecisionDeny"
    by code_simp
  show ?thesis
    using VerifyPublicAccess_sound [of null_host demo_request "public_acl_backend (Some (Some deny_delete_json))"
        DeleteObjectAction PermissionWrite "''b''" "''x''" "Some deny_delete_json" ?bp] u d
    by (simp add: public_acl_backend_def demo_backend_def)
qed

text \<open>
  A stored bucket policy that cannot be decoded does not stop anonymous access: the
  request falls back to the ACL as if there were no policy, while an authenticated request to
  the same bucket fails with the decoding error.
\<close>

theorem undecodable_policy_public_fallback:
  assumes "be_GetBucketPolicy be bucket = Inr policy" "unmarshal_policy policy = Inl JSONErr"
    and "be_GetBucketAcl be bucket = Inr bytes" "ParseACL bytes = Inr acl" "ACL_IsPublic acl permission"
    and "action \<in> set publicACLAllowedActions"
    and "opt_Bucket opts = bucket" "opt_Actions opts \<noteq> []" "authorizationApplies opts"
  shows "VerifyPublicAccess h ctx be action permission bucket object = None
    \<and> VerifyAccess h ctx be opts \<noteq> None"
proof
  have "VerifyPublicBucketPolicy h policy bucket object c nrm action = Some (ErrorString ''json error'')" for c nrm
    using assms(2) by (simp add: VerifyPublicBucketPolicy_def)
  then show "VerifyPublicAccess h ctx be action permission bucket object = None"
    using assms(1,3-6)
    by (simp add: VerifyPublicAccess_def errExplicitDeny_def public_acl_fallback_def VerifyPublicBucketACL_def)
  have "verifyResourceAccess h be opts [opt_Object opts] c = Inl (ErrorString (''failed to parse the bucket policy: '' @ ''json error''))" for c
    using assms(1,2,7,8) by (simp add: verifyResourceAccess_def verifyBucketPolicy_def)
  then show "VerifyAccess h ctx be opts \<noteq> None"
    using assms(9) by (simp add: VerifyAccess_None key_granted_def)
qed

theorem undecodable_policy_public_fallback_witness:
  "VerifyPublicAccess null_host demo_request (public_acl_backend (Some None)) GetObjectAction PermissionRead ''b'' ''x'' = None
   \<and> VerifyAccess null_host demo_request (public_acl_backend (Some None)) (demo_opts ''x'' GetObjectAction None) \<noteq> None"
proof (rule undecodable_policy_public_fallback [where policy = None and acl = public_acl and
      bytes = "JSONText (ACL_MarshalJSON public_acl)"])
  show "unmarshal_policy None = Inl JSONErr" by (simp add: unmarshal_policy_def)
  show "ParseACL (JSONText (ACL_MarshalJSON public_acl)) = Inr public_acl" by (rule public_acl_backend_acl)
  show "ACL_IsPublic public_acl PermissionRead" by (simp add: ACL_IsPublic_def public_acl_def)
  show "authorizationApplies (demo_opts ''x'' GetObjectAction None)"
    by (simp add: authorizationApplies_def demo_opts_def zero_AccessOptions_def demo_user_def RoleUser_def RoleAdmin_def)
qed (simp_all add: public_acl_backend_def demo_backend_def publicACLAllowedActions_def demo_opts_def
       zero_AccessOptions_def)

text \<open>
  A copy is allowed exactly when the destination access is allowed and the caller either
  is root or admin, or may read the source object under the source bucket's own policy, ACL
  and identity policies.
\<close>

theorem VerifyObjectCopyAccess_iff:
  "VerifyObjectCopyAccess h ctx be copySource opts = None \<longleftrightarrow>
     VerifyAccess h ctx be opts = None \<and>
     (opt_IsRoot opts \<or> Role (opt_Acc opts) = RoleAdmin \<or>
      (\<exists>src srcBucket srcObject bytes srcAcl. QueryUnescape copySource = Some src
         \<and> Cut src ''/'' = Some (srcBucket, srcObject) \<and> be_GetBucketAcl be srcBucket = Inr bytes
         \<and> unmarshal_ACL bytes = Inr srcAcl
         \<and> VerifyAccess h ctx be (zero_AccessOptions\<lparr>opt_Acl := srcAcl, opt_AclPermission := PermissionRead,
              opt_IsRoot := opt_IsRoot opts, opt_Acc := opt_Acc opts, opt_Bucket := srcBucket,
              opt_Object := srcObject, opt_Actions := [GetObjectAction], opt_Iam := opt_Iam opts,
              opt_DisableACL := opt_DisableACL opts\<rparr>) = None))"
  by (simp add: VerifyObjectCopyAccess_def split: option.splits sum.splits prod.splits)

text \<open>
  The evaluation of a Condition block in the context of a request does not depend on the
  order in which the context map is traversed: no two context keys of a request are equal up to
  case.
\<close>

theorem request_condition_order:
  assumes "mset condCtx = mset (requestConditionContext ctx)"
  shows "Evaluate h raw condCtx version = Evaluate h raw (requestConditionContext ctx) version"
  using assms requestConditionContext_distinct by (intro Evaluate_cong lookupContextValues_perm)

theorem request_condition_order_witness:
  "\<forall>h raw version. Evaluate h raw (rev (requestConditionContext demo_request)) version =
     Evaluate h raw (requestConditionContext demo_request) version"
  using request_condition_order [of "rev (requestConditionContext demo_request)" demo_request] by simp

lemma verifyIdentityOnlyAccess_None:
  "verifyIdentityOnlyAccess ctx pe acc action resource = None \<longleftrightarrow>
     (\<exists>eval. pe (Access acc) (SessionToken acc) [action] [ResourceArnPrefix @ resource] (requestConditionContext ctx) = Inr eval
        \<and> evaluation_grants eval 1 policyDecisionNoMatch)"
proof -
  let ?o = "zero_AccessOptions\<lparr>opt_Acc := acc, opt_Bucket := resource, opt_Actions := [action]\<rparr>"
  let ?rd = "\<lparr>dfr_Decision = policyDecisionNoMatch, dfr_Action = []\<rparr>"
  let ?pe = "pe (Access acc) (SessionToken acc) [action] [ResourceArnPrefix @ resource] (requestConditionContext ctx)"
  have arn: "objectPolicyArn resource [] None = ResourceArnPrefix @ resource"
    by (simp add: objectPolicyArn_def makePolicyResource_def)
  have "verifyIdentityOnlyAccess ctx pe acc action resource = None \<longleftrightarrow>
      (\<exists>identity. identityPolicyDecisions pe ?o [[]] None (requestConditionContext ctx) = Inr identity
         \<and> key_access_error be ?o [[]] [?rd] identity 0 = None)" for be
    unfolding verifyIdentityOnlyAccess_def Let_def key_access_error_None
    by (auto split: sum.splits policyDecision.splits if_splits)
  then have eq: "verifyIdentityOnlyAccess ctx pe acc action resource = None \<longleftrightarrow>
      (\<exists>identity. identityPolicyDecisions pe ?o [[]] None (requestConditionContext ctx) = Inr identity
         \<and> key_access_error undefined ?o [[]] [?rd] identity 0 = None)" .
  show ?thesis
  proof (cases ?pe)
    case (Inl e)
    then show ?thesis unfolding eq by (simp add: identityPolicyDecisions_def zero_AccessOptions_def arn)
  next
    case (Inr eval)
    then have "pe (Access (opt_Acc ?o)) (SessionToken (opt_Acc ?o)) (opt_Actions ?o)
        [objectPolicyArn (opt_Bucket ?o) [] None] (requestConditionContext ctx) = Inr eval"
      by (simp add: zero_AccessOptions_def arn)
    from identity_single_key [where pe = pe and opts = ?o, OF this, of undefined ?rd] Inr show ?thesis
      unfolding eq by (simp add: zero_AccessOptions_def)
  qed
qed

text \<open>
  Creating a bucket is allowed exactly to root and admin, to the role userplus where the
  IAM service has no policies, and otherwise to a caller whose identity policies, and session
  policy if any, allow it.
\<close>

theorem VerifyCreateBucketAccess_iff:
  "VerifyCreateBucketAccess ctx iam isRoot acc bucket = None \<longleftrightarrow>
     isRoot \<or> Role acc = RoleAdmin \<or>
     (case iam of
        None \<Rightarrow> Role acc = RoleUserPlus
      | Some pe \<Rightarrow>
          (\<exists>eval. pe (Access acc) (SessionToken acc) [CreateBucketAction] [ResourceArnPrefix @ bucket]
               (requestConditionContext ctx) = Inr eval \<and> evaluation_grants eval 1 policyDecisionNoMatch))"
  by (simp add: VerifyCreateBucketAccess_def verifyIdentityOnlyAccess_None split: option.splits)

end
