(* ===== verification/Object_Lock.thy ===== *)
theory Object_Lock
  imports Access_Control
begin

text \<open>
  Object lock (auth/object_lock.go) and the authorization of a multi-object delete, which
  combines policies and locks (\<open>VerifyObjectsAccess\<close> of auth/access-control.go). An instant is
  an int of nanoseconds since the start of year 1 UTC; a request sees one current time. XML
  bodies are given decoded, \<open>None\<close> where the decoder fails. Calendar arithmetic is in UTC.
\<close>

section \<open>Calendar\<close>

text \<open>Leap days before a year that starts in March, and days since 0001-01-01 of a civil date; a day beyond the month's end runs over.\<close>

definition leap_days :: "int \<Rightarrow> int" where
  "leap_days y = y div 4 - y div 100 + y div 400"

definition days_from_civil :: "int \<Rightarrow> int \<Rightarrow> int \<Rightarrow> int" where
  "days_from_civil y m d =
     (let y' = (if m \<le> 2 then y - 1 else y);
          mp = (m + 9) mod 12;
          doy = (153 * mp + 2) div 5 + d - 1
      in 365 * y' + leap_days y' + doy - 306)"

definition civil_from_days :: "int \<Rightarrow> int \<times> int \<times> int" where
  "civil_from_days n =
     (let z = n + 306;
          n400 = z div 146097;
          d400 = z mod 146097;
          n100 = min (d400 div 36524) 3;
          d100 = d400 - 36524 * n100;
          n4 = d100 div 1461;
          d4 = d100 - 1461 * n4;
          n1 = min (d4 div 365) 3;
          doy = d4 - 365 * n1;
          mp = (5 * doy + 2) div 153;
          d = doy - (153 * mp + 2) div 5 + 1;
          m = (if mp < 10 then mp + 3 else mp - 9);
          y = 400 * n400 + 100 * n100 + 4 * n4 + n1
      in (if m \<le> 2 then y + 1 else y, m, d))"

definition day_ns :: int where "day_ns = 86400000000000"

text \<open>\<open>t.AddDate(years, 0, days)\<close>.\<close>

definition AddDate :: "int \<Rightarrow> int \<Rightarrow> int \<Rightarrow> int" where
  "AddDate t years days =
     (let (y, m, d) = civil_from_days (t div day_ns)
      in days_from_civil (y + years) m (d + days) * day_ns + t mod day_ns)"









section \<open>Data\<close>

record DefaultRetention =
  dr_Days :: "int option"
  dr_Mode :: string
  dr_Years :: "int option"

record BucketLockConfig =
  blc_Enabled :: bool
  blc_DefaultRetention :: "DefaultRetention option"
  blc_CreatedAt :: "int option"

record ObjectLockRetention =
  ret_Mode :: string
  ret_RetainUntilDate :: "int option"

record PutObjectRetentionInput =
  pri_Mode :: string
  pri_RetainUntilDate :: int

record ObjectLockConfiguration =
  olc_ObjectLockEnabled :: string
  olc_DefaultRetention :: "DefaultRetention option"

definition ObjectLockRetentionModeCompliance :: string where
  "ObjectLockRetentionModeCompliance = ''COMPLIANCE''"
definition ObjectLockRetentionModeGovernance :: string where
  "ObjectLockRetentionModeGovernance = ''GOVERNANCE''"
definition ObjectLockEnabledEnabled :: string where "ObjectLockEnabledEnabled = ''Enabled''"
definition BucketVersioningStatusEnabled :: string where "BucketVersioningStatusEnabled = ''Enabled''"

datatype BypassMode = BypassNone | BypassRequested | BypassOverwrite

definition allowsGovernanceOverride :: "BypassMode \<Rightarrow> bool" where
  "allowsGovernanceOverride b \<longleftrightarrow> b \<noteq> BypassNone"

definition BypassModeForRequest :: "bool \<Rightarrow> BypassMode" where
  "BypassModeForRequest headerPresent = (if headerPresent then BypassRequested else BypassNone)"


section \<open>Decoding the stored JSON\<close>

text \<open>A JSON number, by its literal, decoded into an int32.\<close>

definition parse_int32 :: "string \<Rightarrow> int option" where
  "parse_int32 s =
     (case ParseInt64 s of
        None \<Rightarrow> None
      | Some v \<Rightarrow> if - (2 ^ 31) \<le> v \<and> v < 2 ^ 31 then Some v else None)"

text \<open>Fields behind a pointer: null is nil, \<open>Inl ()\<close> a decoding error.\<close>

fun int32_ptr :: "json \<Rightarrow> (unit, int option) result" where
  "int32_ptr JNull = Inr None"
| "int32_ptr (JNum s) = (case parse_int32 s of None \<Rightarrow> Inl () | Some v \<Rightarrow> Inr (Some v))"
| "int32_ptr _ = Inl ()"

fun time_ptr :: "cond_host \<Rightarrow> json \<Rightarrow> (unit, int option) result" where
  "time_ptr h JNull = Inr None"
| "time_ptr h (JStr s) = (case ParseTime h ''RFC3339'' s of None \<Rightarrow> Inl () | Some t \<Rightarrow> Inr (Some t))"
| "time_ptr h _ = Inl ()"

fun retention_fields :: "cond_host \<Rightarrow> (string \<times> json) list \<Rightarrow> ObjectLockRetention \<Rightarrow> (unit, ObjectLockRetention) result" where
  "retention_fields h [] r = Inr r"
| "retention_fields h ((k, v) # ms) r =
     (if EqualFold k ''Mode'' then
        (case string_field v (ret_Mode r) of
           (s, True) \<Rightarrow> Inl () | (s, False) \<Rightarrow> retention_fields h ms (r\<lparr>ret_Mode := s\<rparr>))
      else if EqualFold k ''RetainUntilDate'' then
        (case time_ptr h v of Inl _ \<Rightarrow> Inl ()
         | Inr t \<Rightarrow> retention_fields h ms (r\<lparr>ret_RetainUntilDate := t\<rparr>))
      else retention_fields h ms r)"

definition ParseObjectLockRetentionOutput :: "cond_host \<Rightarrow> json_bytes \<Rightarrow> (go_error, ObjectLockRetention) result" where
  "ParseObjectLockRetentionOutput h input =
     (let zero = \<lparr>ret_Mode = [], ret_RetainUntilDate = None\<rparr>;
          r = (case input of
                 Some (JObj ms) \<Rightarrow> retention_fields h ms zero
               | Some JNull \<Rightarrow> Inr zero
               | _ \<Rightarrow> Inl ())
      in case r of
           Inl _ \<Rightarrow> Inl (Wrapped ''parse object lock retention: '' (ErrorString ''json error''))
         | Inr retention \<Rightarrow> Inr retention)"

fun default_fields :: "(string \<times> json) list \<Rightarrow> DefaultRetention \<Rightarrow> (unit, DefaultRetention) result" where
  "default_fields [] r = Inr r"
| "default_fields ((k, v) # ms) r =
     (if EqualFold k ''Days'' then
        (case int32_ptr v of Inl _ \<Rightarrow> Inl () | Inr d \<Rightarrow> default_fields ms (r\<lparr>dr_Days := d\<rparr>))
      else if EqualFold k ''Mode'' then
        (case string_field v (dr_Mode r) of
           (s, True) \<Rightarrow> Inl () | (s, False) \<Rightarrow> default_fields ms (r\<lparr>dr_Mode := s\<rparr>))
      else if EqualFold k ''Years'' then
        (case int32_ptr v of Inl _ \<Rightarrow> Inl () | Inr d \<Rightarrow> default_fields ms (r\<lparr>dr_Years := d\<rparr>))
      else default_fields ms r)"

fun config_fields :: "cond_host \<Rightarrow> (string \<times> json) list \<Rightarrow> BucketLockConfig \<Rightarrow> (unit, BucketLockConfig) result" where
  "config_fields h [] c = Inr c"
| "config_fields h ((k, v) # ms) c =
     (if EqualFold k ''Enabled'' then
        (case v of
           JBool b \<Rightarrow> config_fields h ms (c\<lparr>blc_Enabled := b\<rparr>)
         | JNull \<Rightarrow> config_fields h ms c
         | _ \<Rightarrow> Inl ())
      else if EqualFold k ''DefaultRetention'' then
        (case v of
           JNull \<Rightarrow> config_fields h ms (c\<lparr>blc_DefaultRetention := None\<rparr>)
         | JObj ds \<Rightarrow>
             (case default_fields ds \<lparr>dr_Days = None, dr_Mode = [], dr_Years = None\<rparr> of
                Inl _ \<Rightarrow> Inl ()
              | Inr d \<Rightarrow> config_fields h ms (c\<lparr>blc_DefaultRetention := Some d\<rparr>))
         | _ \<Rightarrow> Inl ())
      else if EqualFold k ''CreatedAt'' then
        (case time_ptr h v of Inl _ \<Rightarrow> Inl () | Inr t \<Rightarrow> config_fields h ms (c\<lparr>blc_CreatedAt := t\<rparr>))
      else config_fields h ms c)"

definition unmarshal_BucketLockConfig :: "cond_host \<Rightarrow> json_bytes \<Rightarrow> (go_error, BucketLockConfig) result" where
  "unmarshal_BucketLockConfig h data =
     (let zero = \<lparr>blc_Enabled = False, blc_DefaultRetention = None, blc_CreatedAt = None\<rparr>;
          r = (case data of
                 Some (JObj ms) \<Rightarrow> config_fields h ms zero
               | Some JNull \<Rightarrow> Inr zero
               | _ \<Rightarrow> Inl ())
      in case r of
           Inl _ \<Rightarrow> Inl (Wrapped ''parse object lock config: '' (ErrorString ''json error''))
         | Inr config \<Rightarrow> Inr config)"

section \<open>Requests that set a lock\<close>


definition ParseBucketLockConfigurationOutput ::
    "cond_host \<Rightarrow> json_bytes \<Rightarrow> (go_error, ObjectLockConfiguration) result" where
  "ParseBucketLockConfigurationOutput h input =
     (case unmarshal_BucketLockConfig h input of
        Inl err \<Rightarrow> Inl err
      | Inr config \<Rightarrow>
          Inr \<lparr>olc_ObjectLockEnabled = (if blc_Enabled config then ObjectLockEnabledEnabled else []),
               olc_DefaultRetention = blc_DefaultRetention config\<rparr>)"

text \<open>\<open>formatRFC3339\<close> is the library's formatting of the date in the error.\<close>

definition ParseObjectLockRetentionInput ::
    "(int \<Rightarrow> string) \<Rightarrow> int \<Rightarrow> PutObjectRetentionInput option \<Rightarrow> (go_error, PutObjectRetentionInput) result" where
  "ParseObjectLockRetentionInput formatRFC3339 now input =
     (case input of
        None \<Rightarrow> Inl (APIError ErrMalformedXML)
      | Some retention \<Rightarrow>
          if pri_RetainUntilDate retention < now then
            Inl (InvalidArgument InvalidArgPastObjectLockRetainDate (formatRFC3339 (pri_RetainUntilDate retention)))
          else if pri_Mode retention = ObjectLockRetentionModeCompliance
                  \<or> pri_Mode retention = ObjectLockRetentionModeGovernance
          then Inr retention
          else Inl (APIError ErrMalformedXML))"

definition ParseObjectLegalHoldOutput :: "bool option \<Rightarrow> string option" where
  "ParseObjectLegalHoldOutput status =
     (case status of None \<Rightarrow> None | Some True \<Rightarrow> Some ''ON'' | Some False \<Rightarrow> Some ''OFF'')"

section \<open>Overriding a governance retention\<close>

definition bypass_opts :: "Account \<Rightarrow> string \<Rightarrow> string \<Rightarrow> AccessOptions" where
  "bypass_opts acc bucket key =
     zero_AccessOptions\<lparr>opt_Acc := acc, opt_Bucket := bucket, opt_Object := key,
       opt_Actions := [BypassGovernanceRetentionAction]\<rparr>"

text \<open>The part behind the bucket policy's decision.\<close>

definition bypass_after_policy ::
    "backend \<Rightarrow> PolicyEvaluator option \<Rightarrow> Account \<Rightarrow> string \<Rightarrow> string \<Rightarrow> ctx_vars \<Rightarrow> policyDecision \<Rightarrow> go_error option" where
  "bypass_after_policy be iam acc bucket key condCtx resourceDecision =
     (let nrm = Some (be_NormalizeObjectKey be);
          resourceArn = objectPolicyArn bucket key nrm;
          act = BypassGovernanceRetentionAction
      in if resourceDecision = policyDecisionDeny then
           Some (ExplicitDeny (Access acc) act resourceArn ''a resource-based policy'')
         else if iam = None \<or> Role acc = RoleAdmin then
           (if resourceDecision = policyDecisionAllow then None else Some (APIError ErrObjectLocked))
         else case identityPolicyDecisions (the iam) (bypass_opts acc bucket key) [key] nrm condCtx of
             Inl err \<Rightarrow> Some err
           | Inr identity \<Rightarrow>
               let identityDecision = dfr_Decision (id_Decisions identity ! 0);
                   sd = dfr_Decision (id_SessionDecisions identity ! 0);
                   sessionDenies = (id_HasSessionPolicy identity \<and> sd = policyDecisionDeny);
                   sessionWithholds = (id_HasSessionPolicy identity \<and> sd \<noteq> policyDecisionAllow);
                   idp = (if id_PrincipalArn identity = [] then Access acc else id_PrincipalArn identity)
               in if identityDecision = policyDecisionDeny \<or> sessionDenies then
                    Some (ExplicitDeny idp act resourceArn ''an identity-based policy'')
                  else if \<not> sessionWithholds
                          \<and> (resourceDecision = policyDecisionAllow \<or> identityDecision = policyDecisionAllow)
                  then None
                  else Some (ImplicitDeny idp act resourceArn))"

definition verifyBypassGovernancePermission ::
    "cond_host \<Rightarrow> backend \<Rightarrow> PolicyEvaluator option \<Rightarrow> Account \<Rightarrow> string \<Rightarrow> string \<Rightarrow> BypassMode \<Rightarrow> bool
      \<Rightarrow> ctx_vars \<Rightarrow> go_error option" where
  "verifyBypassGovernancePermission h be iam acc bucket key mode isBucketPublic condCtx =
     (let nrm = Some (be_NormalizeObjectKey be)
      in if mode = BypassRequested \<and> Role acc = RoleAdmin then None
         else if isBucketPublic then
           (case be_GetBucketPolicy be bucket of
              Inl err \<Rightarrow>
                if errors_is err ErrNoSuchBucketPolicy then Some (APIError ErrObjectLocked) else Some err
            | Inr policy \<Rightarrow>
                (case VerifyPublicBucketPolicy h policy bucket key condCtx nrm BypassGovernanceRetentionAction of
                   Some _ \<Rightarrow> Some (APIError ErrObjectLocked)
                 | None \<Rightarrow> None))
         else case be_GetBucketPolicy be bucket of
             Inl err \<Rightarrow>
               if errors_is err ErrNoSuchBucketPolicy then
                 bypass_after_policy be iam acc bucket key condCtx policyDecisionNoMatch
               else Some err
           | Inr policy \<Rightarrow>
               (case verifyBucketPolicy h policy (Access acc) bucket key condCtx nrm
                       [BypassGovernanceRetentionAction] of
                  Inl err \<Rightarrow> Some err
                | Inr (resourceDecision, _) \<Rightarrow>
                    bypass_after_policy be iam acc bucket key condCtx resourceDecision))"

definition IsObjectLockRetentionPutAllowed ::
    "cond_host \<Rightarrow> http_request \<Rightarrow> backend \<Rightarrow> PolicyEvaluator option \<Rightarrow> string \<Rightarrow> string \<Rightarrow> string \<Rightarrow> Account
      \<Rightarrow> PutObjectRetentionInput \<Rightarrow> bool \<Rightarrow> go_error option" where
  "IsObjectLockRetentionPutAllowed h ctx be iam bucket object versionId acc input bypass =
     (case be_GetObjectRetention be bucket object versionId of
        Inl err \<Rightarrow>
          if errors_is err ErrNoSuchObjectLockConfiguration then None else Some err
      | Inr ret \<Rightarrow>
          (case ParseObjectLockRetentionOutput h ret of
             Inl err \<Rightarrow> Some err
           | Inr retention \<Rightarrow>
               let isExtension =
                 (ret_Mode retention = pri_Mode input
                  \<and> (case ret_RetainUntilDate retention of
                       None \<Rightarrow> False
                     | Some date \<Rightarrow> \<not> pri_RetainUntilDate input < date))
               in if isExtension then None
                  else if ret_Mode retention = ObjectLockRetentionModeCompliance then
                    Some (APIError ErrObjectLocked)
                  else if \<not> bypass then Some (APIError ErrObjectLocked)
                  else verifyBypassGovernancePermission h be iam acc bucket object BypassRequested False
                         (requestConditionContext ctx)))"

section \<open>Checking the lock of an object\<close>

record objectLockState =
  ols_applies :: bool
  ols_defaultRetention :: "DefaultRetention option"
  ols_versioningEnabled :: bool

definition zero_objectLockState :: objectLockState where
  "zero_objectLockState = \<lparr>ols_applies = False, ols_defaultRetention = None, ols_versioningEnabled = False\<rparr>"

text \<open>The end of the bucket's default retention.\<close>

definition default_expiration :: "int \<Rightarrow> DefaultRetention \<Rightarrow> int" where
  "default_expiration createdAt retention =
     (let t = (case dr_Days retention of None \<Rightarrow> createdAt | Some days \<Rightarrow> AddDate createdAt 0 days)
      in case dr_Years retention of None \<Rightarrow> t | Some years \<Rightarrow> AddDate t years 0)"

definition loadObjectLockState ::
    "cond_host \<Rightarrow> int \<Rightarrow> backend \<Rightarrow> string \<Rightarrow> bool \<Rightarrow> (go_error, objectLockState) result" where
  "loadObjectLockState h now be bucket isOverwrite =
     (if isOverwrite \<and> be_GetBucketVersioning be bucket = Inr (Some BucketVersioningStatusEnabled)
      then Inr zero_objectLockState
      else case be_GetObjectLockConfiguration be bucket of
          Inl err \<Rightarrow>
            if errors_is err ErrObjectLockConfigurationNotFound then Inr zero_objectLockState else Inl err
        | Inr data \<Rightarrow>
            (case unmarshal_BucketLockConfig h data of
               Inl err \<Rightarrow> Inl err
             | Inr config \<Rightarrow>
                 if \<not> blc_Enabled config then Inr zero_objectLockState
                 else
                   let dflt =
                     (case (blc_DefaultRetention config, blc_CreatedAt config) of
                        (Some retention, Some createdAt) \<Rightarrow>
                          if now < default_expiration createdAt retention then Some retention else None
                      | _ \<Rightarrow> None)
                   in Inr \<lparr>ols_applies = True, ols_defaultRetention = dflt,
                           ols_versioningEnabled =
                             (be_GetBucketVersioning be bucket = Inr (Some BucketVersioningStatusEnabled))\<rparr>))"

definition checkRetentionMode ::
    "cond_host \<Rightarrow> backend \<Rightarrow> PolicyEvaluator option \<Rightarrow> Account \<Rightarrow> string \<Rightarrow> string \<Rightarrow> string \<Rightarrow> BypassMode \<Rightarrow> bool
      \<Rightarrow> ctx_vars \<Rightarrow> go_error option" where
  "checkRetentionMode h be iam acc bucket key mode bypass isBucketPublic condCtx =
     (if mode = ObjectLockRetentionModeGovernance then
        (if \<not> allowsGovernanceOverride bypass then Some (APIError ErrObjectLocked)
         else verifyBypassGovernancePermission h be iam acc bucket key bypass isBucketPublic condCtx)
      else if mode = ObjectLockRetentionModeCompliance then Some (APIError ErrObjectLocked)
      else None)"

record ObjectIdentifier =
  oid_Key :: "string option"
  oid_VersionId :: "string option"

definition deref_string :: "string option \<Rightarrow> string" where
  "deref_string p = (case p of None \<Rightarrow> [] | Some s \<Rightarrow> s)"

text \<open>The legal-hold part of \<open>checkObject\<close> and the bucket's default retention behind it.\<close>

definition check_hold_and_default ::
    "cond_host \<Rightarrow> objectLockState \<Rightarrow> backend \<Rightarrow> PolicyEvaluator option \<Rightarrow> Account \<Rightarrow> string \<Rightarrow> string \<Rightarrow> string
      \<Rightarrow> BypassMode \<Rightarrow> bool \<Rightarrow> ctx_vars \<Rightarrow> go_error option" where
  "check_hold_and_default h s be iam acc bucket key versionId bypass isBucketPublic condCtx =
     (let default_check =
        (case ols_defaultRetention s of
           None \<Rightarrow> None
         | Some retention \<Rightarrow>
             checkRetentionMode h be iam acc bucket key (dr_Mode retention) bypass isBucketPublic condCtx)
      in case be_GetObjectLegalHold be bucket key versionId of
           Inl err \<Rightarrow>
             if errors_is err ErrNoSuchKey then None
             else if errors_is err ErrNoSuchObjectLockConfiguration then default_check
             else Some err
         | Inr None \<Rightarrow> Some NilPointer
         | Inr (Some True) \<Rightarrow> Some (APIError ErrObjectLocked)
         | Inr (Some False) \<Rightarrow> default_check)"

definition checkObject ::
    "cond_host \<Rightarrow> int \<Rightarrow> objectLockState \<Rightarrow> backend \<Rightarrow> PolicyEvaluator option \<Rightarrow> Account \<Rightarrow> string
      \<Rightarrow> ObjectIdentifier \<Rightarrow> BypassMode \<Rightarrow> bool \<Rightarrow> ctx_vars \<Rightarrow> go_error option" where
  "checkObject h now s be iam acc bucket obj bypass isBucketPublic condCtx =
     (let key = deref_string (oid_Key obj); versionId = deref_string (oid_VersionId obj);
          hold = check_hold_and_default h s be iam acc bucket key versionId bypass isBucketPublic condCtx
      in if ols_versioningEnabled s \<and> versionId = [] then None
         else case be_GetObjectRetention be bucket key versionId of
             Inl err \<Rightarrow>
               if errors_is err ErrNoSuchKey then None
               else if errors_is err ErrMethodNotAllowed then None
               else if errors_is err ErrNoSuchObjectLockConfiguration then hold
               else Some err
           | Inr retentionData \<Rightarrow>
               (case ParseObjectLockRetentionOutput h retentionData of
                  Inl err \<Rightarrow> Some err
                | Inr retention \<Rightarrow>
                    (case (ret_Mode retention, ret_RetainUntilDate retention) of
                       (c # mode, Some date) \<Rightarrow>
                         if date < now then None
                         else (case checkRetentionMode h be iam acc bucket key (c # mode) bypass isBucketPublic condCtx of
                                 Some err \<Rightarrow> Some err
                               | None \<Rightarrow> hold)
                     | _ \<Rightarrow> hold)))"

definition CheckObjectAccess ::
    "cond_host \<Rightarrow> int \<Rightarrow> http_request \<Rightarrow> string \<Rightarrow> Account \<Rightarrow> ObjectIdentifier list \<Rightarrow> BypassMode \<Rightarrow> bool
      \<Rightarrow> backend \<Rightarrow> PolicyEvaluator option \<Rightarrow> bool \<Rightarrow> go_error option" where
  "CheckObjectAccess h now ctx bucket acc objects bypass isBucketPublic be iam isOverwrite =
     (case loadObjectLockState h now be bucket isOverwrite of
        Inl err \<Rightarrow> Some err
      | Inr state \<Rightarrow>
          if \<not> ols_applies state then None
          else first_err (\<lambda>obj. checkObject h now state be iam acc bucket obj bypass isBucketPublic
                 (requestConditionContext ctx)) objects)"

section \<open>Multi-object delete\<close>

text \<open>Writing the results of a subset back to their positions.\<close>

fun scatter :: "nat list \<Rightarrow> 'a list \<Rightarrow> 'a list \<Rightarrow> 'a list" where
  "scatter (i # idx) (e # es) errs = scatter idx es (errs[i := e])"
| "scatter _ _ errs = errs"

definition authorizeObjectSubset ::
    "cond_host \<Rightarrow> backend \<Rightarrow> AccessOptions \<Rightarrow> string list \<Rightarrow> nat list \<Rightarrow> Action \<Rightarrow> go_error option list \<Rightarrow> ctx_vars
      \<Rightarrow> (go_error, go_error option list) result" where
  "authorizeObjectSubset h be opts keys idx action errs condCtx =
     (if idx = [] then Inr errs
      else case objectsAccessErrors h be (opts\<lparr>opt_Actions := [action]\<rparr>) (map ((!) keys) idx) condCtx of
          Inl err \<Rightarrow> Inl err
        | Inr subErrs \<Rightarrow> Inr (scatter idx subErrs errs))"

definition is_versioned :: "ObjectIdentifier \<Rightarrow> bool" where
  "is_versioned obj \<longleftrightarrow> oid_VersionId obj \<noteq> None \<and> oid_VersionId obj \<noteq> Some []"

definition authorize_batch ::
    "cond_host \<Rightarrow> backend \<Rightarrow> AccessOptions \<Rightarrow> ObjectIdentifier list \<Rightarrow> ctx_vars
      \<Rightarrow> (go_error, go_error option list) result" where
  "authorize_batch h be opts objects condCtx =
     (let keys = map (deref_string \<circ> oid_Key) objects;
          errs = replicate (length objects) None;
          versionedIdx = filter (\<lambda>i. is_versioned (objects ! i)) [0..<length objects];
          plainIdx = filter (\<lambda>i. \<not> is_versioned (objects ! i)) [0..<length objects]
      in if authorizationApplies opts then
           (case authorizeObjectSubset h be opts keys plainIdx DeleteObjectAction errs condCtx of
              Inl err \<Rightarrow> Inl err
            | Inr errs' \<Rightarrow>
                authorizeObjectSubset h be opts keys versionedIdx DeleteObjectVersionAction errs' condCtx)
         else Inr errs)"

definition VerifyObjectsAccess ::
    "cond_host \<Rightarrow> int \<Rightarrow> http_request \<Rightarrow> backend \<Rightarrow> AccessOptions \<Rightarrow> ObjectIdentifier list \<Rightarrow> BypassMode
      \<Rightarrow> (go_error, go_error option list) result" where
  "VerifyObjectsAccess h now ctx be opts objects bypass =
     (case verifyAccessGates opts of
        Some err \<Rightarrow> Inl err
      | None \<Rightarrow>
          if objects = [] then Inr []
          else
            let condCtx = requestConditionContext ctx
            in case authorize_batch h be opts objects condCtx of
                 Inl err \<Rightarrow> Inl err
               | Inr errs \<Rightarrow>
                   (case loadObjectLockState h now be (opt_Bucket opts) False of
                      Inl err \<Rightarrow> Inl err
                    | Inr lockState \<Rightarrow>
                        if ols_applies lockState then
                          Inr (map (\<lambda>i. case errs ! i of
                                Some e \<Rightarrow> Some e
                              | None \<Rightarrow>
                                  checkObject h now lockState be (opt_Iam opts) (opt_Acc opts) (opt_Bucket opts)
                                    (objects ! i) bypass (opt_IsPublicRequest opts) condCtx)
                              [0..<length objects])
                        else Inr errs))"


section \<open>Facts\<close>

lemma modes_differ [simp]:
  "ObjectLockRetentionModeCompliance \<noteq> ObjectLockRetentionModeGovernance"
  "ObjectLockRetentionModeGovernance \<noteq> ObjectLockRetentionModeCompliance"
  "ObjectLockRetentionModeCompliance \<noteq> []" "ObjectLockRetentionModeGovernance \<noteq> []"
  by (simp_all add: ObjectLockRetentionModeCompliance_def ObjectLockRetentionModeGovernance_def)

text \<open>The object has a retention of its own, and its lock is checked at all.\<close>

definition own_retention ::
    "cond_host \<Rightarrow> objectLockState \<Rightarrow> backend \<Rightarrow> string \<Rightarrow> ObjectIdentifier \<Rightarrow> string \<Rightarrow> int \<Rightarrow> bool" where
  "own_retention h s be bucket obj mode date \<longleftrightarrow>
     \<not> (ols_versioningEnabled s \<and> deref_string (oid_VersionId obj) = [])
     \<and> (\<exists>data. be_GetObjectRetention be bucket (deref_string (oid_Key obj)) (deref_string (oid_VersionId obj)) = Inr data
          \<and> ParseObjectLockRetentionOutput h data = Inr \<lparr>ret_Mode = mode, ret_RetainUntilDate = Some date\<rparr>)"

lemma checkObject_own_retention:
  assumes "own_retention h s be bucket obj mode date" "mode \<noteq> []"
  shows "checkObject h now s be iam acc bucket obj bypass pub condCtx =
    (if date < now then None
     else case checkRetentionMode h be iam acc bucket (deref_string (oid_Key obj)) mode bypass pub condCtx of
         Some err \<Rightarrow> Some err
       | None \<Rightarrow> check_hold_and_default h s be iam acc bucket (deref_string (oid_Key obj))
                  (deref_string (oid_VersionId obj)) bypass pub condCtx)"
  using assms by (cases mode) (auto simp: own_retention_def checkObject_def Let_def)


lemma bypass_after_policy_None:
  "bypass_after_policy be iam acc bucket key condCtx rd = None \<longleftrightarrow>
     rd \<noteq> policyDecisionDeny \<and>
     (if iam = None \<or> Role acc = RoleAdmin then rd = policyDecisionAllow
      else \<exists>eval. the iam (Access acc) (SessionToken acc) [BypassGovernanceRetentionAction]
             [objectPolicyArn bucket key (Some (be_NormalizeObjectKey be))] condCtx = Inr eval
           \<and> evaluation_grants eval 1 rd)"
proof -
  let ?o = "bypass_opts acc bucket key" and ?n = "Some (be_NormalizeObjectKey be)"
  let ?rd = "\<lparr>dfr_Decision = rd, dfr_Action = []\<rparr>"
  let ?c = "the iam (Access acc) (SessionToken acc) [BypassGovernanceRetentionAction] [objectPolicyArn bucket key ?n] condCtx"
  have o: "opt_Acc ?o = acc" "opt_Bucket ?o = bucket" "opt_Actions ?o = [BypassGovernanceRetentionAction]"
    by (simp_all add: bypass_opts_def zero_AccessOptions_def)
  show ?thesis
  proof (cases "rd = policyDecisionDeny \<or> iam = None \<or> Role acc = RoleAdmin")
    case True
    then show ?thesis by (auto simp: bypass_after_policy_def Let_def)
  next
    case False
    have "bypass_after_policy be iam acc bucket key condCtx rd = None \<longleftrightarrow>
        (\<exists>identity. identityPolicyDecisions (the iam) ?o [key] ?n condCtx = Inr identity
           \<and> key_access_error be ?o [key] [?rd] identity 0 = None)"
      using False unfolding bypass_after_policy_def Let_def key_access_error_None
      by (auto split: sum.splits if_splits)
    moreover have "(\<exists>identity. identityPolicyDecisions (the iam) ?o [key] ?n condCtx = Inr identity
           \<and> key_access_error be ?o [key] [?rd] identity 0 = None) \<longleftrightarrow>
        (\<exists>eval. ?c = Inr eval \<and> evaluation_grants eval 1 rd)"
    proof (cases ?c)
      case (Inl e)
      then show ?thesis by (simp add: identityPolicyDecisions_def o)
    next
      case (Inr eval)
      then have "the iam (Access (opt_Acc ?o)) (SessionToken (opt_Acc ?o)) (opt_Actions ?o)
          [objectPolicyArn (opt_Bucket ?o) key ?n] condCtx = Inr eval" by (simp add: o)
      from identity_single_key [where pe = "the iam" and opts = ?o, OF this, of be ?rd] Inr show ?thesis
        by (simp add: o)
    qed
    ultimately show ?thesis using False by auto
  qed
qed

lemma scatter_length: "length (scatter idx es errs) = length errs"
  by (induction idx es errs rule: scatter.induct) simp_all



section \<open>Properties\<close>


definition lock_host :: cond_host where
  "lock_host = null_host\<lparr>ParseTime := (\<lambda>_ s. if s = ''T100'' then Some 100 else None)\<rparr>"

definition lock_backend :: "string \<Rightarrow> bool \<Rightarrow> backend" where
  "lock_backend mode hold = (demo_backend None)\<lparr>
     be_GetObjectRetention := (\<lambda>_ _ _. Inr (Some (JObj [(''Mode'', JStr mode), (''RetainUntilDate'', JStr ''T100'')]))),
     be_GetObjectLegalHold := (\<lambda>_ _ _. Inr (Some hold))\<rparr>"

definition lock_obj :: ObjectIdentifier where
  "lock_obj = \<lparr>oid_Key = Some ''k'', oid_VersionId = Some ''v1''\<rparr>"

definition lock_state :: objectLockState where
  "lock_state = \<lparr>ols_applies = True, ols_defaultRetention = None, ols_versioningEnabled = True\<rparr>"

lemma lock_own_retention:
  "own_retention lock_host lock_state (lock_backend mode hold) ''b'' lock_obj mode 100"
proof -
  have f: "\<not> EqualFold ''RetainUntilDate'' ''Mode''" by code_simp
  show ?thesis
    by (simp add: own_retention_def lock_obj_def deref_string_def lock_backend_def
        ParseObjectLockRetentionOutput_def lock_host_def f)
qed


text \<open>
  C21. A stored COMPLIANCE retention can only be replaced by a COMPLIANCE retention that ends
  no earlier, whoever asks and whatever the bypass header says. A stored GOVERNANCE retention
  can be extended by anyone who may put a retention; weakening it needs the bypass header and
  the bypass permission.
\<close>

theorem retention_put_never_weakens:
  assumes "be_GetObjectRetention be bucket object versionId = Inr data"
    and "ParseObjectLockRetentionOutput h data = Inr retention"
    and "IsObjectLockRetentionPutAllowed h ctx be iam bucket object versionId acc input bypass = None"
  shows "(ret_Mode retention = ObjectLockRetentionModeCompliance \<longrightarrow>
      pri_Mode input = ObjectLockRetentionModeCompliance
      \<and> (\<exists>date. ret_RetainUntilDate retention = Some date \<and> date \<le> pri_RetainUntilDate input))
    \<and> (ret_Mode retention \<noteq> pri_Mode input
        \<or> (\<forall>date. ret_RetainUntilDate retention = Some date \<longrightarrow> pri_RetainUntilDate input < date) \<longrightarrow>
      bypass \<and> verifyBypassGovernancePermission h be iam acc bucket object BypassRequested False
                 (requestConditionContext ctx) = None)"
  using assms
  by (auto simp: IsObjectLockRetentionPutAllowed_def Let_def split: if_splits option.splits)

theorem retention_put_never_weakens_witness:
  "\<exists>retention. ret_Mode retention = ObjectLockRetentionModeCompliance
     \<and> ParseObjectLockRetentionOutput lock_host
         (Some (JObj [(''Mode'', JStr ''COMPLIANCE''), (''RetainUntilDate'', JStr ''T100'')])) = Inr retention
     \<and> IsObjectLockRetentionPutAllowed lock_host demo_request (lock_backend ''COMPLIANCE'' False) None ''b'' ''k'' []
         demo_user \<lparr>pri_Mode = ''COMPLIANCE'', pri_RetainUntilDate = 200\<rparr> False = None
     \<and> (\<exists>date. ret_RetainUntilDate retention = Some date \<and> date \<le> 200)"
proof -
  let ?r = "\<lparr>ret_Mode = ''COMPLIANCE'', ret_RetainUntilDate = Some 100\<rparr>"
  let ?in = "\<lparr>pri_Mode = ''COMPLIANCE'', pri_RetainUntilDate = 200\<rparr>"
  have p: "ParseObjectLockRetentionOutput lock_host
      (Some (JObj [(''Mode'', JStr ''COMPLIANCE''), (''RetainUntilDate'', JStr ''T100'')])) = Inr ?r"
    by code_simp
  have g: "be_GetObjectRetention (lock_backend ''COMPLIANCE'' False) ''b'' ''k'' [] =
      Inr (Some (JObj [(''Mode'', JStr ''COMPLIANCE''), (''RetainUntilDate'', JStr ''T100'')]))"
    by (simp add: lock_backend_def)
  have a: "IsObjectLockRetentionPutAllowed lock_host demo_request (lock_backend ''COMPLIANCE'' False) None ''b'' ''k'' []
      demo_user ?in False = None"
    using p g by (simp add: IsObjectLockRetentionPutAllowed_def)
  from retention_put_never_weakens [OF g p a] p a show ?thesis
    by (intro exI [of _ ?r]) (simp add: ObjectLockRetentionModeCompliance_def)
qed

text \<open>
  Overwriting a governance-locked object needs an explicit grant in the bucket policy
  even for root and admin: for such a caller the check succeeds exactly when the policy allows
  \<open>s3:BypassGovernanceRetention\<close> on the object.
\<close>

theorem overwrite_bypass_needs_grant:
  assumes "Role acc = RoleAdmin"
  shows "verifyBypassGovernancePermission h be iam acc bucket key BypassOverwrite False condCtx = None \<longleftrightarrow>
    (\<exists>policy action. be_GetBucketPolicy be bucket = Inr policy
       \<and> verifyBucketPolicy h policy (Access acc) bucket key condCtx (Some (be_NormalizeObjectKey be))
           [BypassGovernanceRetentionAction] = Inr (policyDecisionAllow, action))"
  using assms
  by (auto simp: verifyBypassGovernancePermission_def bypass_after_policy_None Let_def
      simp del: not_None_eq split: sum.splits if_splits)

theorem overwrite_bypass_needs_grant_witness:
  "verifyBypassGovernancePermission lock_host (lock_backend ObjectLockRetentionModeGovernance False) None demo_root
     ''b'' ''k'' BypassOverwrite False [] \<noteq> None"
  using overwrite_bypass_needs_grant [of demo_root lock_host "lock_backend ObjectLockRetentionModeGovernance False"
      None "''b''" "''k''" "[]"]
  by (simp add: demo_root_def lock_backend_def demo_backend_def)

text \<open>
  Once the object's own retention has expired, the object counts as writable even while a
  legal hold is on it: the hold is not looked at.
\<close>

theorem expired_retention_hides_legal_hold:
  assumes "own_retention h s be bucket obj mode date" "mode \<noteq> []" "date < now"
    and "be_GetObjectLegalHold be bucket (deref_string (oid_Key obj)) (deref_string (oid_VersionId obj)) = Inr (Some True)"
  shows "checkObject h now s be iam acc bucket obj bypass pub condCtx = None"
  using assms by (simp add: checkObject_own_retention)

theorem expired_retention_hides_legal_hold_witness:
  "be_GetObjectLegalHold (lock_backend ''GOVERNANCE'' True) ''b'' ''k'' ''v1'' = Inr (Some True)
   \<and> checkObject lock_host 101 lock_state (lock_backend ''GOVERNANCE'' True) None demo_user ''b'' lock_obj
       BypassNone False [] = None"
proof -
  have "be_GetObjectLegalHold (lock_backend ''GOVERNANCE'' True) ''b'' (deref_string (oid_Key lock_obj))
      (deref_string (oid_VersionId lock_obj)) = Inr (Some True)"
    by (simp add: lock_backend_def)
  from expired_retention_hides_legal_hold [OF lock_own_retention _ _ this, of 101] show ?thesis
    by (simp add: lock_backend_def)
qed

text \<open>
  A legal hold on an object without a retention of its own blocks every request that is
  checked at all.
\<close>

theorem legal_hold_blocks:
  assumes "\<not> (ols_versioningEnabled s \<and> deref_string (oid_VersionId obj) = [])"
    and "be_GetObjectRetention be bucket (deref_string (oid_Key obj)) (deref_string (oid_VersionId obj)) =
      Inl (APIError ErrNoSuchObjectLockConfiguration)"
    and "be_GetObjectLegalHold be bucket (deref_string (oid_Key obj)) (deref_string (oid_VersionId obj)) = Inr (Some True)"
  shows "checkObject h now s be iam acc bucket obj bypass pub condCtx = Some (APIError ErrObjectLocked)"
  using assms by (auto simp: checkObject_def Let_def check_hold_and_default_def)

theorem legal_hold_blocks_witness:
  "checkObject lock_host 0 lock_state
     ((demo_backend None)\<lparr>be_GetObjectLegalHold := (\<lambda>_ _ _. Inr (Some True))\<rparr>) None demo_root ''b'' lock_obj
     BypassRequested False [] = Some (APIError ErrObjectLocked)"
  by (rule legal_hold_blocks) (simp_all add: lock_obj_def deref_string_def demo_backend_def)




lemma authorize_batch_length:
  assumes "authorize_batch h be opts objects condCtx = Inr errs"
  shows "length errs = length objects"
  using assms
  by (auto simp: authorize_batch_def authorizeObjectSubset_def Let_def scatter_length
      split: if_splits sum.splits)


text \<open>
  C22. A multi-object delete answers for every object, in order, and an object it lets through
  has passed the lock check of the bucket, whoever the caller is; a read-only gateway rejects
  the whole request for everyone.
\<close>

theorem VerifyObjectsAccess_checks_locks:
  assumes "VerifyObjectsAccess h now ctx be opts objects bypass = Inr errs"
    and "loadObjectLockState h now be (opt_Bucket opts) False = Inr st" "ols_applies st"
  shows "length errs = length objects
    \<and> (\<forall>i < length objects. errs ! i = None \<longrightarrow>
         checkObject h now st be (opt_Iam opts) (opt_Acc opts) (opt_Bucket opts) (objects ! i) bypass
           (opt_IsPublicRequest opts) (requestConditionContext ctx) = None)
    \<and> \<not> (opt_Readonly opts \<and> opt_AclPermission opts = PermissionWrite)"
proof -
  have "verifyAccessGates opts = None"
    using assms(1) by (auto simp: VerifyObjectsAccess_def split: option.splits)
  then have "\<not> (opt_Readonly opts \<and> opt_AclPermission opts = PermissionWrite)"
    by (auto simp: verifyAccessGates_def split: if_splits)
  with assms show ?thesis
    by (auto simp: VerifyObjectsAccess_def Let_def split: option.splits if_splits sum.splits)
qed

definition locked_backend :: backend where
  "locked_backend = (lock_backend ''COMPLIANCE'' False)\<lparr>
     be_GetObjectLockConfiguration := (\<lambda>_. Inr (Some (JObj [(''Enabled'', JBool True)])))\<rparr>"

definition root_delete :: AccessOptions where
  "root_delete = zero_AccessOptions\<lparr>opt_Acc := demo_root, opt_IsRoot := True, opt_Bucket := ''b'',
     opt_AclPermission := PermissionWrite\<rparr>"

theorem VerifyObjectsAccess_checks_locks_witness:
  "\<exists>errs. VerifyObjectsAccess lock_host 50 demo_request locked_backend root_delete [lock_obj] BypassRequested = Inr errs
     \<and> length errs = 1"
proof -
  let ?r = "VerifyObjectsAccess lock_host 50 demo_request locked_backend root_delete [lock_obj] BypassRequested"
  have l: "loadObjectLockState lock_host 50 locked_backend (opt_Bucket root_delete) False =
      Inr \<lparr>ols_applies = True, ols_defaultRetention = None, ols_versioningEnabled = False\<rparr>"
    by (simp add: loadObjectLockState_def locked_backend_def unmarshal_BucketLockConfig_def lock_backend_def demo_backend_def)
  obtain errs where r: "?r = Inr errs"
    using l by (auto simp: VerifyObjectsAccess_def verifyAccessGates_def authorize_batch_def
        authorizationApplies_def root_delete_def zero_AccessOptions_def)
  from VerifyObjectsAccess_checks_locks [OF r l] r show ?thesis by simp
qed



end
