(* ===== verification/Bucket_CORS.thy ===== *)
theory Bucket_CORS
  imports Glob_Match S3_Errors
begin

text \<open>
  CORS configurations (auth/bucket_cors.go): validation when a configuration is put, the choice
  of the rule that allows a preflight request, and the answer built from it. A configuration
  is given decoded from its XML form.
\<close>

type_synonym CORSHeader = string
type_synonym CORSHTTPMethod = string
type_synonym CORSOrigin = string

record CORSRule =
  AllowedMethods :: "CORSHTTPMethod list"
  AllowedHeaders :: "CORSHeader list"
  ExposeHeaders :: "CORSHeader list"
  AllowedOrigins :: "CORSOrigin list"
  MaxAgeSeconds :: "int option"

type_synonym CORSConfiguration = "CORSRule list"

record CORSAllowanceConfig =
  alw_Origin :: string
  alw_Methods :: string
  alw_ExposedHeaders :: string
  alw_AllowCredentials :: string
  alw_AllowHeaders :: string
  alw_MaxAge :: "int option"

section \<open>Validation\<close>

definition header_char :: "char \<Rightarrow> bool" where
  "header_char c \<longleftrightarrow>
     c \<in> set ''!#$%&*+-.^_|~'' \<or> c = CHR 0x27 \<or> c = CHR 0x60
     \<or> ascii_alnum c"

definition headerRegex :: "string \<Rightarrow> bool" where
  "headerRegex s \<longleftrightarrow> s \<noteq> [] \<and> list_all header_char s"

definition CORSHeader_IsValid :: "CORSHeader \<Rightarrow> bool" where
  "CORSHeader_IsValid ch \<longleftrightarrow> ch = [] \<or> headerRegex ch"

definition CORSHTTPMethod_IsValid :: "CORSHTTPMethod \<Rightarrow> bool" where
  "CORSHTTPMethod_IsValid cm \<longleftrightarrow>
     cm = ''GET'' \<or> cm = ''HEAD'' \<or> cm = ''PUT'' \<or> cm = ''POST'' \<or> cm = ''DELETE''"

definition CORSHTTPMethod_IsEmpty :: "CORSHTTPMethod \<Rightarrow> bool" where
  "CORSHTTPMethod_IsEmpty cm \<longleftrightarrow> cm = []"

definition CORSOrigin_Validate :: "CORSOrigin \<Rightarrow> go_error option" where
  "CORSOrigin_Validate co =
     (if Count co (CHR ''*'') > 1 then Some (CORSErr ''MultipleWildcardCORSOrigin'' co) else None)"

definition CORSRule_Validate :: "CORSRule \<Rightarrow> go_error option" where
  "CORSRule_Validate cr =
     (if AllowedOrigins cr = [] then Some (APIError ErrMalformedXML)
      else case first_err CORSOrigin_Validate (AllowedOrigins cr) of Some e \<Rightarrow> Some e
      | None \<Rightarrow>
      if AllowedMethods cr = [] then Some (APIError ErrMalformedXML)
      else case first_err (\<lambda>method. if \<not> CORSHTTPMethod_IsValid method
                             then Some (CORSErr ''UnsupportedCORSMethod'' method) else None)
                  (AllowedMethods cr) of Some e \<Rightarrow> Some e
      | None \<Rightarrow>
      case first_err (\<lambda>header. if \<not> CORSHeader_IsValid header
                        then Some (CORSErr ''InvalidCORSHeader'' header) else None)
             (AllowedHeaders cr) of Some e \<Rightarrow> Some e
      | None \<Rightarrow>
      first_err (\<lambda>header. if \<not> CORSHeader_IsValid header
                   then Some (CORSErr ''InvalidCORSHeader'' header) else None) (ExposeHeaders cr))"

text \<open>A nil configuration and nil rules are \<open>None\<close>.\<close>

definition CORSConfiguration_Validate :: "CORSConfiguration option \<Rightarrow> go_error option" where
  "CORSConfiguration_Validate cc =
     (case cc of
        None \<Rightarrow> Some (APIError ErrMalformedXML)
      | Some rules \<Rightarrow>
          if rules = [] then Some (APIError ErrMalformedXML) else first_err CORSRule_Validate rules)"

section \<open>Matching\<close>

text \<open>\<open>Match\<close>: the pair (allowed, the matching origin is the wildcard).\<close>

definition CORSRule_Match :: "CORSRule \<Rightarrow> string \<Rightarrow> CORSHTTPMethod \<Rightarrow> CORSHeader list \<Rightarrow> bool \<times> bool" where
  "CORSRule_Match cr origin method headers =
     (case find (\<lambda>pat. wildcardMatch pat origin) (AllowedOrigins cr) of
        None \<Rightarrow> (False, False)
      | Some pat \<Rightarrow>
          if method \<notin> set (AllowedMethods cr) then (False, False)
          else if \<not> list_all (\<lambda>reqHeader.
                      list_ex (\<lambda>header. wildcardMatch (ToLower header) (ToLower reqHeader)) (AllowedHeaders cr))
                    headers
          then (False, False)
          else (True, pat = ''*''))"

definition GetExposeHeaders :: "CORSRule \<Rightarrow> string" where
  "GetExposeHeaders cr = Join (ExposeHeaders cr) '', ''"

definition buildAllowedHeaders :: "CORSHeader list \<Rightarrow> string" where
  "buildAllowedHeaders headers = Join (map ToLower headers) '', ''"

definition GetAllowedMethods :: "CORSRule \<Rightarrow> string" where
  "GetAllowedMethods cr = Join (AllowedMethods cr) '', ''"

definition corsForbidden :: "string \<Rightarrow> go_error" where
  "corsForbidden rt = CodedError ErrCORSForbidden [''OPTIONS'', rt]"

fun allowed_loop ::
    "CORSRule list \<Rightarrow> string \<Rightarrow> CORSHTTPMethod \<Rightarrow> CORSHeader list \<Rightarrow> string \<Rightarrow> (go_error, CORSAllowanceConfig) result" where
  "allowed_loop [] origin method headers rt = Inl (corsForbidden rt)"
| "allowed_loop (rule # rules) origin method headers rt =
     (let (isAllowed, wildcardOrigin) = CORSRule_Match rule origin method headers
      in if isAllowed then
           Inr \<lparr>alw_Origin = (if wildcardOrigin then ''*'' else origin),
                alw_Methods = GetAllowedMethods rule,
                alw_ExposedHeaders = GetExposeHeaders rule,
                alw_AllowCredentials = (if wildcardOrigin then ''false'' else ''true''),
                alw_AllowHeaders = buildAllowedHeaders headers,
                alw_MaxAge = MaxAgeSeconds rule\<rparr>
         else allowed_loop rules origin method headers rt)"

definition CORS_IsAllowed ::
    "CORSConfiguration \<Rightarrow> string \<Rightarrow> CORSHTTPMethod \<Rightarrow> CORSHeader list \<Rightarrow> string \<Rightarrow> (go_error, CORSAllowanceConfig) result" where
  "CORS_IsAllowed rules origin method headers rt =
     (if CORSHTTPMethod_IsEmpty method then Inl (corsForbidden rt)
      else allowed_loop rules origin method headers rt)"

definition ParseCORSHeaders :: "string \<Rightarrow> (go_error, CORSHeader list) result" where
  "ParseCORSHeaders headers =
     (if headers = [] then Inr []
      else map_res (\<lambda>h. let corsHeader = TrimSpace h
             in if corsHeader = [] \<or> \<not> CORSHeader_IsValid corsHeader
                then Inl (CORSErr ''InvalidCORSRequestHeader'' h) else Inr corsHeader)
             (Split headers (CHR '','')))"

section \<open>Facts\<close>

lemma allowed_loop_find:
  "allowed_loop rules origin method headers rt =
     (case find (\<lambda>rule. fst (CORSRule_Match rule origin method headers)) rules of
        None \<Rightarrow> Inl (corsForbidden rt)
      | Some rule \<Rightarrow>
          let wildcardOrigin = snd (CORSRule_Match rule origin method headers)
          in Inr \<lparr>alw_Origin = (if wildcardOrigin then ''*'' else origin),
                  alw_Methods = GetAllowedMethods rule,
                  alw_ExposedHeaders = GetExposeHeaders rule,
                  alw_AllowCredentials = (if wildcardOrigin then ''false'' else ''true''),
                  alw_AllowHeaders = buildAllowedHeaders headers,
                  alw_MaxAge = MaxAgeSeconds rule\<rparr>)"
  by (induction rules) (auto simp: split_beta Let_def)

lemma CORSRule_Match_origin:
  assumes "CORSRule_Match rule origin method headers = (True, w)"
  obtains pat where "find (\<lambda>pat. wildcardMatch pat origin) (AllowedOrigins rule) = Some pat"
    "pat \<in> set (AllowedOrigins rule)" "wildcardMatch pat origin" "w \<longleftrightarrow> pat = ''*''"
    "method \<in> set (AllowedMethods rule)"
  using assms find_Some_mem
  by (fastforce simp: CORSRule_Match_def split: option.splits if_splits)

lemma is_ok_allowed_loop:
  "is_ok (allowed_loop rules origin method headers rt) \<longleftrightarrow>
     (\<exists>rule \<in> set rules. fst (CORSRule_Match rule origin method headers))"
  by (induction rules) (simp_all add: split_beta Let_def)

lemma allowed_loop_Inr:
  assumes "allowed_loop rules origin method headers rt = Inr a"
  obtains rule pat where
    "find (\<lambda>rule. fst (CORSRule_Match rule origin method headers)) rules = Some rule"
    "find (\<lambda>pat. wildcardMatch pat origin) (AllowedOrigins rule) = Some pat"
    "method \<in> set (AllowedMethods rule)"
    "alw_Origin a = (if pat = ''*'' then ''*'' else origin)"
    "alw_AllowCredentials a = (if pat = ''*'' then ''false'' else ''true'')"
proof -
  from assms obtain rule where
    f: "find (\<lambda>rule. fst (CORSRule_Match rule origin method headers)) rules = Some rule"
    unfolding allowed_loop_find by (cases "find (\<lambda>rule. fst (CORSRule_Match rule origin method headers)) rules") simp_all
  let ?w = "snd (CORSRule_Match rule origin method headers)"
  from assms f have a: "alw_Origin a = (if ?w then ''*'' else origin)"
    "alw_AllowCredentials a = (if ?w then ''false'' else ''true'')"
    unfolding allowed_loop_find f option.case Let_def sum.inject by (drule_tac [!] sym) simp_all
  from f have "CORSRule_Match rule origin method headers = (True, ?w)"
    using find_Some_mem [OF f] by (cases "CORSRule_Match rule origin method headers") simp
  then obtain pat where "find (\<lambda>pat. wildcardMatch pat origin) (AllowedOrigins rule) = Some pat"
    "?w \<longleftrightarrow> pat = ''*''" "method \<in> set (AllowedMethods rule)"
    by (rule CORSRule_Match_origin)
  with f a that [of rule pat] show thesis by simp
qed

lemma glob_literal:
  "CHR ''*'' \<notin> set p \<Longrightarrow> glob (\<lambda>c. False) p s \<longleftrightarrow> s = p"
proof (induction p arbitrary: s)
  case (Cons c p)
  then show ?case by (cases s) auto
qed (case_tac s; simp)

lemma glob_one_star:
  assumes "CHR ''*'' \<notin> set a" "CHR ''*'' \<notin> set b"
  shows "glob (\<lambda>c. False) (a @ ''*'' @ b) s \<longleftrightarrow> (\<exists>m. s = a @ m @ b)"
  using assms(1)
proof (induction a arbitrary: s)
  case Nil
  have "glob (\<lambda>c. False) (CHR ''*'' # b) s \<longleftrightarrow> (\<exists>k \<le> length s. drop k s = b)"
    by (simp add: glob_star glob_literal [OF assms(2)])
  also have "\<dots> \<longleftrightarrow> (\<exists>m. s = m @ b)"
    by (metis append_eq_conv_conj append_take_drop_id length_append le_add1)
  finally show ?case by simp
next
  case (Cons c a)
  then show ?case by (cases s) auto
qed

lemma Count_le_1_split:
  assumes "Count s d \<le> 1" "d \<in> set s"
  obtains a b where "s = a @ d # b" "d \<notin> set a" "d \<notin> set b"
proof -
  from assms(2) obtain a b where s: "s = a @ d # b" "d \<notin> set a" by (meson split_list_first)
  with assms(1) have "filter (\<lambda>x. x = d) b = []" by (simp add: Count_def)
  then have "d \<notin> set b" by (auto simp: filter_empty_conv)
  with s that show thesis by blast
qed

section \<open>Properties\<close>

text \<open>
  A preflight request is allowed exactly when its method is not empty and some rule
  matches it; the answer is built from the first such rule. Credentials are allowed only
  together with the caller's own origin, and the wildcard origin is announced exactly when the
  matching pattern is the single star.
\<close>

theorem CORS_IsAllowed_first_rule:
  "(is_ok (CORS_IsAllowed rules origin method headers rt) \<longleftrightarrow>
      method \<noteq> [] \<and> (\<exists>rule \<in> set rules. fst (CORSRule_Match rule origin method headers)))
   \<and> (CORS_IsAllowed rules origin method headers rt = Inr a \<longrightarrow>
      (alw_AllowCredentials a = ''true'' \<longrightarrow> alw_Origin a = origin)
      \<and> (\<exists>rule pat. find (\<lambda>rule. fst (CORSRule_Match rule origin method headers)) rules = Some rule
           \<and> find (\<lambda>pat. wildcardMatch pat origin) (AllowedOrigins rule) = Some pat
           \<and> method \<in> set (AllowedMethods rule)
           \<and> alw_Origin a = (if pat = ''*'' then ''*'' else origin)
           \<and> alw_AllowCredentials a = (if pat = ''*'' then ''false'' else ''true'')))"
  (is "_ \<and> (_ \<longrightarrow> ?answer)")
proof
  show "is_ok (CORS_IsAllowed rules origin method headers rt) \<longleftrightarrow>
      method \<noteq> [] \<and> (\<exists>rule \<in> set rules. fst (CORSRule_Match rule origin method headers))"
    by (simp add: CORS_IsAllowed_def CORSHTTPMethod_IsEmpty_def is_ok_allowed_loop)
next
  show "CORS_IsAllowed rules origin method headers rt = Inr a \<longrightarrow> ?answer"
  proof
    assume "CORS_IsAllowed rules origin method headers rt = Inr a"
    then have "allowed_loop rules origin method headers rt = Inr a"
      by (simp add: CORS_IsAllowed_def split: if_split_asm)
    then obtain rule pat where
      "find (\<lambda>rule. fst (CORSRule_Match rule origin method headers)) rules = Some rule"
      "find (\<lambda>pat. wildcardMatch pat origin) (AllowedOrigins rule) = Some pat"
      "method \<in> set (AllowedMethods rule)"
      "alw_Origin a = (if pat = ''*'' then ''*'' else origin)"
      "alw_AllowCredentials a = (if pat = ''*'' then ''false'' else ''true'')"
      by (rule allowed_loop_Inr)
    then show ?answer by (intro conjI exI [of _ rule] exI [of _ pat]) auto
  qed
qed

definition demo_rule :: CORSRule where
  "demo_rule = \<lparr>AllowedMethods = [''GET''], AllowedHeaders = [''x-*''], ExposeHeaders = [],
     AllowedOrigins = [''https://*.example.com''], MaxAgeSeconds = None\<rparr>"

theorem CORS_IsAllowed_first_rule_witness:
  "\<exists>a. CORS_IsAllowed [demo_rule] ''https://a.example.com'' ''GET'' [''X-Foo''] ''BUCKET'' = Inr a
     \<and> alw_Origin a = ''https://a.example.com''"
proof -
  let ?r = "CORS_IsAllowed [demo_rule] ''https://a.example.com'' ''GET'' [''X-Foo''] ''BUCKET''"
  have ok: "?r = Inr (projr ?r)" and c: "alw_AllowCredentials (projr ?r) = ''true''" by code_simp+
  from CORS_IsAllowed_first_rule [of "[demo_rule]" "''https://a.example.com''" "''GET''" "[''X-Foo'']" "''BUCKET''" "projr ?r"]
    ok c show ?thesis by auto
qed

text \<open>
  In an accepted configuration every origin pattern has at most one star, and for an
  origin without a star it matches exactly the origins with the given prefix and suffix (or
  the very origin, where it has no star).
\<close>

theorem CORS_origin_semantics:
  assumes "CORSConfiguration_Validate (Some rules) = None" "rule \<in> set rules"
    and "pat \<in> set (AllowedOrigins rule)" "CHR ''*'' \<notin> set origin"
  shows "wildcardMatch pat origin \<longleftrightarrow>
    pat = origin \<or> (\<exists>a m b. pat = a @ ''*'' @ b \<and> origin = a @ m @ b)"
proof -
  have "CORSRule_Validate rule = None"
    using assms(1,2) by (auto simp: CORSConfiguration_Validate_def split: if_splits)
  then have "CORSOrigin_Validate pat = None"
    using assms(3) by (auto simp: CORSRule_Validate_def split: if_splits option.splits)
  then have count: "Count pat (CHR ''*'') \<le> 1" by (auto simp: CORSOrigin_Validate_def split: if_splits)
  have eq: "wildcardMatch pat origin \<longleftrightarrow> glob (\<lambda>c. False) pat origin"
    using wm.run_eq_glob [OF assms(4)] by (simp add: wildcardMatch_accepts)
  show ?thesis
  proof (cases "CHR ''*'' \<in> set pat")
    case False
    then show ?thesis using eq glob_literal [OF False] by auto
  next
    case True
    with count obtain a b where ab: "pat = a @ ''*'' @ b" "CHR ''*'' \<notin> set a" "CHR ''*'' \<notin> set b"
      by (rule Count_le_1_split) auto
    have "wildcardMatch pat origin \<longleftrightarrow> (\<exists>m. origin = a @ m @ b)"
      using eq glob_one_star [OF ab(2,3)] ab(1) by simp
    moreover have "pat \<noteq> origin" using True assms(4) by auto
    moreover have "a' = a \<and> b' = b" if "pat = a' @ ''*'' @ b'" for a' b'
      using that ab append_Cons_eq_iff [OF ab(2,3)] by simp
    ultimately show ?thesis using ab(1) by blast
  qed
qed

theorem CORS_origin_semantics_witness:
  "wildcardMatch ''https://*.example.com'' ''https://a.example.com''"
proof -
  have v: "CORSConfiguration_Validate (Some [demo_rule]) = None" by code_simp
  have "\<exists>a m b. ''https://*.example.com'' = a @ ''*'' @ b \<and> ''https://a.example.com'' = a @ m @ b"
    by (intro exI [of _ "''https://''"] exI [of _ "''a''"] exI [of _ "''.example.com''"]) simp
  then show ?thesis
    using CORS_origin_semantics [OF v, of demo_rule "''https://*.example.com''" "''https://a.example.com''"]
    by (simp add: demo_rule_def)
qed

end
