(* ===== verification/Post_Policy.thy ===== *)
theory Post_Policy
  imports Condition_Eval S3_Errors
begin

text \<open>
  POST policies (auth/post_policy.go): the policy document of a browser-based upload is decoded,
  its conditions are parsed, and the submitted form is checked against them. The base64
  decoders and the JSON parser of the Go library are the fields of \<open>post_host\<close>; the object of the
  document is a list of members in the order the code's loop visits them.
\<close>

record post_host =
  ph_cond :: cond_host
  ph_StdEncoding :: "string \<Rightarrow> string option"
  ph_RawStdEncoding :: "string \<Rightarrow> string option"
  ph_json :: "string \<Rightarrow> json_bytes"

section \<open>Conditions\<close>

record PostPolicyEvalInput =
  pin_Bucket :: string
  pin_Key :: string
  pin_ContentLength :: int
  pin_Fields :: "(string \<times> string) list"

text \<open>
  The three condition types. The raw condition is \<open>None\<close> for the object form, where the code keeps
  no raw text.
\<close>

datatype postPolicyCondition =
    exactCondition string string "json option"
  | startsWithCondition string string json
  | contentLengthRangeCondition int int

record POSTPolicy =
  pol_expiration :: int
  pol_conditions :: "postPolicyCondition list"

fun isBucketCondition :: "postPolicyCondition \<Rightarrow> bool" where
  "isBucketCondition (exactCondition field value raw) = (field = ''bucket'')"
| "isBucketCondition (startsWithCondition field pre raw) = (field = ''bucket'')"
| "isBucketCondition (contentLengthRangeCondition lo hi) = False"

text \<open>The condition as error messages show it; the object form is shown as an eq condition.\<close>

fun condition_expr :: "postPolicyCondition \<Rightarrow> json" where
  "condition_expr (exactCondition field value None) = JArr [JStr ''eq'', JStr (CHR ''$'' # field), JStr value]"
| "condition_expr (exactCondition field value (Some raw)) = raw"
| "condition_expr (startsWithCondition field pre raw) = raw"
| "condition_expr (contentLengthRangeCondition lo hi) = JNull"

definition ConditionFailed :: "postPolicyCondition \<Rightarrow> go_error" where
  "ConditionFailed c = PolicyConditionErr (condition_expr c)"

fun condition_validate :: "postPolicyCondition \<Rightarrow> go_error option" where
  "condition_validate (exactCondition field value raw) =
     (if TrimSpace field = [] then Some (ConditionFailed (exactCondition field value raw)) else None)"
| "condition_validate (startsWithCondition field pre raw) =
     (if TrimSpace field = [] then Some (ConditionFailed (startsWithCondition field pre raw)) else None)"
| "condition_validate (contentLengthRangeCondition lo hi) = None"

fun coveredField :: "postPolicyCondition \<Rightarrow> string" where
  "coveredField (exactCondition field value raw) = field"
| "coveredField (startsWithCondition field pre raw) = field"
| "coveredField (contentLengthRangeCondition lo hi) = []"

definition lookupField :: "PostPolicyEvalInput \<Rightarrow> string \<Rightarrow> string option" where
  "lookupField inp field =
     (if field = ''bucket'' then Some (pin_Bucket inp)
      else if field = ''key'' then Some (pin_Key inp)
      else map_of (pin_Fields inp) field)"

definition startsWithMatch :: "string \<Rightarrow> string \<Rightarrow> string \<Rightarrow> bool" where
  "startsWithMatch field val pre =
     (if field = ''content-type'' \<and> CHR '','' \<in> set val
      then list_all (\<lambda>part. HasPrefix (TrimSpace part) pre) (Split val (CHR '',''))
      else HasPrefix val pre)"

fun condition_match :: "postPolicyCondition \<Rightarrow> PostPolicyEvalInput \<Rightarrow> go_error option" where
  "condition_match (exactCondition field value raw) inp =
     (case lookupField inp field of
        None \<Rightarrow> Some (ConditionFailed (exactCondition field value raw))
      | Some got \<Rightarrow>
          if got \<noteq> value then Some (ConditionFailed (exactCondition field value raw)) else None)"
| "condition_match (startsWithCondition field pre raw) inp =
     (case lookupField inp field of
        None \<Rightarrow> Some (ConditionFailed (startsWithCondition field pre raw))
      | Some got \<Rightarrow>
          if \<not> startsWithMatch field got pre
          then Some (ConditionFailed (startsWithCondition field pre raw)) else None)"
| "condition_match (contentLengthRangeCondition lo hi) inp =
     (if pin_ContentLength inp > hi then Some (EntityTooLarge (pin_ContentLength inp) hi)
      else if pin_ContentLength inp < lo then Some (EntityTooSmall (pin_ContentLength inp) lo)
      else None)"

section \<open>Evaluation\<close>

definition hasConditionForField :: "POSTPolicy \<Rightarrow> string \<Rightarrow> bool" where
  "hasConditionForField p field = list_ex (\<lambda>cond. coveredField cond = field) (pol_conditions p)"

definition isIgnoredCoverageField :: "string \<Rightarrow> bool" where
  "isIgnoredCoverageField field \<longleftrightarrow>
     field = ''file'' \<or> field = ''policy'' \<or> field = ''x-amz-signature'' \<or> HasPrefix field ''x-ignore-''"

definition ExtraInputField :: "string \<Rightarrow> go_error" where
  "ExtraInputField field = PolicyDocumentErr ''ExtraInputField'' [field]"

text \<open>The loop over the conditions with its flag \<open>metBucketCondition\<close>.\<close>

fun match_loop :: "postPolicyCondition list \<Rightarrow> bool \<Rightarrow> PostPolicyEvalInput \<Rightarrow> (go_error, bool) result" where
  "match_loop [] met inp = Inr met"
| "match_loop (cond # conds) met inp =
     (case condition_match cond inp of
        Some err \<Rightarrow> Inl err
      | None \<Rightarrow> match_loop conds (if \<not> met \<and> isBucketCondition cond then True else met) inp)"

definition POSTPolicy_Evaluate :: "POSTPolicy \<Rightarrow> PostPolicyEvalInput \<Rightarrow> go_error option" where
  "POSTPolicy_Evaluate p inp =
     (case first_err (\<lambda>field. if isIgnoredCoverageField field then None
                             else if \<not> hasConditionForField p field then Some (ExtraInputField field)
                             else None) (map fst (pin_Fields inp)) of
        Some err \<Rightarrow> Some err
      | None \<Rightarrow>
          (case match_loop (pol_conditions p) False inp of
             Inl err \<Rightarrow> Some err
           | Inr metBucketCondition \<Rightarrow>
               if \<not> metBucketCondition then Some (ExtraInputField ''bucket'') else None))"

section \<open>Parsing\<close>

abbreviation InvalidJSON :: go_error where
  "InvalidJSON \<equiv> PolicyDocumentErr ''InvalidJSON'' []"

definition decodeBase64Policy :: "post_host \<Rightarrow> string \<Rightarrow> (go_error, string) result" where
  "decodeBase64Policy h s =
     (let s = TrimSpace s in
      if s = [] then Inl (PolicyDocumentErr ''EmptyPolicy'' [])
      else case ph_StdEncoding h s of
          Some raw \<Rightarrow> Inr raw
        | None \<Rightarrow>
            (case ph_RawStdEncoding h s of
               Some raw \<Rightarrow> Inr raw
             | None \<Rightarrow> Inl (PolicyDocumentErr ''InvalidBase64Encoding'' [])))"

definition parseExpiration :: "cond_host \<Rightarrow> string \<Rightarrow> (go_error, int) result" where
  "parseExpiration h s =
     (case ParseTime h ''RFC3339Nano'' s of
        Some t \<Rightarrow> Inr t
      | None \<Rightarrow>
          (case ParseTime h ''RFC3339'' s of
             Some t \<Rightarrow> Inr t
           | None \<Rightarrow> Inl (PolicyDocumentErr ''InvalidExpiration'' [s])))"

text \<open>
  \<open>rawScalarToString\<close>: a string, or a number by its literal. \<open>parseJSONInt64\<close> reads the digits of
  a number and of a quoted number alike: a quoted text that is a JSON number decodes as
  \<open>json.Number\<close>, every other one goes to \<open>ParseInt\<close>, and null decodes as the empty number.
\<close>

fun rawScalarToString :: "json \<Rightarrow> string option" where
  "rawScalarToString (JStr s) = Some s"
| "rawScalarToString (JNum n) = Some n"
| "rawScalarToString _ = None"

definition parseJSONInt64 :: "json \<Rightarrow> (go_error, int) result" where
  "parseJSONInt64 raw =
     (case raw of
        JNum n \<Rightarrow> (case ParseInt64 n of Some v \<Rightarrow> Inr v | None \<Rightarrow> Inl InvalidJSON)
      | JStr s \<Rightarrow> (case ParseInt64 s of Some v \<Rightarrow> Inr v | None \<Rightarrow> Inl InvalidJSON)
      | _ \<Rightarrow> Inl InvalidJSON)"

text \<open>
  Decoding into \<open>any\<close> reads every number as a float64 and fails on one that is out of range.
\<close>

fun decodes_any :: "cond_host \<Rightarrow> json \<Rightarrow> bool" where
  "decodes_any h (JNum n) = (ParseFloat h n \<noteq> None)"
| "decodes_any h (JArr js) = list_all (decodes_any h) js"
| "decodes_any h (JObj ms) = list_all (\<lambda>m. decodes_any h (snd m)) ms"
| "decodes_any h j = True"

definition eq_condition :: "json \<Rightarrow> string \<Rightarrow> json list \<Rightarrow> (go_error, postPolicyCondition) result" where
  "eq_condition raw op arr =
     (case arr of
        [_, a, b] \<Rightarrow>
          (case json_string a of
             None \<Rightarrow> Inl InvalidJSON
           | Some fieldRef \<Rightarrow>
               (case rawScalarToString b of
                  None \<Rightarrow> Inl InvalidJSON
                | Some value \<Rightarrow>
                    if \<not> HasPrefix fieldRef ''$'' \<or> length fieldRef = 1 then Inl (PolicyConditionErr raw)
                    else
                      let field = ToLower (tl fieldRef)
                      in if op = ''eq'' then Inr (exactCondition field value (Some raw))
                         else Inr (startsWithCondition field value raw)))
      | _ \<Rightarrow> Inl (PolicyDocumentErr ''IncorrectConditionArgumentsNumber'' [op]))"

definition range_condition :: "string \<Rightarrow> json list \<Rightarrow> (go_error, postPolicyCondition) result" where
  "range_condition op arr =
     (case arr of
        [_, a, b] \<Rightarrow>
          bind_res (parseJSONInt64 a) (\<lambda>lo.
          bind_res (parseJSONInt64 b) (\<lambda>hi. Inr (contentLengthRangeCondition lo hi)))
      | _ \<Rightarrow> Inl (PolicyDocumentErr ''IncorrectConditionArgumentsNumber'' [op]))"

definition array_condition :: "json \<Rightarrow> (go_error, postPolicyCondition) result" where
  "array_condition raw =
     (case (case raw of JArr arr \<Rightarrow> Some arr | JNull \<Rightarrow> Some [] | _ \<Rightarrow> None) of
        None \<Rightarrow> Inl (PolicyDocumentErr ''InvalidCondition'' [])
      | Some [] \<Rightarrow> Inl (PolicyDocumentErr ''MissingConditionOperationIdentifier'' [])
      | Some (a # arr) \<Rightarrow>
          (case json_string a of
             None \<Rightarrow> Inl InvalidJSON
           | Some op \<Rightarrow>
               if op = ''eq'' \<or> op = ''starts-with'' then eq_condition raw op (a # arr)
               else if op = ''content-length-range'' then range_condition op (a # arr)
               else Inl (PolicyDocumentErr ''UnknownConditionOperation'' [op])))"

definition parseCondition :: "cond_host \<Rightarrow> json \<Rightarrow> (go_error, postPolicyCondition) result" where
  "parseCondition h raw =
     (case raw of
        JObj ms \<Rightarrow>
          if decodes_any h raw then
            (case json_map_entries ms of
               [(field, v)] \<Rightarrow>
                 (case v of
                    JStr s \<Rightarrow> Inr (exactCondition (ToLower field) s None)
                  | _ \<Rightarrow> Inl (PolicyDocumentErr ''InvalidSimpleCondition'' []))
             | _ \<Rightarrow> Inl (PolicyDocumentErr ''OnePropSimpleCondition'' []))
          else array_condition raw
      | _ \<Rightarrow> array_condition raw)"

definition POSTPolicy_validate :: "int \<Rightarrow> POSTPolicy \<Rightarrow> go_error option" where
  "POSTPolicy_validate now p =
     (if pol_expiration p < now then Some (PolicyDocumentErr ''PolicyExpired'' [])
      else first_err condition_validate (pol_conditions p))"

text \<open>The loop over the members of the document: the conditions and the expiration text.\<close>

fun document_loop ::
    "(string \<times> json) list \<Rightarrow> json list \<Rightarrow> string \<Rightarrow> (go_error, json list \<times> string) result" where
  "document_loop [] conditions expiration = Inr (conditions, expiration)"
| "document_loop ((key, value) # ms) conditions expiration =
     (if key = ''conditions'' then
        (case value of
           JArr js \<Rightarrow> document_loop ms js expiration
         | JNull \<Rightarrow> document_loop ms [] expiration
         | _ \<Rightarrow> Inl (PolicyDocumentErr ''InvalidConditions'' []))
      else if key = ''expiration'' then
        (case json_string value of
           Some s \<Rightarrow> document_loop ms conditions s
         | None \<Rightarrow> Inl InvalidJSON)
      else Inl (PolicyDocumentErr ''UnexpectedField'' [key]))"

definition parse_document :: "cond_host \<Rightarrow> int \<Rightarrow> (string \<times> json) list \<Rightarrow> (go_error, POSTPolicy) result" where
  "parse_document h now rp =
     (if ''expiration'' \<notin> fst ` set rp then Inl (PolicyDocumentErr ''MissingExpiration'' [])
      else if ''conditions'' \<notin> fst ` set rp then Inl (PolicyDocumentErr ''MissingConditions'' [])
      else bind_res (document_loop rp [] []) (\<lambda>(conditions, expiration).
           bind_res (parseExpiration h expiration) (\<lambda>exp.
           bind_res (map_res (parseCondition h) conditions) (\<lambda>conds.
             let p = \<lparr>pol_expiration = exp, pol_conditions = conds\<rparr>
             in case POSTPolicy_validate now p of Some err \<Rightarrow> Inl err | None \<Rightarrow> Inr p))))"

definition ParsePOSTPolicyBase64 :: "post_host \<Rightarrow> int \<Rightarrow> string \<Rightarrow> (go_error, POSTPolicy) result" where
  "ParsePOSTPolicyBase64 h now encoded =
     bind_res (decodeBase64Policy h encoded) (\<lambda>raw.
       case ph_json h raw of
         Some (JObj ms) \<Rightarrow> parse_document (ph_cond h) now (json_map_entries ms)
       | Some JNull \<Rightarrow> parse_document (ph_cond h) now []
       | _ \<Rightarrow> Inl InvalidJSON)"

section \<open>The contract of a condition\<close>




text \<open>What a condition means for a form.\<close>

fun condition_holds :: "PostPolicyEvalInput \<Rightarrow> postPolicyCondition \<Rightarrow> bool" where
  "condition_holds inp (exactCondition field value raw) = (lookupField inp field = Some value)"
| "condition_holds inp (startsWithCondition field pre raw) =
     (\<exists>v. lookupField inp field = Some v \<and> startsWithMatch field v pre)"
| "condition_holds inp (contentLengthRangeCondition lo hi) =
     (lo \<le> pin_ContentLength inp \<and> pin_ContentLength inp \<le> hi)"

lemma condition_match_holds: "condition_match c inp = None \<longleftrightarrow> condition_holds inp c"
  by (cases c) (auto split: option.splits)

lemma match_loop_eq:
  "match_loop conds met inp =
     (case first_err (\<lambda>c. condition_match c inp) conds of
        Some err \<Rightarrow> Inl err
      | None \<Rightarrow> Inr (met \<or> list_ex isBucketCondition conds))"
  by (induction conds arbitrary: met) (simp_all del: first_err_None split: option.split)

lemma hasConditionForField_iff:
  "hasConditionForField p f \<longleftrightarrow> f \<in> coveredField ` set (pol_conditions p)"
  by (auto simp: hasConditionForField_def list_ex_iff)

lemma Evaluate_None:
  "POSTPolicy_Evaluate p inp = None \<longleftrightarrow>
     (\<forall>f \<in> fst ` set (pin_Fields inp). isIgnoredCoverageField f \<or> f \<in> coveredField ` set (pol_conditions p))
     \<and> (\<forall>c \<in> set (pol_conditions p). condition_match c inp = None)
     \<and> (\<exists>c \<in> set (pol_conditions p). isBucketCondition c)"
  (is "_ \<longleftrightarrow> ?fields \<and> ?conds \<and> ?bucket")
proof -
  have "first_err (\<lambda>field. if isIgnoredCoverageField field then None
      else if \<not> hasConditionForField p field then Some (ExtraInputField field) else None)
      (map fst (pin_Fields inp)) = None \<longleftrightarrow> ?fields"
    by (simp only: first_err_None hasConditionForField_iff list.set_map) auto
  moreover have "(case match_loop (pol_conditions p) False inp of Inl err \<Rightarrow> Some err
      | Inr met \<Rightarrow> if \<not> met then Some (ExtraInputField ''bucket'') else None) = None \<longleftrightarrow> ?conds \<and> ?bucket"
    unfolding match_loop_eq list_ex_iff
    by (cases "first_err (\<lambda>c. condition_match c inp) (pol_conditions p)")
       (simp_all del: first_err_None add: first_err_None [symmetric])
  ultimately show ?thesis
    unfolding POSTPolicy_Evaluate_def case_err_None by (simp only:)
qed

section \<open>What parsing establishes\<close>

fun int64_range :: "postPolicyCondition \<Rightarrow> bool" where
  "int64_range (contentLengthRangeCondition lo hi) \<longleftrightarrow>
     - (2 ^ 63) \<le> lo \<and> lo < 2 ^ 63 \<and> - (2 ^ 63) \<le> hi \<and> hi < 2 ^ 63"
| "int64_range _ = True"

lemma ParseInt64_range: "ParseInt64 s = Some v \<Longrightarrow> - (2 ^ 63) \<le> v \<and> v < 2 ^ 63"
  by (auto simp: ParseInt64_def Let_def split: option.splits if_splits)

lemma parseJSONInt64_range: "parseJSONInt64 j = Inr v \<Longrightarrow> - (2 ^ 63) \<le> v \<and> v < 2 ^ 63"
  using ParseInt64_range by (fastforce simp: parseJSONInt64_def split: json.splits option.splits)

lemma lower_char_idem [simp]: "lower_char (lower_char c) = lower_char c"
  by (auto simp: lower_char_def less_eq_char_def of_char_of)

lemma ToLower_Nil [simp]: "ToLower [] = []"
  by (simp add: ToLower_def)

lemma ToLower_idem [simp]: "ToLower (ToLower s) = ToLower s"
  by (simp add: ToLower_def)

lemma array_condition_wf:
  assumes "array_condition raw = Inr c"
  shows "ToLower (coveredField c) = coveredField c \<and> int64_range c"
  using assms
  by (auto simp: array_condition_def eq_condition_def range_condition_def Let_def bind_res_Inr
      split: json.splits option.splits list.splits if_splits dest!: parseJSONInt64_range)

lemma parseCondition_wf:
  assumes "parseCondition h raw = Inr c"
  shows "ToLower (coveredField c) = coveredField c \<and> int64_range c"
  using assms array_condition_wf [of raw c]
  by (auto simp: parseCondition_def split: json.splits list.splits prod.splits if_splits)

lemma condition_validate_None:
  "condition_validate c = None \<longleftrightarrow> TrimSpace (coveredField c) \<noteq> [] \<or> (\<exists>lo hi. c = contentLengthRangeCondition lo hi)"
  by (cases c) auto

lemma document_loop_keys:
  "document_loop ms cs e = Inr r \<Longrightarrow> fst ` set ms \<subseteq> {''conditions'', ''expiration''}"
  by (induction ms cs e rule: document_loop.induct) (auto split: json.splits option.splits if_splits)

lemma two_members:
  assumes "distinct (map fst ms)" "fst ` set ms = {k, l}" "k \<noteq> l"
  obtains v w where "ms = [(k, v), (l, w)]" | v w where "ms = [(l, w), (k, v)]"
proof -
  from assms have "length ms = 2"
    by (metis card_2_iff distinct_card length_map list.set_map)
  then obtain a b where ms: "ms = [a, b]" by (auto simp: numeral_2_eq_2 length_Suc_conv)
  with assms show thesis by (cases a; cases b) (auto simp: doubleton_eq_iff intro: that)
qed

lemma document_loop_two:
  assumes "distinct (map fst ms)" "{''conditions'', ''expiration''} \<subseteq> fst ` set ms"
    and "document_loop ms cs e = Inr r" "mset ms' = mset ms"
  shows "document_loop ms' cs' e' = Inr r"
proof -
  have keys: "fst ` set ms = {''conditions'', ''expiration''}"
    using document_loop_keys [OF assms(3)] assms(2) by blast
  have dist': "distinct (map fst ms')" and sets: "set ms' = set ms"
    using assms(1,4) by (metis mset_eq_imp_distinct_iff mset_map, metis mset_eq_setD)
  have ms: "\<exists>v w. ms = [(''conditions'', v), (''expiration'', w)] \<or> ms = [(''expiration'', w), (''conditions'', v)]"
    by (rule two_members [OF assms(1) keys]) (simp, blast+)
  have ms': "\<exists>v w. ms' = [(''conditions'', v), (''expiration'', w)] \<or> ms' = [(''expiration'', w), (''conditions'', v)]"
    by (rule two_members [OF dist' keys [folded sets]]) (simp, blast+)
  from ms ms' obtain v w v' w' where
    "ms = [(''conditions'', v), (''expiration'', w)] \<or> ms = [(''expiration'', w), (''conditions'', v)]"
    "ms' = [(''conditions'', v'), (''expiration'', w')] \<or> ms' = [(''expiration'', w'), (''conditions'', v')]"
    by blast
  moreover from this sets have "v' = v" "w' = w" by (elim disjE; simp add: doubleton_eq_iff)+
  ultimately show ?thesis using assms(3)
    by (elim disjE; simp split: json.splits option.splits)
qed

section \<open>Properties\<close>

text \<open>
  A form is accepted exactly when every submitted field outside the four exempt kinds has a
  condition, every condition of the policy holds for the resolved bucket, key, size and fields,
  and one of the conditions is about the bucket.
\<close>

theorem Evaluate_iff:
  "POSTPolicy_Evaluate p inp = None \<longleftrightarrow>
     (\<forall>(f, v) \<in> set (pin_Fields inp). \<not> isIgnoredCoverageField f \<longrightarrow>
        (\<exists>c \<in> set (pol_conditions p). coveredField c = f))
     \<and> (\<forall>c \<in> set (pol_conditions p). condition_holds inp c)
     \<and> (\<exists>c \<in> set (pol_conditions p). isBucketCondition c)"
  unfolding Evaluate_None condition_match_holds by (auto 0 4 simp: image_iff)





text \<open>
  A policy that parses is not expired, its fields are in lower case and not blank, and the
  bounds of its size ranges are int64 values. It does not depend on the order in which the
  members of the document are visited.
\<close>

theorem parsed_policy_sound:
  assumes "parse_document h now rp = Inr p" "distinct (map fst rp)"
  shows "now \<le> pol_expiration p
    \<and> (\<forall>c \<in> set (pol_conditions p). ToLower (coveredField c) = coveredField c \<and> int64_range c
         \<and> (TrimSpace (coveredField c) \<noteq> [] \<or> (\<exists>lo hi. c = contentLengthRangeCondition lo hi)))
    \<and> (\<forall>rp'. mset rp' = mset rp \<longrightarrow> parse_document h now rp' = Inr p)"
proof -
  from assms(1) obtain cs e exp conds where
    keys: "{''conditions'', ''expiration''} \<subseteq> fst ` set rp"
    and loop: "document_loop rp [] [] = Inr (cs, e)"
    and exp: "parseExpiration h e = Inr exp" and conds: "map_res (parseCondition h) cs = Inr conds"
    and p: "p = \<lparr>pol_expiration = exp, pol_conditions = conds\<rparr>" "POSTPolicy_validate now p = None"
    by (auto simp: parse_document_def bind_res_Inr Let_def split: if_splits option.splits)
  have "\<forall>c \<in> set conds. ToLower (coveredField c) = coveredField c \<and> int64_range c"
    using conds parseCondition_wf by (fastforce simp: map_res_Inr in_set_conv_nth)
  moreover have "now \<le> exp" "\<forall>c \<in> set conds. condition_validate c = None"
    using p by (auto simp: POSTPolicy_validate_def split: if_splits)
  moreover have "parse_document h now rp' = Inr p" if "mset rp' = mset rp" for rp'
  proof -
    have "fst ` set rp' = fst ` set rp" using that by (metis mset_eq_setD)
    with keys have "parse_document h now rp' = bind_res (document_loop rp' [] []) (\<lambda>(conditions, expiration).
           bind_res (parseExpiration h expiration) (\<lambda>exp.
           bind_res (map_res (parseCondition h) conditions) (\<lambda>conds.
             let p = \<lparr>pol_expiration = exp, pol_conditions = conds\<rparr>
             in case POSTPolicy_validate now p of Some err \<Rightarrow> Inl err | None \<Rightarrow> Inr p)))"
      unfolding parse_document_def by simp
    also have "document_loop rp' [] [] = Inr (cs, e)"
      using document_loop_two [OF assms(2) keys loop that] .
    finally show ?thesis using exp conds p by simp
  qed
  ultimately show ?thesis using p(1) by (simp add: condition_validate_None)
qed

definition demo_document :: "(string \<times> json) list" where
  "demo_document = [(''expiration'', JStr ''T100''),
     (''conditions'', JArr [JObj [(''Bucket'', JStr ''b'')],
        JArr [JStr ''content-length-range'', JNum ''1'', JStr ''9'']])]"

definition demo_clock :: cond_host where
  "demo_clock = \<lparr>ParseFloat = (\<lambda>_. None), ParseTime = (\<lambda>_ s. if s = ''T100'' then Some 100 else None),
     UnixFloat = (\<lambda>_. 0), ParseIP = (\<lambda>_. None), IsIPv4 = (\<lambda>_. False), ParseCIDR = (\<lambda>_. None)\<rparr>"

theorem parsed_policy_sound_witness:
  "parse_document demo_clock 50 (rev demo_document) =
     Inr \<lparr>pol_expiration = 100, pol_conditions =
       [exactCondition ''bucket'' ''b'' None, contentLengthRangeCondition 1 9]\<rparr>"
proof -
  have "parse_document demo_clock 50 demo_document =
     Inr \<lparr>pol_expiration = 100, pol_conditions =
       [exactCondition ''bucket'' ''b'' None, contentLengthRangeCondition 1 9]\<rparr>"
    "distinct (map fst demo_document)" by code_simp+
  from parsed_policy_sound [OF this] show ?thesis by simp
qed

end
