(* ===== verification/Lifecycle.thy ===== *)
theory Lifecycle
  imports S3_Errors "HOL-Library.Word"
begin

text \<open>
  Lifecycle rules (internal/lifecycle/types.go, validate.go, evaluate.go): the configuration, its
  validation when it is put, and the choice of at most one action for every object, version and
  upload. Instants are nanoseconds since 1970 in UTC. A configuration is given decoded from XML.
\<close>

section \<open>Configuration\<close>

text \<open>A date with the flag that its location is UTC, which decoding sets for a \<open>Z\<close> suffix.\<close>

record Date =
  date_Time :: int
  date_UTC :: bool

record Tag =
  tag_Key :: string
  tag_Value :: string

record AndOperator =
  and_Prefix :: "string option"
  and_Tags :: "Tag list"
  and_ObjectSizeGreaterThan :: "int option"
  and_ObjectSizeLessThan :: "int option"

record Filter =
  flt_Prefix :: "string option"
  flt_Tag :: "Tag option"
  flt_ObjectSizeGreaterThan :: "int option"
  flt_ObjectSizeLessThan :: "int option"
  flt_And :: "AndOperator option"

record Expiration =
  exp_Date :: "Date option"
  exp_Days :: "int option"
  exp_ExpiredObjectDeleteMarker :: "bool option"

record Transition =
  tr_Date :: "Date option"
  tr_Days :: "int option"
  tr_StorageClass :: string

record NoncurrentVersionExpiration =
  nve_NoncurrentDays :: "int option"
  nve_NewerNoncurrentVersions :: "int option"

record NoncurrentVersionTransition =
  nvt_NoncurrentDays :: "int option"
  nvt_NewerNoncurrentVersions :: "int option"
  nvt_StorageClass :: string

record AbortIncompleteMultipartUpload =
  abort_DaysAfterInitiation :: "int option"

record Rule =
  rule_ID :: "string option"
  rule_Prefix :: "string option"
  rule_Filter :: "Filter option"
  rule_Status :: string
  rule_Expiration :: "Expiration option"
  rule_Transitions :: "Transition list"
  rule_NoncurrentVersionExpiration :: "NoncurrentVersionExpiration option"
  rule_NoncurrentVersionTransitions :: "NoncurrentVersionTransition list"
  rule_AbortIncompleteMultipartUpload :: "AbortIncompleteMultipartUpload option"

record Configuration =
  cfg_TransitionDefaultMinimumObjectSize :: string
  cfg_Rules :: "Rule list"

text \<open>\<open>Capabilities.Transitions\<close>: the storage classes the backend can move objects to.\<close>

type_synonym Capabilities = "string \<Rightarrow> bool"

definition TransitionMinimumAllStorageClasses128K :: string where
  "TransitionMinimumAllStorageClasses128K = ''all_storage_classes_128K''"

definition TransitionMinimumVariesByStorageClass :: string where
  "TransitionMinimumVariesByStorageClass = ''varies_by_storage_class''"

section \<open>Validation\<close>

datatype ErrorKind = ErrorMalformedXML | ErrorInvalidRequest | ErrorInvalidArgument

text \<open>A validation error: its kind, the format of its message and the arguments.\<close>

datatype ValidationError =
    ValidationError ErrorKind string "string list"
  | InRule nat ValidationError

abbreviation malformed :: "string \<Rightarrow> string list \<Rightarrow> ValidationError" where
  "malformed \<equiv> ValidationError ErrorMalformedXML"

abbreviation invalidRequest :: "string \<Rightarrow> string list \<Rightarrow> ValidationError" where
  "invalidRequest \<equiv> ValidationError ErrorInvalidRequest"

abbreviation invalidArgument :: "string \<Rightarrow> string list \<Rightarrow> ValidationError" where
  "invalidArgument \<equiv> ValidationError ErrorInvalidArgument"

text \<open>A guard \<open>if cond { return err }\<close>, and two checks in sequence.\<close>

abbreviation fails_if :: "bool \<Rightarrow> 'e \<Rightarrow> 'e option" where
  "fails_if b e \<equiv> (if b then Some e else None)"

definition and_then :: "'e option \<Rightarrow> 'e option \<Rightarrow> 'e option" where
  "and_then a b = (case a of None \<Rightarrow> b | Some e \<Rightarrow> Some e)"

lemma and_then_None [simp]: "and_then a b = None \<longleftrightarrow> a = None \<and> b = None"
  by (cases a) (simp_all add: and_then_def)

definition count_set :: "bool list \<Rightarrow> nat" where
  "count_set bs = length (filter id bs)"

definition NormalizeTransitionMinimum :: "string \<Rightarrow> (ValidationError, string) result" where
  "NormalizeTransitionMinimum v =
     (if v = [] then Inr TransitionMinimumAllStorageClasses128K
      else if v = TransitionMinimumAllStorageClasses128K \<or> v = TransitionMinimumVariesByStorageClass then Inr v
      else Inl (invalidArgument ''invalid transition default minimum object size %q'' [v]))"

definition day_nanoseconds :: int where
  "day_nanoseconds = 86400000000000"

definition isMidnightUTC :: "Date \<Rightarrow> bool" where
  "isMidnightUTC d \<longleftrightarrow> date_UTC d \<and> date_Time d mod day_nanoseconds = 0"

definition hasTagFilter :: "Filter option \<Rightarrow> bool" where
  "hasTagFilter flt =
     (case flt of None \<Rightarrow> False
      | Some f \<Rightarrow> flt_Tag f \<noteq> None \<or> (case flt_And f of None \<Rightarrow> False | Some a \<Rightarrow> and_Tags a \<noteq> []))"

fun and_tags_check :: "Tag list \<Rightarrow> string list \<Rightarrow> ValidationError option" where
  "and_tags_check [] seen = None"
| "and_tags_check (t # ts) seen =
     (if tag_Key t = [] then Some (invalidRequest ''tag key must not be empty'' [])
      else if tag_Key t \<in> set seen then Some (invalidRequest ''tag key %q is duplicated'' [tag_Key t])
      else and_tags_check ts (tag_Key t # seen))"

definition validateAnd :: "AndOperator \<Rightarrow> ValidationError option" where
  "validateAnd a =
     (let predicates = length (and_Tags a) + count_set [and_Prefix a \<noteq> None,
            and_ObjectSizeGreaterThan a \<noteq> None, and_ObjectSizeLessThan a \<noteq> None]
      in and_then (fails_if (predicates < 2) (invalidRequest ''And must contain at least two predicates'' []))
        (and_then (and_tags_check (and_Tags a) [])
          (case (and_ObjectSizeGreaterThan a, and_ObjectSizeLessThan a) of
             (Some gt, Some lt) \<Rightarrow>
               fails_if (gt \<ge> lt) (invalidRequest ''ObjectSizeGreaterThan must be less than ObjectSizeLessThan'' [])
           | _ \<Rightarrow> None)))"

definition validateFilter :: "Filter \<Rightarrow> ValidationError option" where
  "validateFilter f =
     and_then (fails_if (count_set [flt_Prefix f \<noteq> None, flt_Tag f \<noteq> None, flt_ObjectSizeGreaterThan f \<noteq> None,
                         flt_ObjectSizeLessThan f \<noteq> None, flt_And f \<noteq> None] > 1)
                (invalidRequest ''Filter must contain at most one top-level predicate'' []))
    (and_then (case flt_Tag f of None \<Rightarrow> None
               | Some t \<Rightarrow> fails_if (tag_Key t = []) (invalidRequest ''tag key must not be empty'' []))
       (case flt_And f of None \<Rightarrow> None | Some a \<Rightarrow> validateAnd a))"

definition validateExpiration :: "Expiration \<Rightarrow> ValidationError option" where
  "validateExpiration e =
     and_then (fails_if (count_set [exp_Date e \<noteq> None, exp_Days e \<noteq> None, exp_ExpiredObjectDeleteMarker e \<noteq> None] \<noteq> 1)
        (invalidRequest ''Expiration requires exactly one of Date, Days, or ExpiredObjectDeleteMarker'' []))
    (and_then (case exp_Days e of None \<Rightarrow> None
               | Some d \<Rightarrow> fails_if (d \<le> 0) (invalidArgument ''Expiration Days must be positive'' []))
       (case exp_Date e of None \<Rightarrow> None
        | Some d \<Rightarrow> fails_if (\<not> isMidnightUTC d) (invalidRequest ''Expiration Date must be midnight UTC'' [])))"

definition validStorageClasses :: "string list" where
  "validStorageClasses =
     [''STANDARD_IA'', ''ONEZONE_IA'', ''INTELLIGENT_TIERING'', ''GLACIER_IR'', ''GLACIER'', ''DEEP_ARCHIVE'']"

definition validateStorageClass :: "string \<Rightarrow> Capabilities \<Rightarrow> ValidationError option" where
  "validateStorageClass storageClass capabilities =
     (if storageClass \<notin> set validStorageClasses
      then Some (invalidArgument ''unsupported transition storage class %q'' [storageClass])
      else if \<not> capabilities storageClass
      then Some (invalidRequest ''backend does not support transition to %s'' [storageClass])
      else None)"

definition validateTransition :: "Transition \<Rightarrow> Capabilities \<Rightarrow> ValidationError option" where
  "validateTransition t capabilities =
     and_then (fails_if ((tr_Date t = None) = (tr_Days t = None))
        (invalidRequest ''Transition requires exactly one of Date or Days'' []))
    (and_then (case tr_Days t of None \<Rightarrow> None
               | Some d \<Rightarrow> fails_if (d < 0) (invalidArgument ''Transition Days cannot be negative'' []))
    (and_then (case tr_Date t of None \<Rightarrow> None
               | Some d \<Rightarrow> fails_if (\<not> isMidnightUTC d) (invalidRequest ''Transition Date must be midnight UTC'' []))
       (validateStorageClass (tr_StorageClass t) capabilities)))"

definition validateNewerCount :: "int option \<Rightarrow> bool \<Rightarrow> ValidationError option" where
  "validateNewerCount newer hasFilter =
     (case newer of None \<Rightarrow> None
      | Some c \<Rightarrow>
          if c < 1 \<or> c > 100 then Some (invalidArgument ''NewerNoncurrentVersions must be between 1 and 100'' [])
          else if \<not> hasFilter then Some (invalidRequest ''NewerNoncurrentVersions requires a Filter'' [])
          else None)"

definition validateNoncurrentExpiration ::
    "NoncurrentVersionExpiration \<Rightarrow> bool \<Rightarrow> ValidationError option" where
  "validateNoncurrentExpiration e hasFilter =
     and_then (case nve_NoncurrentDays e of
                 None \<Rightarrow> Some (invalidArgument ''NoncurrentDays must be positive'' [])
               | Some d \<Rightarrow> fails_if (d \<le> 0) (invalidArgument ''NoncurrentDays must be positive'' []))
       (validateNewerCount (nve_NewerNoncurrentVersions e) hasFilter)"

definition validateNoncurrentTransition ::
    "NoncurrentVersionTransition \<Rightarrow> bool \<Rightarrow> Capabilities \<Rightarrow> ValidationError option" where
  "validateNoncurrentTransition t hasFilter capabilities =
     and_then (case nvt_NoncurrentDays t of
                 None \<Rightarrow> Some (invalidArgument ''NoncurrentDays cannot be negative'' [])
               | Some d \<Rightarrow> fails_if (d < 0) (invalidArgument ''NoncurrentDays cannot be negative'' []))
    (and_then (validateNewerCount (nvt_NewerNoncurrentVersions t) hasFilter)
       (validateStorageClass (nvt_StorageClass t) capabilities))"

definition validateAbort :: "AbortIncompleteMultipartUpload \<Rightarrow> Filter option \<Rightarrow> ValidationError option" where
  "validateAbort a flt =
     and_then (case abort_DaysAfterInitiation a of
                 None \<Rightarrow> Some (invalidRequest ''DaysAfterInitiation must be a positive integer'' [])
               | Some d \<Rightarrow> fails_if (d \<le> 0) (invalidRequest ''DaysAfterInitiation must be a positive integer'' []))
       (fails_if (hasTagFilter flt)
          (invalidRequest ''tag filters cannot be used with AbortIncompleteMultipartUpload'' []))"

definition validateRule :: "Rule \<Rightarrow> Capabilities \<Rightarrow> ValidationError option" where
  "validateRule r capabilities =
     and_then (fails_if (rule_Status r \<noteq> ''Enabled'' \<and> rule_Status r \<noteq> ''Disabled'')
                (malformed ''status must be Enabled or Disabled'' []))
    (and_then (fails_if (rule_Prefix r \<noteq> None \<and> rule_Filter r \<noteq> None)
                (invalidRequest ''Prefix and Filter cannot both be specified'' []))
    (and_then (fails_if (rule_Prefix r = None \<and> rule_Filter r = None)
                (invalidRequest ''rule requires Prefix or Filter'' []))
    (and_then (case rule_Filter r of None \<Rightarrow> None | Some f \<Rightarrow> validateFilter f)
    (and_then (case rule_Expiration r of None \<Rightarrow> None | Some e \<Rightarrow> validateExpiration e)
    (and_then (first_err (\<lambda>t. validateTransition t capabilities) (rule_Transitions r))
    (and_then (case rule_NoncurrentVersionExpiration r of None \<Rightarrow> None
               | Some e \<Rightarrow> validateNoncurrentExpiration e (rule_Filter r \<noteq> None))
    (and_then (first_err (\<lambda>t. validateNoncurrentTransition t (rule_Filter r \<noteq> None) capabilities)
                (rule_NoncurrentVersionTransitions r))
    (and_then (case rule_AbortIncompleteMultipartUpload r of None \<Rightarrow> None
               | Some a \<Rightarrow> validateAbort a (rule_Filter r))
       (fails_if (rule_Expiration r = None \<and> rule_Transitions r = [] \<and> rule_NoncurrentVersionExpiration r = None
                  \<and> rule_NoncurrentVersionTransitions r = [] \<and> rule_AbortIncompleteMultipartUpload r = None)
          (invalidRequest ''rule must contain at least one action'' []))))))))))"

text \<open>The loop over the rules, with the number of the rule and the identifiers seen so far.\<close>

fun validate_rules :: "Capabilities \<Rightarrow> nat \<Rightarrow> string list \<Rightarrow> Rule list \<Rightarrow> ValidationError option" where
  "validate_rules capabilities n ids [] = None"
| "validate_rules capabilities n ids (r # rs) =
     (case validateRule r capabilities of
        Some err \<Rightarrow> Some (InRule (Suc n) err)
      | None \<Rightarrow>
          (case rule_ID r of
             None \<Rightarrow> validate_rules capabilities (Suc n) ids rs
           | Some i \<Rightarrow>
               if length i > 255 then Some (invalidRequest ''rule ID exceeds 255 characters'' [])
               else if i \<in> set ids then Some (invalidRequest ''rule ID %q is duplicated'' [i])
               else validate_rules capabilities (Suc n) (i # ids) rs))"

definition Configuration_Validate :: "Configuration \<Rightarrow> Capabilities \<Rightarrow> ValidationError option" where
  "Configuration_Validate c capabilities =
     and_then (case NormalizeTransitionMinimum (cfg_TransitionDefaultMinimumObjectSize c) of
                 Inl err \<Rightarrow> Some err | Inr _ \<Rightarrow> None)
    (and_then (fails_if (length (cfg_Rules c) < 1 \<or> length (cfg_Rules c) > 1000)
                (malformed ''lifecycle configuration must contain between 1 and 1000 rules'' []))
       (validate_rules capabilities 0 [] (cfg_Rules c)))"

section \<open>Candidates and actions\<close>

datatype VersioningState = VersioningNever | VersioningEnabled | VersioningSuspended | VersioningOther string

datatype CandidateKind = CandidateObject | CandidateMultipart

record Candidate =
  cand_Kind :: CandidateKind
  cand_Bucket :: string
  cand_Key :: string
  cand_VersionID :: string
  cand_UploadID :: string
  cand_ETag :: string
  cand_StateToken :: string
  cand_Current :: bool
  cand_DeleteMarker :: bool
  cand_Protected :: bool
  cand_Versioning :: VersioningState
  cand_Size :: int
  cand_LastModified :: int
  cand_NoncurrentSince :: int
  cand_NoncurrentRank :: int
  cand_VersionsForKey :: int
  cand_StorageClass :: string
  cand_Tags :: "string \<Rightarrow> string option"

datatype ActionKind =
    ActionNone
  | ActionDeleteCurrent
  | ActionCreateDeleteMarker
  | ActionExpireSuspendedCurrent
  | ActionDeleteVersion
  | ActionAbortMultipart
  | ActionTransition

record LifecycleAction =
  act_Kind :: ActionKind
  act_Bucket :: string
  act_Key :: string
  act_VersionID :: string
  act_UploadID :: string
  act_ETag :: string
  act_StateToken :: string
  act_ObservedAt :: int
  act_Current :: bool
  act_RuleID :: string
  act_TargetStorageClass :: string
  act_Size :: int

text \<open>\<open>Action{Kind: k, TargetStorageClass: c}\<close>; the zero action has the empty kind.\<close>

definition mk_action :: "ActionKind \<Rightarrow> string \<Rightarrow> LifecycleAction" where
  "mk_action k c = \<lparr>act_Kind = k, act_Bucket = [], act_Key = [], act_VersionID = [], act_UploadID = [],
     act_ETag = [], act_StateToken = [], act_ObservedAt = 0, act_Current = False, act_RuleID = [],
     act_TargetStorageClass = c, act_Size = 0\<rparr>"

section \<open>Deadlines\<close>

text \<open>The zero value of \<open>time.Time\<close>, the first of January of the year 1.\<close>

definition zero_time :: int where
  "zero_time = -62135596800000000000"

text \<open>\<open>time.Duration(days) * 24 * time.Hour\<close>: a product of int64 values, which wraps around.\<close>

definition days_duration :: "int \<Rightarrow> int" where
  "days_duration days = sint (word_of_int days * 24 * 3600000000000 :: 64 word)"

text \<open>\<open>Truncate(24 * time.Hour)\<close>: the multiples of a day since the year 1 are the days of UTC.\<close>

definition truncate_day :: "int \<Rightarrow> int" where
  "truncate_day t = t - t mod day_nanoseconds"

definition eligibleByDays :: "int \<Rightarrow> int \<Rightarrow> int \<Rightarrow> bool" where
  "eligibleByDays since days now =
     (if since = zero_time then False
      else let deadline = truncate_day (since + days_duration days) + day_nanoseconds
           in \<not> now < deadline)"

definition expirationEligible :: "Expiration \<Rightarrow> int \<Rightarrow> int \<Rightarrow> bool" where
  "expirationEligible e modified now =
     (case exp_Days e of
        Some d \<Rightarrow> eligibleByDays modified d now
      | None \<Rightarrow> (case exp_Date e of Some d \<Rightarrow> \<not> now < date_Time d | None \<Rightarrow> False))"

definition transitionEligible :: "Transition \<Rightarrow> int \<Rightarrow> int \<Rightarrow> bool" where
  "transitionEligible t modified now =
     (case tr_Days t of
        Some d \<Rightarrow> eligibleByDays modified d now
      | None \<Rightarrow> (case tr_Date t of Some d \<Rightarrow> \<not> now < date_Time d | None \<Rightarrow> False))"

section \<open>Matching\<close>

text \<open>\<open>candidate.Tags[key]\<close>: a missing tag reads as the empty string.\<close>

definition tag_value :: "Candidate \<Rightarrow> string \<Rightarrow> string" where
  "tag_value c k = (case cand_Tags c k of None \<Rightarrow> [] | Some v \<Rightarrow> v)"

definition opt_holds :: "'a option \<Rightarrow> ('a \<Rightarrow> bool) \<Rightarrow> bool" where
  "opt_holds x P = (case x of None \<Rightarrow> True | Some v \<Rightarrow> P v)"

definition and_matches :: "AndOperator \<Rightarrow> Candidate \<Rightarrow> bool" where
  "and_matches a c \<longleftrightarrow>
     opt_holds (and_Prefix a) (\<lambda>p. HasPrefix (cand_Key c) p)
     \<and> opt_holds (and_ObjectSizeGreaterThan a) (\<lambda>n. \<not> cand_Size c \<le> n)
     \<and> opt_holds (and_ObjectSizeLessThan a) (\<lambda>n. \<not> cand_Size c \<ge> n)
     \<and> list_all (\<lambda>t. tag_value c (tag_Key t) = tag_Value t) (and_Tags a)"

definition filter_matches :: "Filter \<Rightarrow> Candidate \<Rightarrow> bool" where
  "filter_matches f c \<longleftrightarrow>
     opt_holds (flt_Prefix f) (\<lambda>p. HasPrefix (cand_Key c) p)
     \<and> opt_holds (flt_Tag f) (\<lambda>t. tag_value c (tag_Key t) = tag_Value t)
     \<and> opt_holds (flt_ObjectSizeGreaterThan f) (\<lambda>n. \<not> cand_Size c \<le> n)
     \<and> opt_holds (flt_ObjectSizeLessThan f) (\<lambda>n. \<not> cand_Size c \<ge> n)
     \<and> opt_holds (flt_And f) (\<lambda>a. and_matches a c)"

definition lifecycle_matches :: "Rule \<Rightarrow> Candidate \<Rightarrow> bool" where
  "lifecycle_matches r c \<longleftrightarrow>
     opt_holds (rule_Prefix r) (\<lambda>p. HasPrefix (cand_Key c) p)
     \<and> opt_holds (rule_Filter r) (\<lambda>f. filter_matches f c)"

section \<open>Storage classes\<close>

definition lifecycleStorageClassPreference :: "string \<Rightarrow> nat" where
  "lifecycleStorageClassPreference c =
     (if c = ''DEEP_ARCHIVE'' then 600
      else if c = ''GLACIER'' then 500
      else if c = ''INTELLIGENT_TIERING'' then 400
      else if c = ''GLACIER_IR'' then 300
      else if c = ''ONEZONE_IA'' then 200
      else if c = ''STANDARD_IA'' then 100
      else 0)"

definition lifecycleTransitionAllowed :: "string \<Rightarrow> string \<Rightarrow> bool" where
  "lifecycleTransitionAllowed current target =
     (let current = (if current = [] then ''STANDARD'' else current)
      in if current = target then False
         else if current = ''STANDARD'' then lifecycleStorageClassPreference target \<noteq> 0
         else if current = ''STANDARD_IA'' then
           target \<in> set [''INTELLIGENT_TIERING'', ''ONEZONE_IA'', ''GLACIER_IR'', ''GLACIER'', ''DEEP_ARCHIVE'']
         else if current = ''INTELLIGENT_TIERING'' then
           target \<in> set [''ONEZONE_IA'', ''GLACIER_IR'', ''GLACIER'', ''DEEP_ARCHIVE'']
         else if current = ''ONEZONE_IA'' \<or> current = ''GLACIER_IR'' then target \<in> set [''GLACIER'', ''DEEP_ARCHIVE'']
         else if current = ''GLACIER'' then target = ''DEEP_ARCHIVE''
         else False)"

definition preferStorageClass :: "string \<Rightarrow> string \<Rightarrow> bool" where
  "preferStorageClass candidate selected =
     (if selected = [] then True
      else lifecycleStorageClassPreference candidate > lifecycleStorageClassPreference selected)"

definition preferLifecycleAction :: "LifecycleAction \<Rightarrow> LifecycleAction \<Rightarrow> bool" where
  "preferLifecycleAction candidate selected =
     (if act_Kind candidate \<noteq> ActionTransition \<or> act_Kind selected \<noteq> ActionTransition then False
      else preferStorageClass (act_TargetStorageClass candidate) (act_TargetStorageClass selected))"

definition hasObjectSizeFilter :: "Filter option \<Rightarrow> bool" where
  "hasObjectSizeFilter flt =
     (case flt of None \<Rightarrow> False
      | Some f \<Rightarrow>
          if flt_ObjectSizeGreaterThan f \<noteq> None \<or> flt_ObjectSizeLessThan f \<noteq> None then True
          else case flt_And f of None \<Rightarrow> False
               | Some a \<Rightarrow> and_ObjectSizeGreaterThan a \<noteq> None \<or> and_ObjectSizeLessThan a \<noteq> None)"

definition transitionSizeEligible :: "Configuration \<Rightarrow> Rule \<Rightarrow> Candidate \<Rightarrow> string \<Rightarrow> bool" where
  "transitionSizeEligible cfg r c storageClass =
     (if hasObjectSizeFilter (rule_Filter r) then True
      else case NormalizeTransitionMinimum (cfg_TransitionDefaultMinimumObjectSize cfg) of
          Inl err \<Rightarrow> False
        | Inr minimum \<Rightarrow>
            if cand_Size c \<ge> 128 * 1024 then True
            else minimum = TransitionMinimumVariesByStorageClass
                 \<and> (storageClass = ''GLACIER'' \<or> storageClass = ''DEEP_ARCHIVE''))"

fun select_transition_loop ::
    "Configuration \<Rightarrow> Rule \<Rightarrow> Candidate \<Rightarrow> int \<Rightarrow> int \<Rightarrow> string \<Rightarrow> Transition list \<Rightarrow> string" where
  "select_transition_loop cfg r c observedAt now selected [] = selected"
| "select_transition_loop cfg r c observedAt now selected (t # ts) =
     select_transition_loop cfg r c observedAt now
       (if transitionEligible t observedAt now \<and> transitionSizeEligible cfg r c (tr_StorageClass t)
           \<and> lifecycleTransitionAllowed (cand_StorageClass c) (tr_StorageClass t)
           \<and> preferStorageClass (tr_StorageClass t) selected
        then tr_StorageClass t else selected) ts"

definition selectTransition :: "Configuration \<Rightarrow> Rule \<Rightarrow> Candidate \<Rightarrow> int \<Rightarrow> int \<Rightarrow> Transition list \<Rightarrow> string option" where
  "selectTransition cfg r c observedAt now transitions =
     (let selected = select_transition_loop cfg r c observedAt now [] transitions
      in if selected \<noteq> [] then Some selected else None)"

section \<open>Evaluation\<close>

text \<open>\<open>*p\<close> for a pointer to a number: a nil pointer panics.\<close>

definition deref :: "'a option \<Rightarrow> (go_error, 'a) result" where
  "deref p = (case p of None \<Rightarrow> Inl NilPointer | Some v \<Rightarrow> Inr v)"

definition rank_eligible :: "int option \<Rightarrow> int \<Rightarrow> bool" where
  "rank_eligible newer noncurrentRank = (case newer of None \<Rightarrow> True | Some n \<Rightarrow> noncurrentRank > n)"

text \<open>The loop over the noncurrent transitions of a rule.\<close>

fun noncurrent_transition_loop ::
    "Configuration \<Rightarrow> Rule \<Rightarrow> Candidate \<Rightarrow> int \<Rightarrow> int \<Rightarrow> string \<Rightarrow> NoncurrentVersionTransition list
      \<Rightarrow> (go_error, string) result" where
  "noncurrent_transition_loop cfg r c noncurrentRank now selected [] = Inr selected"
| "noncurrent_transition_loop cfg r c noncurrentRank now selected (t # ts) =
     (if \<not> rank_eligible (nvt_NewerNoncurrentVersions t) noncurrentRank
      then noncurrent_transition_loop cfg r c noncurrentRank now selected ts
      else case deref (nvt_NoncurrentDays t) of
          Inl e \<Rightarrow> Inl e
        | Inr d \<Rightarrow>
            noncurrent_transition_loop cfg r c noncurrentRank now
              (if eligibleByDays (cand_NoncurrentSince c) d now
                  \<and> transitionSizeEligible cfg r c (nvt_StorageClass t)
                  \<and> lifecycleTransitionAllowed (cand_StorageClass c) (nvt_StorageClass t)
                  \<and> preferStorageClass (nvt_StorageClass t) selected
               then nvt_StorageClass t else selected) ts)"

text \<open>A rule's action for a candidate with its priority; \<open>None\<close> is the result \<open>ok = false\<close>.\<close>

definition evaluate_multipart :: "Rule \<Rightarrow> Candidate \<Rightarrow> int \<Rightarrow> (go_error, (LifecycleAction \<times> nat) option) result" where
  "evaluate_multipart r c now =
     (case rule_AbortIncompleteMultipartUpload r of
        None \<Rightarrow> Inr None
      | Some a \<Rightarrow>
          bind_res (deref (abort_DaysAfterInitiation a)) (\<lambda>d.
            Inr (if eligibleByDays (cand_LastModified c) d now
                 then Some (mk_action ActionAbortMultipart [], 3) else None)))"

definition evaluate_current :: "Configuration \<Rightarrow> Rule \<Rightarrow> Candidate \<Rightarrow> int \<Rightarrow> int \<Rightarrow> (LifecycleAction \<times> nat) option" where
  "evaluate_current cfg r c versionsForKey now =
     (if cand_DeleteMarker c then
        (case rule_Expiration r of
           None \<Rightarrow> None
         | Some e \<Rightarrow>
             if exp_ExpiredObjectDeleteMarker e = Some True \<and> versionsForKey = 1 \<and> \<not> cand_Protected c
             then Some (mk_action ActionDeleteVersion [], 3) else None)
      else
        let expired = (case rule_Expiration r of None \<Rightarrow> False
                       | Some e \<Rightarrow> expirationEligible e (cand_LastModified c) now);
            transition = (case selectTransition cfg r c (cand_LastModified c) now (rule_Transitions r) of
                            Some target \<Rightarrow> Some (mk_action ActionTransition target, 2) | None \<Rightarrow> None)
        in if \<not> expired then transition
           else case cand_Versioning c of
               VersioningEnabled \<Rightarrow>
                 (case transition of Some t \<Rightarrow> Some t | None \<Rightarrow> Some (mk_action ActionCreateDeleteMarker [], 1))
             | VersioningSuspended \<Rightarrow> Some (mk_action ActionExpireSuspendedCurrent [], 3)
             | _ \<Rightarrow> if \<not> cand_Protected c then Some (mk_action ActionDeleteCurrent [], 3) else transition)"

definition noncurrent_transition ::
    "Configuration \<Rightarrow> Rule \<Rightarrow> Candidate \<Rightarrow> int \<Rightarrow> int \<Rightarrow> (go_error, (LifecycleAction \<times> nat) option) result" where
  "noncurrent_transition cfg r c noncurrentRank now =
     bind_res (noncurrent_transition_loop cfg r c noncurrentRank now [] (rule_NoncurrentVersionTransitions r))
       (\<lambda>selected. Inr (if selected \<noteq> [] then Some (mk_action ActionTransition selected, 2) else None))"

definition evaluate_noncurrent ::
    "Configuration \<Rightarrow> Rule \<Rightarrow> Candidate \<Rightarrow> int \<Rightarrow> int \<Rightarrow> (go_error, (LifecycleAction \<times> nat) option) result" where
  "evaluate_noncurrent cfg r c noncurrentRank now =
     (if cand_DeleteMarker c then Inr None
      else case rule_NoncurrentVersionExpiration r of
          None \<Rightarrow> noncurrent_transition cfg r c noncurrentRank now
        | Some e \<Rightarrow>
            if cand_Protected c \<or> \<not> rank_eligible (nve_NewerNoncurrentVersions e) noncurrentRank
            then noncurrent_transition cfg r c noncurrentRank now
            else bind_res (deref (nve_NoncurrentDays e)) (\<lambda>d.
                   if eligibleByDays (cand_NoncurrentSince c) d now
                   then Inr (Some (mk_action ActionDeleteVersion [], 3))
                   else noncurrent_transition cfg r c noncurrentRank now))"

definition evaluateRule ::
    "Configuration \<Rightarrow> Rule \<Rightarrow> Candidate \<Rightarrow> int \<Rightarrow> int \<Rightarrow> int
      \<Rightarrow> (go_error, (LifecycleAction \<times> nat) option) result" where
  "evaluateRule cfg r c noncurrentRank versionsForKey now =
     (if cand_Kind c = CandidateMultipart then evaluate_multipart r c now
      else if cand_Current c then Inr (evaluate_current cfg r c versionsForKey now)
      else evaluate_noncurrent cfg r c noncurrentRank now)"

definition complete_action :: "Candidate \<Rightarrow> Rule \<Rightarrow> nat \<Rightarrow> LifecycleAction \<Rightarrow> LifecycleAction" where
  "complete_action c r ruleIndex a =
     a\<lparr>act_Bucket := cand_Bucket c, act_Key := cand_Key c, act_VersionID := cand_VersionID c,
       act_UploadID := cand_UploadID c, act_ETag := cand_ETag c, act_StateToken := cand_StateToken c,
       act_Current := cand_Current c, act_Size := cand_Size c,
       act_ObservedAt := (if cand_Kind c = CandidateMultipart then cand_LastModified c
                          else if cand_Current c then cand_LastModified c
                          else cand_NoncurrentSince c),
       act_RuleID := (case rule_ID r of Some i \<Rightarrow> i | None \<Rightarrow> ''rule-'' @ itoa (int ruleIndex + 1))\<rparr>"

text \<open>The loop over the rules for one candidate: the selected action and its priority.\<close>

fun rule_loop ::
    "Configuration \<Rightarrow> Candidate \<Rightarrow> int \<Rightarrow> int \<Rightarrow> int \<Rightarrow> nat \<Rightarrow> LifecycleAction \<times> nat \<Rightarrow> Rule list
      \<Rightarrow> (go_error, LifecycleAction \<times> nat) result" where
  "rule_loop cfg c noncurrentRank versionsForKey now i sel [] = Inr sel"
| "rule_loop cfg c noncurrentRank versionsForKey now i sel (r # rs) =
     (if rule_Status r \<noteq> ''Enabled'' \<or> \<not> lifecycle_matches r c
      then rule_loop cfg c noncurrentRank versionsForKey now (Suc i) sel rs
      else case evaluateRule cfg r c noncurrentRank versionsForKey now of
          Inl e \<Rightarrow> Inl e
        | Inr None \<Rightarrow> rule_loop cfg c noncurrentRank versionsForKey now (Suc i) sel rs
        | Inr (Some (a, p)) \<Rightarrow>
            if p < snd sel \<or> p = snd sel \<and> \<not> preferLifecycleAction a (fst sel)
            then rule_loop cfg c noncurrentRank versionsForKey now (Suc i) sel rs
            else rule_loop cfg c noncurrentRank versionsForKey now (Suc i) (complete_action c r i a, p) rs)"

text \<open>
  \<open>calculateNoncurrentRanks\<close>, as the function from index to rank that its map is read as (0 where
  there is no entry): a rank that came with the candidate, or the position among the
  noncurrent versions of the key, newest first.
\<close>

definition is_noncurrent :: "Candidate \<Rightarrow> bool" where
  "is_noncurrent c \<longleftrightarrow> cand_Kind c = CandidateObject \<and> \<not> cand_Current c \<and> \<not> cand_DeleteMarker c"

definition unranked_indexes :: "Candidate list \<Rightarrow> string \<Rightarrow> nat list" where
  "unranked_indexes cs key =
     filter (\<lambda>i. is_noncurrent (cs ! i) \<and> \<not> cand_NoncurrentRank (cs ! i) > 0 \<and> cand_Key (cs ! i) = key)
       [0..<length cs]"

definition newest_first :: "Candidate list \<Rightarrow> string \<Rightarrow> nat list" where
  "newest_first cs key = sort_key (\<lambda>i. - cand_NoncurrentSince (cs ! i)) (unranked_indexes cs key)"

fun position :: "'a \<Rightarrow> 'a list \<Rightarrow> nat" where
  "position x [] = 0"
| "position x (y # ys) = (if x = y then 0 else Suc (position x ys))"

definition calculateNoncurrentRanks :: "Candidate list \<Rightarrow> nat \<Rightarrow> int" where
  "calculateNoncurrentRanks cs i =
     (if \<not> is_noncurrent (cs ! i) then 0
      else if cand_NoncurrentRank (cs ! i) > 0 then cand_NoncurrentRank (cs ! i)
      else int (position i (newest_first cs (cand_Key (cs ! i)))) + 1)"

fun calculateVersionCounts :: "Candidate list \<Rightarrow> (string \<Rightarrow> int) \<Rightarrow> string \<Rightarrow> int" where
  "calculateVersionCounts [] counts = counts"
| "calculateVersionCounts (c # cs) counts =
     calculateVersionCounts cs
       (if cand_Kind c = CandidateObject then
          (if cand_VersionsForKey c > counts (cand_Key c) then counts(cand_Key c := cand_VersionsForKey c)
           else if cand_VersionsForKey c = 0 then counts(cand_Key c := counts (cand_Key c) + 1)
           else counts)
        else counts)"

definition evaluate_candidate ::
    "Configuration \<Rightarrow> Candidate list \<Rightarrow> int \<Rightarrow> nat \<Rightarrow> (go_error, LifecycleAction option) result" where
  "evaluate_candidate cfg cs now i =
     bind_res (rule_loop cfg (cs ! i) (calculateNoncurrentRanks cs i)
                 (calculateVersionCounts cs (\<lambda>_. 0) (cand_Key (cs ! i))) now 0 (mk_action ActionNone [], 0) (cfg_Rules cfg))
       (\<lambda>(selected, selectedPriority). Inr (if selectedPriority \<noteq> 0 then Some selected else None))"

definition lifecycle_Evaluate :: "Configuration \<Rightarrow> Candidate list \<Rightarrow> int \<Rightarrow> (go_error, LifecycleAction list) result" where
  "lifecycle_Evaluate cfg cs now =
     bind_res (map_res (evaluate_candidate cfg cs now) [0..<length cs])
       (\<lambda>sels. Inr (List.map_filter id sels))"

section \<open>No nil dereference after validation\<close>

definition days_set :: "Rule \<Rightarrow> bool" where
  "days_set r \<longleftrightarrow>
     opt_holds (rule_NoncurrentVersionExpiration r) (\<lambda>e. nve_NoncurrentDays e \<noteq> None)
     \<and> (\<forall>t \<in> set (rule_NoncurrentVersionTransitions r). nvt_NoncurrentDays t \<noteq> None)
     \<and> opt_holds (rule_AbortIncompleteMultipartUpload r) (\<lambda>a. abort_DaysAfterInitiation a \<noteq> None)"

lemma validateRule_days_set: "validateRule r capabilities = None \<Longrightarrow> days_set r"
  by (auto simp: validateRule_def days_set_def opt_holds_def validateNoncurrentExpiration_def
      validateNoncurrentTransition_def validateAbort_def split: option.splits)

lemma validate_rules_all:
  "validate_rules capabilities n ids rs = None \<Longrightarrow> r \<in> set rs \<Longrightarrow> validateRule r capabilities = None"
  by (induction capabilities n ids rs rule: validate_rules.induct) (auto split: option.splits if_splits)

lemma deref_Some [simp]: "deref (Some v) = Inr v" "deref None = Inl NilPointer"
  by (simp_all add: deref_def)

lemma noncurrent_loop_ok:
  "\<forall>t \<in> set ts. nvt_NoncurrentDays t \<noteq> None \<Longrightarrow>
     is_ok (noncurrent_transition_loop cfg r c rank now selected ts)"
  by (induction ts arbitrary: selected) auto

lemma evaluateRule_ok: "days_set r \<Longrightarrow> is_ok (evaluateRule cfg r c rank versions now)"
  by (auto simp: evaluateRule_def evaluate_multipart_def evaluate_noncurrent_def noncurrent_transition_def
      days_set_def opt_holds_def is_ok_bind_res noncurrent_loop_ok [unfolded is_ok_iff]
      split: option.splits)

lemma rule_loop_ok:
  "\<forall>r \<in> set rs. days_set r \<Longrightarrow> is_ok (rule_loop cfg c rank versions now i sel rs)"
proof (induction rs arbitrary: i sel)
  case (Cons r rs)
  from Cons.prems have "is_ok (evaluateRule cfg r c rank versions now)"
    by (simp add: evaluateRule_ok)
  then obtain o' where "evaluateRule cfg r c rank versions now = Inr o'" by (auto simp: is_ok_iff)
  moreover have "is_ok (rule_loop cfg c rank versions now j s rs)" for j s
    using Cons by simp
  moreover obtain sa sp where "sel = (sa, sp)" by (cases sel)
  ultimately show ?case by (cases o') auto
qed simp

section \<open>Where an action comes from\<close>




lemma mk_action_fields [simp]:
  "act_Kind (mk_action k t) = k" "act_TargetStorageClass (mk_action k t) = t"
  by (simp_all add: mk_action_def)







section \<open>Priorities\<close>

text \<open>How good a selection is: its priority, and for transitions the storage class.\<close>

definition merit :: "LifecycleAction \<Rightarrow> nat \<Rightarrow> nat \<times> nat" where
  "merit a p = (p, if act_Kind a = ActionTransition then lifecycleStorageClassPreference (act_TargetStorageClass a) else 0)"

definition at_least :: "nat \<times> nat \<Rightarrow> nat \<times> nat \<Rightarrow> bool" where
  "at_least x y \<longleftrightarrow> fst y < fst x \<or> fst y = fst x \<and> snd y \<le> snd x"

lemma at_least_refl [simp]: "at_least x x"
  by (simp add: at_least_def)


lemma kind_complete [simp]: "act_Kind (complete_action c r k a) = act_Kind a"
  by (simp add: complete_action_def)

lemma merit_complete [simp]: "merit (complete_action c r k a) p = merit a p"
  by (simp add: merit_def complete_action_def)




section \<open>Transitions only go down\<close>

text \<open>The stations of an object: every allowed transition moves strictly forward.\<close>

definition station :: "string \<Rightarrow> nat" where
  "station c =
     (if c = [] \<or> c = ''STANDARD'' then 0
      else if c = ''STANDARD_IA'' then 1
      else if c = ''INTELLIGENT_TIERING'' then 2
      else if c = ''ONEZONE_IA'' \<or> c = ''GLACIER_IR'' then 3
      else if c = ''GLACIER'' then 4
      else 5)"

lemma station_simps [simp]:
  "station [] = 0" "station ''STANDARD'' = 0" "station ''STANDARD_IA'' = 1" "station ''INTELLIGENT_TIERING'' = 2"
  "station ''ONEZONE_IA'' = 3" "station ''GLACIER_IR'' = 3" "station ''GLACIER'' = 4" "station ''DEEP_ARCHIVE'' = 5"
  by (simp_all add: station_def)

lemma preference_nonzero:
  "lifecycleStorageClassPreference t \<noteq> 0 \<longleftrightarrow>
     t \<in> set [''DEEP_ARCHIVE'', ''GLACIER'', ''INTELLIGENT_TIERING'', ''GLACIER_IR'', ''ONEZONE_IA'', ''STANDARD_IA'']"
  unfolding lifecycleStorageClassPreference_def list.set insert_iff empty_iff by (simp only: split: if_split) simp

lemma station_le: "station t \<le> 5"
  unfolding station_def by simp

lemma transition_forward:
  assumes "lifecycleTransitionAllowed c t"
  shows "station c < station t"
proof -
  define d where "d = (if c = [] then ''STANDARD'' else c)"
  have d: "station d = station c" by (simp add: d_def)
  consider "d = ''STANDARD''" "t \<in> set [''DEEP_ARCHIVE'', ''GLACIER'', ''INTELLIGENT_TIERING'', ''GLACIER_IR'', ''ONEZONE_IA'', ''STANDARD_IA'']"
    | "d = ''STANDARD_IA''" "t \<in> set [''INTELLIGENT_TIERING'', ''ONEZONE_IA'', ''GLACIER_IR'', ''GLACIER'', ''DEEP_ARCHIVE'']"
    | "d = ''INTELLIGENT_TIERING''" "t \<in> set [''ONEZONE_IA'', ''GLACIER_IR'', ''GLACIER'', ''DEEP_ARCHIVE'']"
    | "d = ''ONEZONE_IA'' \<or> d = ''GLACIER_IR''" "t \<in> set [''GLACIER'', ''DEEP_ARCHIVE'']"
    | "d = ''GLACIER''" "t = ''DEEP_ARCHIVE''"
    using assms unfolding lifecycleTransitionAllowed_def Let_def d_def [symmetric] preference_nonzero
    by (simp only: split: if_split_asm)
  then have "station d < station t"
    unfolding list.set insert_iff empty_iff
    by cases ((elim disjE)?; simp)+
  with d show ?thesis by simp
qed
fun transition_path :: "string \<Rightarrow> string list \<Rightarrow> bool" where
  "transition_path c [] = True"
| "transition_path c (t # ts) = (lifecycleTransitionAllowed c t \<and> transition_path t ts)"

lemma transition_path_short: "transition_path c ts \<Longrightarrow> length ts + station c \<le> 5 \<or> ts = []"
proof (induction ts arbitrary: c)
  case (Cons t ts)
  then have t: "station c < station t" "station t \<le> 5" using transition_forward station_le by auto
  from Cons.prems Cons.IH [of t] have "length ts + station t \<le> 5 \<or> ts = []" by simp
  with t show ?case by auto
qed simp

section \<open>Deadlines without overflow\<close>

lemma days_duration_exact:
  assumes "0 \<le> days" "days \<le> 106751"
  shows "days_duration days = days * day_nanoseconds"
proof -
  have "(word_of_int days * 24 * 3600000000000 :: 64 word) = word_of_int (days * 86400000000000)"
    by (simp add: mult.assoc)
  then have "days_duration days = signed_take_bit 63 (days * 86400000000000)"
    unfolding days_duration_def by (simp only: sint_sbintrunc') simp
  also have "\<dots> = days * 86400000000000"
    using assms by (intro signed_take_bit_int_eq_self) simp_all
  finally show ?thesis by (simp add: day_nanoseconds_def)
qed

lemma truncate_day_bounds: "truncate_day t \<le> t \<and> t < truncate_day t + day_nanoseconds"
proof -
  have "0 \<le> t mod day_nanoseconds" "t mod day_nanoseconds < day_nanoseconds"
    by (simp_all add: day_nanoseconds_def)
  then show ?thesis by (simp add: truncate_day_def)
qed

section \<open>Ranks of noncurrent versions\<close>







section \<open>One action per candidate\<close>




section \<open>Properties\<close>

text \<open>
  C36. Evaluating an accepted configuration never dereferences a nil day count, for any candidates
  and at any time.
\<close>

theorem accepted_configuration_evaluates:
  assumes "Configuration_Validate cfg capabilities = None"
  shows "\<exists>actions. lifecycle_Evaluate cfg cs now = Inr actions"
proof -
  from assms have "validate_rules capabilities 0 [] (cfg_Rules cfg) = None"
    by (simp add: Configuration_Validate_def)
  then have rules: "\<forall>r \<in> set (cfg_Rules cfg). days_set r"
    using validate_rules_all validateRule_days_set by blast
  have "is_ok (evaluate_candidate cfg cs now i)" for i
    using rule_loop_ok [OF rules] unfolding evaluate_candidate_def is_ok_bind_res
    by (auto simp: is_ok_iff)
  then have "is_ok (map_res (evaluate_candidate cfg cs now) [0..<length cs])"
    by (simp add: is_ok_map_res)
  then show ?thesis by (auto simp: lifecycle_Evaluate_def is_ok_iff)
qed

definition plain_rule :: Rule where
  "plain_rule = \<lparr>rule_ID = None, rule_Prefix = None,
     rule_Filter = Some \<lparr>flt_Prefix = None, flt_Tag = None, flt_ObjectSizeGreaterThan = None,
       flt_ObjectSizeLessThan = None, flt_And = None\<rparr>,
     rule_Status = ''Enabled'', rule_Expiration = None, rule_Transitions = [],
     rule_NoncurrentVersionExpiration = Some \<lparr>nve_NoncurrentDays = Some 1, nve_NewerNoncurrentVersions = Some 1\<rparr>,
     rule_NoncurrentVersionTransitions = [], rule_AbortIncompleteMultipartUpload = None\<rparr>"

definition retention_config :: Configuration where
  "retention_config = \<lparr>cfg_TransitionDefaultMinimumObjectSize = [], cfg_Rules = [plain_rule]\<rparr>"

theorem accepted_configuration_evaluates_witness:
  "Configuration_Validate retention_config (\<lambda>_. False) = None
   \<and> (\<exists>actions. lifecycle_Evaluate retention_config [] 0 = Inr actions)"
proof -
  have v: "Configuration_Validate retention_config (\<lambda>_. False) = None" by code_simp
  with accepted_configuration_evaluates [OF v, of "[]" 0] show ?thesis by blast
qed


definition old_version :: "int \<Rightarrow> Candidate" where
  "old_version since = \<lparr>cand_Kind = CandidateObject, cand_Bucket = ''b'', cand_Key = ''k'', cand_VersionID = ''v'',
     cand_UploadID = [], cand_ETag = [], cand_StateToken = [], cand_Current = False, cand_DeleteMarker = False,
     cand_Protected = False, cand_Versioning = VersioningEnabled, cand_Size = 1, cand_LastModified = since,
     cand_NoncurrentSince = since, cand_NoncurrentRank = 0, cand_VersionsForKey = 0, cand_StorageClass = [],
     cand_Tags = (\<lambda>_. None)\<rparr>"





text \<open>
  Deadlines: for up to 106751 days nothing is eligible before that many full days have passed,
  and everything is eligible a day later at the latest. From 106752 days on the duration
  overflows: what was modified just now is eligible at once.
\<close>

theorem eligibleByDays_bounds:
  "(\<forall>since days now. since \<noteq> zero_time \<and> 0 \<le> days \<and> days \<le> 106751 \<longrightarrow>
      (eligibleByDays since days now \<longrightarrow> since + days * day_nanoseconds < now)
      \<and> (since + (days + 1) * day_nanoseconds \<le> now \<longrightarrow> eligibleByDays since days now))
   \<and> (\<forall>since. since \<noteq> zero_time \<longrightarrow> eligibleByDays since 106752 since)"
proof (intro conjI allI impI)
  fix since days now :: int
  assume a: "since \<noteq> zero_time \<and> 0 \<le> days \<and> days \<le> 106751"
  let ?t = "since + days * day_nanoseconds"
  have e: "eligibleByDays since days now \<longleftrightarrow> truncate_day ?t + day_nanoseconds \<le> now"
    using a by (simp add: eligibleByDays_def days_duration_exact Let_def not_less)
  show "?t < now" if "eligibleByDays since days now"
    using that e truncate_day_bounds [of ?t] by simp
  show "eligibleByDays since days now" if "since + (days + 1) * day_nanoseconds \<le> now"
    using that e truncate_day_bounds [of ?t] by (simp add: algebra_simps)
next
  fix since :: int
  assume s: "since \<noteq> zero_time"
  let ?t = "since + days_duration 106752"
  have "days_duration 106752 = -9223371273709551616" by code_simp
  then have "truncate_day ?t + day_nanoseconds \<le> since"
    using truncate_day_bounds [of ?t] by (simp add: day_nanoseconds_def)
  with s show "eligibleByDays since 106752 since"
    by (simp add: eligibleByDays_def Let_def)
qed

theorem eligibleByDays_bounds_witness:
  "\<not> eligibleByDays 0 30 0 \<and> eligibleByDays 0 30 (31 * day_nanoseconds) \<and> eligibleByDays 0 106752 0"
proof -
  have z: "(0 :: int) \<noteq> zero_time" by (simp add: zero_time_def)
  have "eligibleByDays 0 30 0 \<longrightarrow> 0 + 30 * day_nanoseconds < 0"
    using spec [OF spec [OF spec [OF conjunct1 [OF eligibleByDays_bounds], of 0], of 30], of 0] z by simp
  moreover have "eligibleByDays 0 30 (31 * day_nanoseconds)"
    using spec [OF spec [OF spec [OF conjunct1 [OF eligibleByDays_bounds], of 0], of 30], of "31 * day_nanoseconds"] z
    by simp
  moreover have "eligibleByDays 0 106752 0"
    using spec [OF conjunct2 [OF eligibleByDays_bounds], of 0] z by simp
  ultimately show ?thesis by (simp add: day_nanoseconds_def)
qed

text \<open>
  Transitions end: an object moves through at most five storage classes, whatever the rules are,
  and never back.
\<close>

theorem transition_paths_end:
  "transition_path c ts \<Longrightarrow> length ts \<le> 5 \<and> distinct (c # ts)"
proof (induction ts arbitrary: c)
  case (Cons t ts)
  from Cons.prems have ct: "lifecycleTransitionAllowed c t" and p: "transition_path t ts" by simp_all
  have later: "station t \<le> station u" if "u \<in> set (t # ts)" for u
    using p that
  proof (induction ts arbitrary: t)
    case (Cons s ts)
    then show ?case using transition_forward [of t s] by fastforce
  qed simp
  have "c \<notin> set (t # ts)" using later transition_forward [OF ct] by fastforce
  with Cons.IH [OF p] transition_path_short [OF Cons.prems] show ?case by auto
qed simp

theorem transition_paths_end_witness:
  "transition_path ''STANDARD'' [''STANDARD_IA'', ''GLACIER''] \<and>
   distinct [''STANDARD'', ''STANDARD_IA'', ''GLACIER'']"
proof -
  have p: "transition_path ''STANDARD'' [''STANDARD_IA'', ''GLACIER'']" by code_simp
  from transition_paths_end [OF p] p show ?thesis by blast
qed

text \<open>
  A tag filter with an empty value also matches the objects that do not carry the tag at all.
\<close>

theorem empty_tag_value_matches_untagged:
  "cand_Tags c (tag_Key t) = None \<Longrightarrow> tag_Value t = [] \<Longrightarrow>
   filter_matches \<lparr>flt_Prefix = None, flt_Tag = Some t, flt_ObjectSizeGreaterThan = None,
     flt_ObjectSizeLessThan = None, flt_And = None\<rparr> c"
  by (simp add: filter_matches_def opt_holds_def tag_value_def)

theorem empty_tag_value_matches_untagged_witness:
  "filter_matches \<lparr>flt_Prefix = None, flt_Tag = Some \<lparr>tag_Key = ''temporary'', tag_Value = []\<rparr>,
     flt_ObjectSizeGreaterThan = None, flt_ObjectSizeLessThan = None, flt_And = None\<rparr> (old_version 5)"
  by (rule empty_tag_value_matches_untagged) (simp_all add: old_version_def)

end
