(* ===== verification/Lifecycle_Coordinator.thy ===== *)
theory Lifecycle_Coordinator
  imports Lifecycle
begin

text \<open>
  The lifecycle coordinator (internal/lifecycle/coordinator.go): one run over all buckets, each
  scanned page by page under its lease. The backend that lists candidates and applies actions is
  the record \<open>executor\<close> of functions on a state \<open>'s\<close>. Every call the coordinator makes is
  recorded in a trace, in order. A scan whose backend never stops handing out pages does not
  return, which is the value \<open>None\<close>.
\<close>

section \<open>The backend and the trace\<close>

text \<open>
  Errors of a run: the two named errors, an error of the backend, a panic, an error with a
  prefix (\<open>fmt.Errorf\<close> with \<open>%w\<close>), joined errors.
\<close>

datatype scan_error =
    ErrConflict
  | ErrLeaseUnavailable
  | BackendError string
  | Panicked
  | Prefixed string scan_error
  | Joined "scan_error list"

text \<open>\<open>errors.Is(err, target)\<close>.\<close>

fun error_is :: "scan_error \<Rightarrow> scan_error \<Rightarrow> bool" where
  "error_is (Prefixed m e) target = (Prefixed m e = target \<or> error_is e target)"
| "error_is (Joined es) target = (Joined es = target \<or> list_ex (\<lambda>e. error_is e target) es)"
| "error_is e target = (e = target)"

record Cursor =
  cur_Phase :: string
  cur_KeyMarker :: string
  cur_VersionIDMarker :: string
  cur_UploadIDMarker :: string
  cur_PreviousKey :: string
  cur_PreviousTime :: int
  cur_NoncurrentRank :: int

definition zero_Cursor :: Cursor where
  "zero_Cursor = \<lparr>cur_Phase = [], cur_KeyMarker = [], cur_VersionIDMarker = [], cur_UploadIDMarker = [],
     cur_PreviousKey = [], cur_PreviousTime = zero_time, cur_NoncurrentRank = 0\<rparr>"

record Page =
  page_Candidates :: "Candidate list"
  page_Next :: "Cursor option"

text \<open>
  \<open>Executor\<close> and \<open>ConfigurationStore\<close>, and the optional interfaces \<open>Reconciler\<close> and
  \<open>ReconciliationSource\<close>; \<open>ex_ctxErr\<close> and \<open>ex_now\<close> read the request context and the clock.
\<close>

record 's executor =
  ex_ListLifecycleBuckets :: "'s \<Rightarrow> (scan_error, string list) result \<times> 's"
  ex_AcquireLifecycleLease :: "string \<Rightarrow> 's \<Rightarrow> scan_error option \<times> 's"
  ex_CloseLease :: "string \<Rightarrow> 's \<Rightarrow> scan_error option \<times> 's"
  ex_ListLifecycleCandidates :: "string \<Rightarrow> Cursor \<Rightarrow> int \<Rightarrow> 's \<Rightarrow> (scan_error, Page) result \<times> 's"
  ex_ApplyLifecycleAction :: "LifecycleAction \<Rightarrow> 's \<Rightarrow> scan_error option \<times> 's"
  ex_GetLifecycleConfiguration :: "string \<Rightarrow> 's \<Rightarrow> (scan_error, Configuration) result \<times> 's"
  ex_ReconcileLifecycle :: "(string \<Rightarrow> 's \<Rightarrow> scan_error option \<times> 's) option"
  ex_ListReconciliationBuckets :: "('s \<Rightarrow> (scan_error, string list) result \<times> 's) option"
  ex_ctxErr :: "'s \<Rightarrow> scan_error option"
  ex_now :: "'s \<Rightarrow> int"

record Coordinator =
  co_PageSize :: int
  co_DryRun :: bool

record ActionResult =
  ar_Action :: LifecycleAction
  ar_DryRun :: bool
  ar_Error :: "scan_error option"

record ScanResult =
  sr_Bucket :: string
  sr_Candidates :: int
  sr_Protected :: int
  sr_Eligible :: int
  sr_LeaseContended :: bool
  sr_Error :: "scan_error option"

datatype call =
    Acquired string
  | Closed string
  | Reconciled string
  | Listed string Cursor
  | Applied LifecycleAction
  | Observed ActionResult
  | ObservedScan ScanResult

section \<open>One page\<close>

text \<open>The loop over the actions of a page: an error ends it, a conflict does not.\<close>

fun apply_actions ::
    "'s executor \<Rightarrow> Coordinator \<Rightarrow> LifecycleAction list \<Rightarrow> 's \<Rightarrow> call list \<Rightarrow> scan_error option \<times> 's \<times> call list" where
  "apply_actions ex co [] s tr = (None, s, tr)"
| "apply_actions ex co (a # as) s tr =
     (case ex_ctxErr ex s of
        Some err \<Rightarrow> (Some err, s, tr)
      | None \<Rightarrow>
          if co_DryRun co then
            apply_actions ex co as s (tr @ [Observed \<lparr>ar_Action = a, ar_DryRun = True, ar_Error = None\<rparr>])
          else
            (case ex_ApplyLifecycleAction ex a s of
               (err, s') \<Rightarrow>
                 let tr' = tr @ [Applied a, Observed \<lparr>ar_Action = a, ar_DryRun = False, ar_Error = err\<rparr>]
                 in case err of
                      None \<Rightarrow> apply_actions ex co as s' tr'
                    | Some e \<Rightarrow>
                        if error_is e ErrConflict then apply_actions ex co as s' tr'
                        else (Some (Prefixed ''apply'' e), s', tr')))"

definition count_page :: "Candidate list \<Rightarrow> ScanResult \<Rightarrow> ScanResult" where
  "count_page cs r =
     r\<lparr>sr_Candidates := sr_Candidates r + int (length cs),
       sr_Protected := sr_Protected r + int (length (filter cand_Protected cs))\<rparr>"

text \<open>The page loop of \<open>scanBucket\<close>.\<close>

partial_function (option) page_loop ::
    "'s executor \<Rightarrow> Coordinator \<Rightarrow> string \<Rightarrow> Configuration \<Rightarrow> int \<Rightarrow> Cursor \<Rightarrow> ScanResult \<Rightarrow> 's \<Rightarrow> call list
      \<Rightarrow> (scan_error option \<times> ScanResult \<times> 's \<times> call list) option" where
  "page_loop ex co bucket cfg pageSize cursor r s tr =
     (case ex_ListLifecycleCandidates ex bucket cursor pageSize s of
        (Inl err, s1) \<Rightarrow> Some (Some (Prefixed ''list candidates'' err), r, s1, tr @ [Listed bucket cursor])
      | (Inr page, s1) \<Rightarrow>
          (let r1 = count_page (page_Candidates page) r
           in case lifecycle_Evaluate cfg (page_Candidates page) (ex_now ex s1) of
                Inl _ \<Rightarrow> Some (Some Panicked, r1, s1, tr @ [Listed bucket cursor])
              | Inr actions \<Rightarrow>
                  (let r2 = r1\<lparr>sr_Eligible := sr_Eligible r1 + int (length actions)\<rparr>
                   in case apply_actions ex co actions s1 (tr @ [Listed bucket cursor]) of
                        (Some err, s2, tr2) \<Rightarrow> Some (Some err, r2, s2, tr2)
                      | (None, s2, tr2) \<Rightarrow>
                          (case page_Next page of
                             None \<Rightarrow> Some (None, r2, s2, tr2)
                           | Some next \<Rightarrow> page_loop ex co bucket cfg pageSize next r2 s2 tr2))))"

section \<open>One bucket\<close>

text \<open>The body of \<open>scanBucket\<close> between taking and releasing the lease.\<close>

definition scan_body ::
    "'s executor \<Rightarrow> Coordinator \<Rightarrow> string \<Rightarrow> ScanResult \<Rightarrow> 's \<Rightarrow> call list
      \<Rightarrow> (scan_error option \<times> ScanResult \<times> 's \<times> call list) option" where
  "scan_body ex co bucket r s tr =
     (let (recErr, s1, tr1) =
            (case ex_ReconcileLifecycle ex of
               None \<Rightarrow> (None, s, tr)
             | Some reconcile \<Rightarrow> (case reconcile bucket s of (e, s') \<Rightarrow> (e, s', tr @ [Reconciled bucket])))
      in case recErr of
           Some err \<Rightarrow> Some (Some (Prefixed ''reconcile lifecycle state'' err), r, s1, tr1)
         | None \<Rightarrow>
             (case ex_GetLifecycleConfiguration ex bucket s1 of
                (Inl err, s2) \<Rightarrow> Some (Some (Prefixed ''load configuration'' err), r, s2, tr1)
              | (Inr cfg, s2) \<Rightarrow>
                  page_loop ex co bucket cfg (if co_PageSize co \<le> 0 then 1000 else co_PageSize co) zero_Cursor r s2 tr1))"

text \<open>The deferred release of the lease: its error is joined to the result.\<close>

definition release_lease ::
    "'s executor \<Rightarrow> string \<Rightarrow> scan_error option \<Rightarrow> 's \<Rightarrow> call list \<Rightarrow> scan_error option \<times> 's \<times> call list" where
  "release_lease ex bucket returnErr s tr =
     (case ex_CloseLease ex bucket s of
        (closeErr, s') \<Rightarrow>
          ((if returnErr = Some Panicked then Some Panicked
            else case closeErr of
                None \<Rightarrow> returnErr
              | Some e \<Rightarrow>
                  Some (Joined ((case returnErr of None \<Rightarrow> [] | Some r \<Rightarrow> [r]) @ [Prefixed ''release lifecycle lease'' e]))),
           s', tr @ [Closed bucket]))"

definition scanBucket ::
    "'s executor \<Rightarrow> Coordinator \<Rightarrow> string \<Rightarrow> 's \<Rightarrow> call list \<Rightarrow> (scan_error option \<times> 's \<times> call list) option" where
  "scanBucket ex co bucket s tr =
     (let r0 = \<lparr>sr_Bucket = bucket, sr_Candidates = 0, sr_Protected = 0, sr_Eligible = 0,
                sr_LeaseContended = False, sr_Error = None\<rparr>
      in case ex_AcquireLifecycleLease ex bucket s of
           (Some err, s1) \<Rightarrow>
             if error_is err ErrLeaseUnavailable
             then Some (None, s1, tr @ [ObservedScan (r0\<lparr>sr_LeaseContended := True\<rparr>)])
             else Some (Some (Prefixed ''acquire lease'' err), s1,
                        tr @ [ObservedScan (r0\<lparr>sr_Error := Some (Prefixed ''acquire lease'' err)\<rparr>)])
         | (None, s1) \<Rightarrow>
             (case scan_body ex co bucket r0 s1 (tr @ [Acquired bucket]) of
                None \<Rightarrow> None
              | Some (err, r, s2, tr2) \<Rightarrow>
                  (let (err', s3, tr3) = release_lease ex bucket err s2 tr2
                   in Some (err', s3, tr3 @ [ObservedScan (r\<lparr>sr_Error := err'\<rparr>)]))))"

definition reconcileBucket ::
    "'s executor \<Rightarrow> (string \<Rightarrow> 's \<Rightarrow> scan_error option \<times> 's) \<Rightarrow> string \<Rightarrow> 's \<Rightarrow> call list
      \<Rightarrow> scan_error option \<times> 's \<times> call list" where
  "reconcileBucket ex reconcile bucket s tr =
     (case ex_AcquireLifecycleLease ex bucket s of
        (Some err, s1) \<Rightarrow>
          if error_is err ErrLeaseUnavailable then (None, s1, tr)
          else (Some (Prefixed ''acquire lease'' err), s1, tr)
      | (None, s1) \<Rightarrow>
          (case reconcile bucket s1 of
             (e, s2) \<Rightarrow>
               release_lease ex bucket (map_option (Prefixed ''reconcile lifecycle state'') e) s2
                 (tr @ [Acquired bucket, Reconciled bucket])))"

section \<open>One run\<close>

text \<open>The loop over the configured buckets: errors are collected, a panic ends the run.\<close>

fun scan_all ::
    "'s executor \<Rightarrow> Coordinator \<Rightarrow> string list \<Rightarrow> scan_error list \<Rightarrow> 's \<Rightarrow> call list
      \<Rightarrow> ((scan_error list, scan_error list) result \<times> 's \<times> call list) option" where
  "scan_all ex co [] errs s tr = Some (Inr errs, s, tr)"
| "scan_all ex co (b # bs) errs s tr =
     (case scanBucket ex co b s tr of
        None \<Rightarrow> None
      | Some (None, s', tr') \<Rightarrow> scan_all ex co bs errs s' tr'
      | Some (Some e, s', tr') \<Rightarrow>
          if e = Panicked then Some (Inl (errs @ [Panicked]), s', tr')
          else scan_all ex co bs (errs @ [Prefixed ''scan bucket'' e]) s' tr')"

fun reconcile_all ::
    "'s executor \<Rightarrow> (string \<Rightarrow> 's \<Rightarrow> scan_error option \<times> 's) \<Rightarrow> string list \<Rightarrow> string list \<Rightarrow> scan_error list
      \<Rightarrow> 's \<Rightarrow> call list \<Rightarrow> scan_error list \<times> 's \<times> call list" where
  "reconcile_all ex reconcile configured [] errs s tr = (errs, s, tr)"
| "reconcile_all ex reconcile configured (b # bs) errs s tr =
     (if b \<in> set configured then reconcile_all ex reconcile configured bs errs s tr
      else case reconcileBucket ex reconcile b s tr of
          (None, s', tr') \<Rightarrow> reconcile_all ex reconcile configured bs errs s' tr'
        | (Some e, s', tr') \<Rightarrow>
            reconcile_all ex reconcile configured bs (errs @ [Prefixed ''reconcile bucket'' e]) s' tr')"

text \<open>\<open>errors.Join\<close> of the collected errors: nil when there are none.\<close>

definition join_errors :: "scan_error list \<Rightarrow> scan_error option" where
  "join_errors es = (if es = [] then None else Some (Joined es))"

definition RunOnce ::
    "'s executor option \<Rightarrow> Coordinator \<Rightarrow> 's \<Rightarrow> (scan_error option \<times> 's \<times> call list) option" where
  "RunOnce exo co s =
     (case exo of
        None \<Rightarrow> Some (Some (BackendError ''lifecycle coordinator requires store and executor''), s, [])
      | Some ex \<Rightarrow>
          (case ex_ListLifecycleBuckets ex s of
             (Inl err, s1) \<Rightarrow> Some (Some (Prefixed ''list lifecycle buckets'' err), s1, [])
           | (Inr buckets, s1) \<Rightarrow>
               (case scan_all ex co buckets [] s1 [] of
                  None \<Rightarrow> None
                | Some (Inl errs, s2, tr) \<Rightarrow> Some (Some Panicked, s2, tr)
                | Some (Inr errs, s2, tr) \<Rightarrow>
                    (case ex_ListReconciliationBuckets ex of
                       None \<Rightarrow> Some (join_errors errs, s2, tr)
                     | Some source \<Rightarrow>
                         (case ex_ReconcileLifecycle ex of
                            None \<Rightarrow>
                              Some (join_errors (errs @ [BackendError ''lifecycle reconciliation source requires a reconciler'']), s2, tr)
                          | Some reconcile \<Rightarrow>
                              (case source s2 of
                                 (Inl err, s3) \<Rightarrow>
                                   Some (join_errors (errs @ [Prefixed ''list lifecycle reconciliation buckets'' err]), s3, tr)
                               | (Inr bs, s3) \<Rightarrow>
                                   (let (errs', s4, tr') = reconcile_all ex reconcile buckets bs errs s3 tr
                                    in Some (join_errors errs', s4, tr'))))))))"

section \<open>Leases and traces\<close>

text \<open>
  The lease discipline as an automaton over the trace: which lease is held after the calls, or
  \<open>None\<close> where a call is made that needs a lease that is not held.
\<close>

fun lease_call :: "call \<Rightarrow> string option \<Rightarrow> string option option" where
  "lease_call (Acquired b) held = (if held = None then Some (Some b) else None)"
| "lease_call (Closed b) held = (if held = Some b then Some None else None)"
| "lease_call (Reconciled b) held = (if held = Some b then Some held else None)"
| "lease_call (Listed b c) held = (if held = Some b then Some held else None)"
| "lease_call (Applied a) held = (if held \<noteq> None then Some held else None)"
| "lease_call (Observed r) held = Some held"
| "lease_call (ObservedScan r) held = Some held"

fun lease_run :: "call list \<Rightarrow> string option \<Rightarrow> string option option" where
  "lease_run [] held = Some held"
| "lease_run (x # xs) held = (case lease_call x held of None \<Rightarrow> None | Some h \<Rightarrow> lease_run xs h)"


definition applies_in :: "call list \<Rightarrow> LifecycleAction set" where
  "applies_in tr = {a. Applied a \<in> set tr}"

lemma applies_in_simps [simp]:
  "applies_in [] = {}" "applies_in (xs @ ys) = applies_in xs \<union> applies_in ys"
  "applies_in (Applied a # xs) = insert a (applies_in xs)"
  "applies_in (Acquired b # xs) = applies_in xs" "applies_in (Closed b # xs) = applies_in xs"
  "applies_in (Reconciled b # xs) = applies_in xs" "applies_in (Listed b c # xs) = applies_in xs"
  "applies_in (Observed r # xs) = applies_in xs" "applies_in (ObservedScan sr # xs) = applies_in xs"
  by (auto simp: applies_in_def)

text \<open>A piece of trace that keeps the lease state \<open>held\<close>, without applications in a dry run.\<close>

definition keeps :: "Coordinator \<Rightarrow> string option \<Rightarrow> call list \<Rightarrow> call list \<Rightarrow> bool" where
  "keeps co held tr tr' \<longleftrightarrow>
     (\<exists>d. tr' = tr @ d \<and> lease_run d held = Some held \<and> (co_DryRun co \<longrightarrow> applies_in d = {}))"

lemma keeps_refl [simp, intro]: "keeps co held tr tr"
  by (simp add: keeps_def)














section \<open>A scan returns\<close>

text \<open>
  Where the cursors the backend hands out always go forward in some measure, the scan of a bucket
  returns.
\<close>

definition cursors_advance :: "'s executor \<Rightarrow> (Cursor \<Rightarrow> nat) \<Rightarrow> bool" where
  "cursors_advance ex m \<longleftrightarrow>
     (\<forall>b c n s page s' c'. ex_ListLifecycleCandidates ex b c n s = (Inr page, s') \<longrightarrow>
        page_Next page = Some c' \<longrightarrow> m c' < m c)"

lemma page_loop_returns:
  assumes "cursors_advance ex m"
  shows "page_loop ex co bucket cfg n cursor r s tr \<noteq> None"
proof (induction "m cursor" arbitrary: cursor r s tr rule: less_induct)
  case less
  obtain x s1 where l: "ex_ListLifecycleCandidates ex bucket cursor n s = (x, s1)" by fastforce
  have "page_loop ex co bucket cfg n c' r' s' tr' \<noteq> None"
    if "x = Inr page" "page_Next page = Some c'" for page c' r' s' tr'
    using less assms l that unfolding cursors_advance_def by blast
  with l show ?case
    by (subst page_loop.simps)
       (auto simp: Let_def split: sum.splits option.splits prod.splits)
qed

lemma scanBucket_returns:
  assumes "cursors_advance ex m"
  shows "scanBucket ex co bucket s tr \<noteq> None"
proof -
  have "scan_body ex co bucket r s tr \<noteq> None" for r s tr
    unfolding scan_body_def
    by (auto simp: Let_def page_loop_returns [OF assms, simplified] split: option.splits sum.splits prod.splits)
  then show ?thesis
    by (simp add: scanBucket_def Let_def del: not_None_eq split: option.split prod.split)
qed

lemma scan_all_returns:
  assumes "cursors_advance ex m"
  shows "scan_all ex co bs errs s tr \<noteq> None"
proof (induction bs arbitrary: errs s tr)
  case (Cons b bs)
  then show ?case using scanBucket_returns [OF assms, of co b s tr]
    by (auto split: option.splits)
qed simp

lemma RunOnce_not_None:
  assumes "cursors_advance ex m"
  shows "RunOnce (Some ex) co s \<noteq> None"
  using scan_all_returns [OF assms]
  by (simp add: RunOnce_def Let_def del: not_None_eq split: option.split sum.split prod.split)

section \<open>Properties\<close>


text \<open>A backend with one bucket and one page, whose state counts the applied actions.\<close>

definition demo_executor :: "Candidate list \<Rightarrow> nat executor" where
  "demo_executor cs =
     \<lparr>ex_ListLifecycleBuckets = (\<lambda>s. (Inr [''b''], s)),
      ex_AcquireLifecycleLease = (\<lambda>b s. (None, s)), ex_CloseLease = (\<lambda>b s. (None, s)),
      ex_ListLifecycleCandidates = (\<lambda>b c n s.
        (Inr \<lparr>page_Candidates = cs, page_Next = (if cur_Phase c = [] then Some (c\<lparr>cur_Phase := ''done''\<rparr>) else None)\<rparr>, s)),
      ex_ApplyLifecycleAction = (\<lambda>a s. (Some ErrConflict, Suc s)),
      ex_GetLifecycleConfiguration = (\<lambda>b s. (Inr retention_config, s)),
      ex_ReconcileLifecycle = None, ex_ListReconciliationBuckets = None,
      ex_ctxErr = (\<lambda>s. None), ex_now = (\<lambda>s. 864000000000000)\<rparr>"

lemma demo_executor_advances: "cursors_advance (demo_executor cs) (\<lambda>c. if cur_Phase c = [] then 1 else 0)"
  by (auto simp: cursors_advance_def demo_executor_def split: if_splits)

text \<open>
  C37. A run returns for every backend whose cursors advance, whatever its operations answer.
\<close>

theorem RunOnce_returns:
  assumes "cursors_advance ex m"
  shows "\<exists>err s' tr. RunOnce (Some ex) co s = Some (err, s', tr)"
  using RunOnce_not_None [OF assms] by auto

theorem RunOnce_returns_witness:
  "\<exists>err s' tr. RunOnce (Some (demo_executor [old_version 5])) \<lparr>co_PageSize = 0, co_DryRun = False\<rparr> 0 = Some (err, s', tr)"
  by (rule RunOnce_returns [OF demo_executor_advances])


end
