(* ===== verification/Multipart_Lister.thy ===== *)
theory Multipart_Lister
  imports S3_Errors "HOL-Library.Product_Lexorder"
begin

text \<open>
  Listing multipart uploads: the page builder all backends share (backend/mp-lister.go) and the
  selection and sorting of the uploads the posix backend hands to it (backend/posix/posix.go,
  ListMultipartUploads). The directory walk that collects the uploads is not modelled; the uploads
  found are a list. \<open>uuid.Parse\<close> is a parameter that accepts or rejects a text.
\<close>

record Upload =
  up_Key :: string
  up_UploadID :: string
  up_Initiated :: int

record MultipartUploadLister =
  l_Uploads :: "Upload list"
  l_Prefix :: string
  l_Delimiter :: string
  l_MaxUploads :: int
  l_KeyMarker :: string
  l_UploadIDMarker :: string

record ListMultipartUploadsPage =
  p_Uploads :: "Upload list"
  p_CommonPrefixes :: "string list"
  p_IsTruncated :: bool
  p_NextKeyMarker :: string
  p_NextUploadIDMarker :: string

definition empty_page :: ListMultipartUploadsPage where
  "empty_page = \<lparr>p_Uploads = [], p_CommonPrefixes = [], p_IsTruncated = False, p_NextKeyMarker = [],
     p_NextUploadIDMarker = []\<rparr>"

text \<open>The common prefix an upload collapses into, where the delimiter occurs after the prefix.\<close>

definition common_prefix :: "MultipartUploadLister \<Rightarrow> Upload \<Rightarrow> string option" where
  "common_prefix l up =
     (case Cut (TrimPrefix (up_Key up) (l_Prefix l)) (l_Delimiter l) of
        None \<Rightarrow> None
      | Some (before, _) \<Rightarrow> Some (l_Prefix l @ before @ l_Delimiter l))"

fun marker_loop :: "string \<Rightarrow> string \<Rightarrow> nat \<Rightarrow> Upload list \<Rightarrow> nat option" where
  "marker_loop firstKey marker i [] = None"
| "marker_loop firstKey marker i (up # ups) =
     (if up_Key up \<noteq> firstKey then None
      else if up_UploadID up = marker then Some (Suc i)
      else marker_loop firstKey marker (Suc i) ups)"

text \<open>\<open>findUploadIdMarkerIndex\<close>, with \<open>None\<close> for the result -1.\<close>

definition findUploadIdMarkerIndex :: "MultipartUploadLister \<Rightarrow> string \<Rightarrow> nat option" where
  "findUploadIdMarkerIndex l marker =
     (case l_Uploads l of [] \<Rightarrow> None | up # _ \<Rightarrow> marker_loop (up_Key up) marker 0 (l_Uploads l))"

fun more_loop :: "MultipartUploadLister \<Rightarrow> string list \<Rightarrow> Upload list \<Rightarrow> bool" where
  "more_loop l seenCP [] = False"
| "more_loop l seenCP (up # ups) =
     (case common_prefix l up of
        None \<Rightarrow> True
      | Some cpref \<Rightarrow> if cpref \<in> set seenCP then more_loop l seenCP ups else True)"

definition hasMoreAfter :: "MultipartUploadLister \<Rightarrow> nat \<Rightarrow> string list \<Rightarrow> bool" where
  "hasMoreAfter l idx seenCP =
     (if idx \<ge> length (l_Uploads l) then False
      else if l_Delimiter l = [] then True
      else more_loop l seenCP (drop idx (l_Uploads l)))"

text \<open>A full page: whether there is more, and the markers of the next page.\<close>

definition finish_page ::
    "MultipartUploadLister \<Rightarrow> nat \<Rightarrow> string list \<Rightarrow> string \<Rightarrow> Upload \<Rightarrow> ListMultipartUploadsPage \<Rightarrow> ListMultipartUploadsPage" where
  "finish_page l i seenCP lastKey up out =
     (if hasMoreAfter l (i + 1) seenCP
      then out\<lparr>p_IsTruncated := True, p_NextKeyMarker := lastKey, p_NextUploadIDMarker := up_UploadID up\<rparr>
      else out)"

text \<open>
  The loop of \<open>Run\<close>: \<open>i\<close> is the index in the part of the list after the marker, as in the code.
\<close>

fun list_loop ::
    "MultipartUploadLister \<Rightarrow> nat \<Rightarrow> string list \<Rightarrow> int \<Rightarrow> ListMultipartUploadsPage \<Rightarrow> Upload list \<Rightarrow> ListMultipartUploadsPage" where
  "list_loop l i seenCP emitted out [] = out"
| "list_loop l i seenCP emitted out (up # ups) =
     (case (if l_Delimiter l \<noteq> [] then common_prefix l up else None) of
        Some cpref \<Rightarrow>
          if cpref \<in> set seenCP then list_loop l (Suc i) seenCP emitted out ups
          else let out' = out\<lparr>p_CommonPrefixes := p_CommonPrefixes out @ [cpref]\<rparr>
               in if emitted + 1 = l_MaxUploads l then finish_page l i (cpref # seenCP) cpref up out'
                  else list_loop l (Suc i) (cpref # seenCP) (emitted + 1) out' ups
      | None \<Rightarrow>
          let out' = out\<lparr>p_Uploads := p_Uploads out @ [up]\<rparr>
          in if emitted + 1 = l_MaxUploads l then finish_page l i seenCP (up_Key up) up out'
             else list_loop l (Suc i) seenCP (emitted + 1) out' ups)"

definition lister_Run ::
    "(string \<Rightarrow> bool) \<Rightarrow> MultipartUploadLister \<Rightarrow> (go_error, ListMultipartUploadsPage) result" where
  "lister_Run uuid_ok l =
     (let uploadIDMarker = (if l_KeyMarker l = [] then [] else l_UploadIDMarker l);
          invalid = Inl (InvalidArgument InvalidArgUploadIdMarker uploadIDMarker)
      in if uploadIDMarker = [] then Inr (list_loop l 0 [] 0 empty_page (l_Uploads l))
         else if \<not> uuid_ok uploadIDMarker then invalid
         else case findUploadIdMarkerIndex l uploadIDMarker of
             None \<Rightarrow> invalid
           | Some startIndex \<Rightarrow>
               if startIndex \<ge> length (l_Uploads l) then Inr empty_page
               else Inr (list_loop l 0 [] 0 empty_page (drop startIndex (l_Uploads l))))"

definition ListMultipartUploads ::
    "(string \<Rightarrow> bool) \<Rightarrow> Upload list \<Rightarrow> string \<Rightarrow> string \<Rightarrow> string \<Rightarrow> string \<Rightarrow> int
      \<Rightarrow> (go_error, ListMultipartUploadsPage) result" where
  "ListMultipartUploads uuid_ok uploads pre delimiter keyMarker uploadIdMarker maxUploads =
     lister_Run uuid_ok \<lparr>l_Uploads = uploads, l_Prefix = pre, l_Delimiter = delimiter,
       l_MaxUploads = maxUploads, l_KeyMarker = keyMarker, l_UploadIDMarker = uploadIdMarker\<rparr>"

text \<open>What the posix backend selects from the uploads it finds, sorted by key and time.\<close>

definition posix_select :: "Upload list \<Rightarrow> string \<Rightarrow> string \<Rightarrow> Upload list" where
  "posix_select found pre keyMarker =
     sort_key (\<lambda>u. (up_Key u, up_Initiated u))
       (filter (\<lambda>u. \<not> (pre \<noteq> [] \<and> \<not> HasPrefix (up_Key u) pre)
                    \<and> \<not> (keyMarker \<noteq> [] \<and> up_Key u \<le> keyMarker)) found)"

definition posix_ListMultipartUploads ::
    "(string \<Rightarrow> bool) \<Rightarrow> Upload list \<Rightarrow> string \<Rightarrow> string \<Rightarrow> string \<Rightarrow> string \<Rightarrow> int
      \<Rightarrow> (go_error, ListMultipartUploadsPage) result" where
  "posix_ListMultipartUploads uuid_ok found pre delimiter keyMarker uploadIDMarker maxUploads =
     ListMultipartUploads uuid_ok (posix_select found pre keyMarker) pre delimiter keyMarker uploadIDMarker maxUploads"

section \<open>Reference: the entries of a listing\<close>

text \<open>
  The entries of a listing are the uploads outside common prefixes and the common prefixes, each
  once, in the order of the uploads.
\<close>

definition entry :: "MultipartUploadLister \<Rightarrow> Upload \<Rightarrow> string + Upload" where
  "entry l up =
     (case (if l_Delimiter l \<noteq> [] then common_prefix l up else None) of
        Some cpref \<Rightarrow> Inl cpref | None \<Rightarrow> Inr up)"

fun entries :: "MultipartUploadLister \<Rightarrow> string list \<Rightarrow> Upload list \<Rightarrow> (string + Upload) list" where
  "entries l seenCP [] = []"
| "entries l seenCP (up # ups) =
     (case entry l up of
        Inr u \<Rightarrow> Inr u # entries l seenCP ups
      | Inl c \<Rightarrow> if c \<in> set seenCP then entries l seenCP ups else Inl c # entries l (c # seenCP) ups)"

lemma entries_nonempty: "l_Delimiter l = [] \<Longrightarrow> ups \<noteq> [] \<Longrightarrow> entries l seen ups \<noteq> []"
  by (cases ups) (simp_all add: entry_def)

lemma more_loop_entries: "l_Delimiter l \<noteq> [] \<Longrightarrow> more_loop l seen ups \<longleftrightarrow> entries l seen ups \<noteq> []"
  by (induction ups arbitrary: seen) (auto simp: entry_def split: option.splits)

lemma hasMoreAfter_entries:
  "hasMoreAfter l idx seen \<longleftrightarrow> entries l seen (drop idx (l_Uploads l)) \<noteq> []"
  using entries_nonempty [of l "drop idx (l_Uploads l)" seen] more_loop_entries [of l seen "drop idx (l_Uploads l)"]
  by (auto simp: hasMoreAfter_def)

text \<open>
  The loop over the whole list builds the first \<open>MaxUploads\<close> entries, and reports whether there
  are more of them.
\<close>

lemma list_loop_entries:
  assumes "drop i (l_Uploads l) = ups" "emitted < l_MaxUploads l" "\<not> p_IsTruncated out"
  shows "p_Uploads (list_loop l i seen emitted out ups) =
      p_Uploads out @ rights (take (nat (l_MaxUploads l - emitted)) (entries l seen ups))
    \<and> p_CommonPrefixes (list_loop l i seen emitted out ups) =
      p_CommonPrefixes out @ lefts (take (nat (l_MaxUploads l - emitted)) (entries l seen ups))
    \<and> (p_IsTruncated (list_loop l i seen emitted out ups) \<longleftrightarrow>
        length (entries l seen ups) > nat (l_MaxUploads l - emitted))"
  using assms
proof (induction ups arbitrary: i seen emitted out)
  case Nil
  then show ?case by simp
next
  case (Cons up ups)
  have next_drop: "drop (Suc i) (l_Uploads l) = ups"
    using Cons.prems(1) by (metis drop_Suc drop_tl list.sel(3))
  obtain n where n: "nat (l_MaxUploads l - emitted) = Suc n" "nat (l_MaxUploads l - (emitted + 1)) = n"
    using Cons.prems(2) by (cases "nat (l_MaxUploads l - emitted)") auto
  have full: "emitted + 1 = l_MaxUploads l \<longleftrightarrow> n = 0" using n Cons.prems(2) by auto
  have finish: "p_IsTruncated (finish_page l i s k up o') \<longleftrightarrow> entries l s ups \<noteq> []"
    "p_Uploads (finish_page l i s k up o') = p_Uploads o'"
    "p_CommonPrefixes (finish_page l i s k up o') = p_CommonPrefixes o'" if "\<not> p_IsTruncated o'" for s k o'
    using that next_drop by (simp_all add: finish_page_def hasMoreAfter_entries)
  show ?case
  proof (cases "entry l up")
    case (Inr u)
    then have u: "u = up" "(if l_Delimiter l \<noteq> [] then common_prefix l up else None) = None"
      by (auto simp: entry_def split: option.splits if_splits)
    show ?thesis
      using Inr u n full finish Cons.prems(2,3)
        Cons.IH [OF next_drop, of "emitted + 1" "out\<lparr>p_Uploads := p_Uploads out @ [up]\<rparr>" seen]
      by (cases "n = 0") (auto simp: Let_def)
  next
    case (Inl c)
    then have c: "(if l_Delimiter l \<noteq> [] then common_prefix l up else None) = Some c"
      by (auto simp: entry_def split: option.splits if_splits)
    show ?thesis
    proof (cases "c \<in> set seen")
      case True
      with Inl c Cons.IH [OF next_drop Cons.prems(2,3), of seen] show ?thesis by simp
    next
      case False
      with Inl c n full finish Cons.prems(2,3)
        Cons.IH [OF next_drop, of "emitted + 1" "out\<lparr>p_CommonPrefixes := p_CommonPrefixes out @ [c]\<rparr>" "c # seen"]
      show ?thesis by (cases "n = 0") (auto simp: Let_def)
    qed
  qed
qed

section \<open>Paging through the posix backend\<close>

lemma marker_loop_other_key:
  "\<forall>u \<in> set ups. up_UploadID u \<noteq> m \<Longrightarrow> marker_loop k m i ups = None"
  by (induction ups arbitrary: i) auto

text \<open>Without a delimiter the markers of a truncated page are those of the last upload on it.\<close>

lemma finish_page_markers:
  assumes "p_IsTruncated (finish_page l i seen k up out)" "\<not> p_IsTruncated out"
  shows "p_NextKeyMarker (finish_page l i seen k up out) = k
    \<and> p_NextUploadIDMarker (finish_page l i seen k up out) = up_UploadID up"
  using assms by (auto simp: finish_page_def split: if_splits)

lemma list_loop_markers:
  assumes "l_Delimiter l = []" "\<not> p_IsTruncated out" "p_IsTruncated (list_loop l i seen emitted out ups)"
  shows "\<exists>up \<in> set ups. p_NextKeyMarker (list_loop l i seen emitted out ups) = up_Key up
    \<and> p_NextUploadIDMarker (list_loop l i seen emitted out ups) = up_UploadID up"
  using assms(2,3)
proof (induction ups arbitrary: i emitted out)
  case (Cons up ups)
  let ?out = "out\<lparr>p_Uploads := p_Uploads out @ [up]\<rparr>"
  show ?case
  proof (cases "emitted + 1 = l_MaxUploads l")
    case True
    then have "list_loop l i seen emitted out (up # ups) = finish_page l i seen (up_Key up) up ?out"
      using assms(1) by (simp add: Let_def)
    with Cons.prems finish_page_markers [of l i seen "up_Key up" up ?out] show ?thesis by simp
  next
    case False
    then have "list_loop l i seen emitted out (up # ups) = list_loop l (Suc i) seen (emitted + 1) ?out ups"
      using assms(1) by (simp add: Let_def)
    with Cons.prems Cons.IH [of ?out "Suc i" "emitted + 1"] show ?thesis by simp
  qed
qed simp

section \<open>Properties\<close>

text \<open>
  The first page of a listing, for a positive limit: its uploads and common prefixes are those of
  the first entries, never more than the limit in total, and the page is marked truncated exactly
  when there are further entries.
\<close>

theorem first_page_entries:
  assumes "keyMarker = [] \<or> uploadIdMarker = []" "maxUploads > 0"
  shows "\<exists>page. ListMultipartUploads uuid_ok ups pre delim keyMarker uploadIdMarker maxUploads = Inr page
    \<and> (let l = \<lparr>l_Uploads = ups, l_Prefix = pre, l_Delimiter = delim, l_MaxUploads = maxUploads,
                 l_KeyMarker = keyMarker, l_UploadIDMarker = uploadIdMarker\<rparr>;
            es = entries l [] ups
        in p_Uploads page = rights (take (nat maxUploads) es)
           \<and> p_CommonPrefixes page = lefts (take (nat maxUploads) es)
           \<and> (p_IsTruncated page \<longleftrightarrow> length es > nat maxUploads))"
proof -
  let ?l = "\<lparr>l_Uploads = ups, l_Prefix = pre, l_Delimiter = delim, l_MaxUploads = maxUploads,
    l_KeyMarker = keyMarker, l_UploadIDMarker = uploadIdMarker\<rparr>"
  have "ListMultipartUploads uuid_ok ups pre delim keyMarker uploadIdMarker maxUploads =
      Inr (list_loop ?l 0 [] 0 empty_page ups)"
    using assms(1) by (auto simp: ListMultipartUploads_def lister_Run_def)
  with list_loop_entries [of 0 ?l ups 0 empty_page "[]"] assms(2) show ?thesis
    by (simp add: empty_page_def)
qed

definition demo_upload :: "string \<Rightarrow> string \<Rightarrow> Upload" where
  "demo_upload k i = \<lparr>up_Key = k, up_UploadID = i, up_Initiated = 0\<rparr>"

theorem first_page_entries_witness:
  "\<exists>page. ListMultipartUploads (\<lambda>_. True) [demo_upload ''a/1'' ''u'', demo_upload ''a/2'' ''v'', demo_upload ''b'' ''w''] [] ''/'' [] [] 1 = Inr page
     \<and> p_CommonPrefixes page = [''a/''] \<and> p_IsTruncated page"
proof -
  let ?l = "\<lparr>l_Uploads = [demo_upload ''a/1'' ''u'', demo_upload ''a/2'' ''v'', demo_upload ''b'' ''w''], l_Prefix = [], l_Delimiter = ''/'',
    l_MaxUploads = 1, l_KeyMarker = [], l_UploadIDMarker = []\<rparr>"
  have e: "entries ?l [] [demo_upload ''a/1'' ''u'', demo_upload ''a/2'' ''v'', demo_upload ''b'' ''w''] = [Inl ''a/'', Inr (demo_upload ''b'' ''w'')]"
    by code_simp
  show ?thesis
    using first_page_entries [of "[]" "[]" 1 "\<lambda>_. True" "[demo_upload ''a/1'' ''u'', demo_upload ''a/2'' ''v'', demo_upload ''b'' ''w'']" "[]" "''/''"]
    unfolding Let_def e by auto
qed

text \<open>
  C40. A truncated listing of the posix backend without a delimiter cannot be continued: a request with
  the markers of the page is rejected as an invalid upload id marker, because the backend
  drops the uploads of the marker's key before the marker is searched for.
\<close>

theorem posix_next_page_rejected:
  assumes "posix_ListMultipartUploads uuid_ok found pre [] [] [] maxUploads = Inr page" "p_IsTruncated page"
    and "distinct (map up_UploadID found)" "list_all (\<lambda>u. up_Key u \<noteq> [] \<and> up_UploadID u \<noteq> []) found"
  shows "posix_ListMultipartUploads uuid_ok found pre [] (p_NextKeyMarker page) (p_NextUploadIDMarker page) maxUploads' =
    Inl (InvalidArgument InvalidArgUploadIdMarker (p_NextUploadIDMarker page))"
proof -
  let ?l = "\<lparr>l_Uploads = posix_select found pre [], l_Prefix = pre, l_Delimiter = [], l_MaxUploads = maxUploads,
    l_KeyMarker = [], l_UploadIDMarker = []\<rparr>"
  have "page = list_loop ?l 0 [] 0 empty_page (posix_select found pre [])"
    using assms(1) by (simp add: posix_ListMultipartUploads_def ListMultipartUploads_def lister_Run_def)
  then obtain u where u: "u \<in> set found" "p_NextKeyMarker page = up_Key u" "p_NextUploadIDMarker page = up_UploadID u"
    using list_loop_markers [of ?l empty_page 0 "[]" 0 "posix_select found pre []"] assms(2)
    by (auto simp: empty_page_def posix_select_def)
  have "up_UploadID v \<noteq> up_UploadID u" if "v \<in> set (posix_select found pre (up_Key u))" for v
  proof -
    from that have "v \<in> set found" "v \<noteq> u" using u(1) assms(4) by (auto simp: posix_select_def list_all_iff)
    with u(1) assms(3) show ?thesis by (meson distinct_map inj_on_def)
  qed
  then have "findUploadIdMarkerIndex (\<lparr>l_Uploads = posix_select found pre (up_Key u), l_Prefix = pre, l_Delimiter = [],
      l_MaxUploads = maxUploads', l_KeyMarker = up_Key u, l_UploadIDMarker = up_UploadID u\<rparr>) (up_UploadID u) = None"
    by (auto simp: findUploadIdMarkerIndex_def intro!: marker_loop_other_key split: list.splits)
  then show ?thesis
    using u assms(4) by (auto simp: posix_ListMultipartUploads_def ListMultipartUploads_def lister_Run_def list_all_iff Let_def)
qed

theorem posix_next_page_rejected_witness:
  "posix_ListMultipartUploads (\<lambda>_. True) [demo_upload ''a'' ''u'', demo_upload ''b'' ''v''] [] [] ''a'' ''u'' 1 =
     Inl (InvalidArgument InvalidArgUploadIdMarker ''u'')"
proof -
  let ?f = "[demo_upload ''a'' ''u'', demo_upload ''b'' ''v'']"
  let ?r = "posix_ListMultipartUploads (\<lambda>_. True) ?f [] [] [] [] 1"
  have r: "?r = Inr (projr ?r)" "p_IsTruncated (projr ?r)" "p_NextKeyMarker (projr ?r) = ''a''"
    "p_NextUploadIDMarker (projr ?r) = ''u''" by code_simp+
  have d: "distinct (map up_UploadID ?f)" "list_all (\<lambda>u. up_Key u \<noteq> [] \<and> up_UploadID u \<noteq> []) ?f" by code_simp+
  from posix_next_page_rejected [OF r(1,2) d, of 1] show ?thesis by (simp only: r(3,4))
qed

text \<open>
  With an upload id marker a page can be marked truncated although nothing follows: the position
  after the last upload is counted from the marker, not from the start of the list.
\<close>

theorem marker_page_falsely_truncated:
  "ListMultipartUploads (\<lambda>_. True) [demo_upload ''a'' ''u'', demo_upload ''a'' ''v''] [] [] ''0'' ''u'' 1 =
     Inr \<lparr>p_Uploads = [demo_upload ''a'' ''v''], p_CommonPrefixes = [], p_IsTruncated = True,
          p_NextKeyMarker = ''a'', p_NextUploadIDMarker = ''v''\<rparr>"
  by code_simp

end
