(* ===== verification/Backend_Common.thy ===== *)
theory Backend_Common
  imports S3_Errors
begin

text \<open>
  What all storage backends share (backend/common.go): byte ranges, copy sources, tags, entity
  tags of multipart uploads and their metadata, and the conditional requests. Compression,
  base64, the JSON text form and MD5 are parameters; \<open>MoveFile\<close> and the file readers are not
  modelled. Sizes and offsets are int64 values of the code: for an object size below the largest
  int64 no sum below leaves the range, since parsed offsets are not negative.
\<close>

section \<open>Small helpers\<close>

definition GetPtrFromString :: "string \<Rightarrow> string option" where
  "GetPtrFromString str = (if str = [] then None else Some str)"

definition GetStringFromPtr :: "string option \<Rightarrow> string" where
  "GetStringFromPtr str = (case str of None \<Rightarrow> [] | Some s \<Rightarrow> s)"

abbreviation quote :: char where
  "quote \<equiv> CHR 0x22"

definition TrimEtag :: "string option \<Rightarrow> string option" where
  "TrimEtag etag = (case etag of None \<Rightarrow> None | Some e \<Rightarrow> GetPtrFromString (Trim e quote))"

definition AreEtagsSame :: "string \<Rightarrow> string \<Rightarrow> bool" where
  "AreEtagsSame e1 e2 \<longleftrightarrow> Trim e1 quote = Trim e2 quote"

definition IsValidDirectoryName :: "string \<Rightarrow> bool" where
  "IsValidDirectoryName name =
     (if CHR ''/'' \<in> set name then False else if CHR 0x00 \<in> set name then False else True)"

section \<open>Ranges\<close>

text \<open>
  \<open>ParseObjectRange\<close>: start, length, whether the range is valid, and the error. The comparisons
  with \<open>math.MaxInt\<close> never hold, since \<open>ParseInt\<close> stops at it; a text that is out of range is an
  error like any other. An empty start parses as an error with the value 0.
\<close>

definition suffix_range :: "int \<Rightarrow> string \<Rightarrow> int \<Rightarrow> int \<times> int \<times> bool \<times> go_error option" where
  "suffix_range osize acceptRange endOffset =
     (if endOffset = 0 then (0, 0, False, Some (InvalidRange acceptRange osize))
      else if osize = 0 then (0, osize, False, None)
      else let e = min endOffset osize in (osize - e, e, True, None))"

definition normal_range :: "int \<Rightarrow> string \<Rightarrow> int \<Rightarrow> int \<Rightarrow> int \<times> int \<times> bool \<times> go_error option" where
  "normal_range osize acceptRange startOffset endOffset =
     (if startOffset > endOffset then (0, osize, False, None)
      else if startOffset \<ge> osize then (0, 0, False, Some (InvalidRange acceptRange osize))
      else let e = (if endOffset \<ge> osize then osize - 1 else endOffset)
           in (startOffset, e - startOffset + 1, True, None))"

text \<open>The two parts around the minus sign.\<close>

definition bytes_range :: "int \<Rightarrow> string \<Rightarrow> string \<Rightarrow> string \<Rightarrow> int \<times> int \<times> bool \<times> go_error option" where
  "bytes_range osize acceptRange a b =
     (let ignore = (0, osize, False, None);
          start = ParseInt64 a; startOffset = (case start of None \<Rightarrow> 0 | Some v \<Rightarrow> v)
      in if start = None \<and> a \<noteq> [] then ignore
         else if b = [] then
           (if a = [] then ignore
            else if startOffset \<ge> osize then (0, 0, False, Some (InvalidRange acceptRange osize))
            else (startOffset, osize - startOffset, True, None))
         else case ParseInt64 b of
             None \<Rightarrow> ignore
           | Some endOffset \<Rightarrow>
               if a = [] then suffix_range osize acceptRange endOffset
               else normal_range osize acceptRange startOffset endOffset)"

definition ParseObjectRange :: "int \<Rightarrow> string \<Rightarrow> int \<times> int \<times> bool \<times> go_error option" where
  "ParseObjectRange osize acceptRange =
     (let ignore = (0, osize, False, None) in
      if acceptRange = [] then ignore
      else case Split acceptRange (CHR ''='') of
          [unit', spec] \<Rightarrow>
            if unit' \<noteq> ''bytes'' then ignore
            else (case Split spec (CHR ''-'') of
                    [a, b] \<Rightarrow> bytes_range osize acceptRange a b | _ \<Rightarrow> ignore)
        | _ \<Rightarrow> ignore)"

definition ParseCopySourceRange :: "int \<Rightarrow> string \<Rightarrow> (go_error, int \<times> int) result" where
  "ParseCopySourceRange osize acceptRange =
     (let invalid = Inl (InvalidArgument InvalidArgCopySourceRange acceptRange) in
      if acceptRange = [] then Inr (0, osize)
      else case Split acceptRange (CHR ''='') of
          [unit', spec] \<Rightarrow>
            if unit' \<noteq> ''bytes'' then invalid
            else (case Split spec (CHR ''-'') of
               [a, b] \<Rightarrow>
                 (case ParseInt64 a of
                    None \<Rightarrow> invalid
                  | Some startOffset \<Rightarrow>
                      if startOffset \<ge> osize then Inl (ExceedingRange osize)
                      else if b = [] then Inr (startOffset, osize - startOffset + 1)
                      else case ParseInt64 b of
                          None \<Rightarrow> invalid
                        | Some endOffset \<Rightarrow>
                            if endOffset < startOffset then invalid
                            else if endOffset \<ge> osize then Inl (ExceedingRange osize)
                            else Inr (startOffset, endOffset - startOffset + 1))
             | _ \<Rightarrow> invalid)
        | _ \<Rightarrow> invalid)"

section \<open>Copy sources\<close>

text \<open>\<open>ParseCopySource\<close>: bucket, object and version of the header.\<close>

definition ParseCopySource :: "string \<Rightarrow> (go_error, string \<times> string \<times> string) result" where
  "ParseCopySource copySourceHeader =
     (if copySourceHeader = [] then Inl (InvalidArgument InvalidArgCopySourceBucket copySourceHeader)
      else
        let hdr = (if hd copySourceHeader = CHR ''/'' then tl copySourceHeader else copySourceHeader)
        in case QueryUnescape hdr of
             None \<Rightarrow> Inl (InvalidArgument InvalidArgCopySourceEncoding hdr)
           | Some decoded \<Rightarrow>
               (let (decodedSource, versionId) =
                      (case Cut decoded ''?versionId='' of None \<Rightarrow> (decoded, []) | Some p \<Rightarrow> p)
                in case Cut decodedSource ''/'' of
                     None \<Rightarrow> Inl (InvalidArgument InvalidArgCopySourceBucket decodedSource)
                   | Some (srcBucket, srcObject) \<Rightarrow> Inr (srcBucket, srcObject, versionId)))"

section \<open>Tags\<close>

text \<open>
  \<open>isValidTagComponent\<close> on ASCII texts; the classes of the expression outside ASCII are the
  parameter \<open>unicode_tag\<close>.
\<close>

definition tag_char :: "char \<Rightarrow> bool" where
  "tag_char c \<longleftrightarrow>
     ascii_alnum c \<or> c \<in> set '' _.:/=+-@''"

definition isValidTagComponent :: "(string \<Rightarrow> bool) \<Rightarrow> string \<Rightarrow> bool" where
  "isValidTagComponent unicode_tag str =
     (if list_all (\<lambda>c. c < CHR 0x80) str then list_all tag_char str else unicode_tag str)"

text \<open>One tag of the header, before it is added: its key and value, decoded.\<close>

definition parse_tag :: "(string \<Rightarrow> bool) \<Rightarrow> string \<Rightarrow> string \<Rightarrow> (go_error, string \<times> string) result" where
  "parse_tag unicode_tag tag tagging =
     (let (key, value, found) = (case Cut tag ''='' of None \<Rightarrow> (tag, [], False) | Some (k, v) \<Rightarrow> (k, v, True));
          bad = Inl (InvalidArgument InvalidArgURLEncodedTagging tagging)
      in if found \<and> key = [] then bad
         else if length key > 128 then Inl (CodedError ErrInvalidTagKey [key, []])
         else if length value > 256 then Inl (CodedError ErrInvalidTagValue [key, value])
         else case QueryUnescape key of
             None \<Rightarrow> bad
           | Some k \<Rightarrow>
               (case QueryUnescape value of
                  None \<Rightarrow> bad
                | Some v \<Rightarrow>
                    if \<not> isValidTagComponent unicode_tag k then Inl (CodedError ErrInvalidTagKey [k, []])
                    else if \<not> isValidTagComponent unicode_tag v then Inl (CodedError ErrInvalidTagValue [k, v])
                    else Inr (k, v)))"

definition cut_tag :: "string \<Rightarrow> string \<times> string" where
  "cut_tag tagging = (case Cut tagging ''&'' of None \<Rightarrow> (tagging, []) | Some p \<Rightarrow> p)"

lemma Cut_shorter: "Cut s [c] = Some (a, b) \<Longrightarrow> length b < length s"
  by (induction s arbitrary: a b) (auto split: if_splits)

lemma cut_tag_shorter: "tagging \<noteq> [] \<Longrightarrow> length (snd (cut_tag tagging)) < length tagging"
  using Cut_shorter [of tagging "CHR ''&''"] by (auto simp: cut_tag_def split: option.splits)

function tags_loop :: "(string \<Rightarrow> bool) \<Rightarrow> string \<Rightarrow> (string \<times> string) list \<Rightarrow> (go_error, (string \<times> string) list) result" where
  "tags_loop unicode_tag tagging tagSet =
     (if tagging = [] then Inr tagSet
      else let (tag, rest) = cut_tag tagging
           in if tag = [] then tags_loop unicode_tag rest tagSet
              else case parse_tag unicode_tag tag rest of
                  Inl err \<Rightarrow> Inl err
                | Inr (key, value) \<Rightarrow>
                    if key \<in> fst ` set tagSet then Inl (InvalidArgument InvalidArgURLEncodedTagging rest)
                    else tags_loop unicode_tag rest (tagSet @ [(key, value)]))"
  by pat_completeness auto
termination
  by (relation "measure (\<lambda>(_, tagging, _). length tagging)") (auto, (metis cut_tag_shorter snd_conv)+)

declare tags_loop.simps [simp del]

definition ParseObjectTags :: "(string \<Rightarrow> bool) \<Rightarrow> string \<Rightarrow> (go_error, (string \<times> string) list) result" where
  "ParseObjectTags unicode_tag tagging = tags_loop unicode_tag tagging []"

fun bucket_tags_loop ::
    "(string \<Rightarrow> bool) \<Rightarrow> (string option \<times> string option) list \<Rightarrow> (string \<times> string) list
      \<Rightarrow> (go_error, (string \<times> string) list) result" where
  "bucket_tags_loop unicode_tag [] tagset = Inr tagset"
| "bucket_tags_loop unicode_tag ((k, v) # tags) tagset =
     (let key = GetStringFromPtr k; value = GetStringFromPtr v in
      if length key = 0 \<or> length key > 128 then Inl (CodedError ErrInvalidTagKey [key, []])
      else if \<not> isValidTagComponent unicode_tag key then Inl (CodedError ErrInvalidTagKey [key, []])
      else if length value > 256 then Inl (CodedError ErrInvalidTagValue [key, value])
      else if \<not> isValidTagComponent unicode_tag value then Inl (CodedError ErrInvalidTagValue [key, value])
      else if key \<in> fst ` set tagset then Inl (APIError ErrDuplicateTagKey)
      else bucket_tags_loop unicode_tag tags (tagset @ [(key, value)]))"

definition ParseCreateBucketTags ::
    "(string \<Rightarrow> bool) \<Rightarrow> (string option \<times> string option) list \<Rightarrow> (go_error, (string \<times> string) list) result" where
  "ParseCreateBucketTags unicode_tag tagging =
     (if tagging = [] then Inr []
      else if length tagging > 50 then Inl (APIError ErrBucketTaggingLimited)
      else bucket_tags_loop unicode_tag tagging [])"

section \<open>Entity tags of multipart uploads\<close>

fun hex_decode :: "string \<Rightarrow> string option" where
  "hex_decode [] = Some []"
| "hex_decode (a # b # r) =
     (case (unhex a, unhex b) of
        (Some x, Some y) \<Rightarrow> map_option ((#) (char_of (16 * x + y))) (hex_decode r)
      | _ \<Rightarrow> None)"
| "hex_decode _ = None"

definition getEtagBytes :: "string \<Rightarrow> string option" where
  "getEtagBytes etag = hex_decode (filter (\<lambda>c. c \<noteq> quote) etag)"

definition hex_digit :: "nat \<Rightarrow> char" where
  "hex_digit n = (if n < 10 then char_of (48 + n) else char_of (87 + n))"

definition hex_encode :: "string \<Rightarrow> string" where
  "hex_encode bytes = concat (map (\<lambda>c. [hex_digit (of_char c div 16), hex_digit (of_char c mod 16)]) bytes)"

text \<open>\<open>GenerateEtag\<close> on the digest the hash returns.\<close>

definition GenerateEtag :: "string \<Rightarrow> string" where
  "GenerateEtag dataSum = quote # hex_encode dataSum @ [quote]"

text \<open>The digest function \<open>md5.Sum\<close> is a parameter.\<close>

definition md5String :: "(string \<Rightarrow> string) \<Rightarrow> string \<Rightarrow> string" where
  "md5String md5_Sum data = hex_encode (md5_Sum data)"

record CompletedPart =
  cp_ETag :: "string option"
  cp_PartNumber :: "int option"

fun part_etags_loop :: "CompletedPart list \<Rightarrow> string \<Rightarrow> (go_error, string) result" where
  "part_etags_loop [] bytes = Inr bytes"
| "part_etags_loop (part # parts) bytes =
     (case cp_ETag part of
        None \<Rightarrow> Inl (APIError ErrMalformedXML)
      | Some e \<Rightarrow>
          if cp_PartNumber part = None then Inl (APIError ErrMalformedXML)
          else case getEtagBytes e of
              None \<Rightarrow> Inl (APIError ErrInvalidPart)
            | Some bts \<Rightarrow> part_etags_loop parts (bytes @ bts))"

definition ComputeMultipartETagFromPartETags :: "(string \<Rightarrow> string) \<Rightarrow> CompletedPart list \<Rightarrow> (go_error, string) result" where
  "ComputeMultipartETagFromPartETags md5_Sum parts =
     bind_res (part_etags_loop parts []) (\<lambda>bytes.
       Inr (quote # md5String md5_Sum bytes @ ''-'' @ itoa (int (length parts)) @ [quote]))"

section \<open>Multipart metadata\<close>

text \<open>A nil slice of parts is \<open>None\<close>: JSON writes it as null.\<close>

record MpUploadMetadata =
  mp_UploadID :: string
  mp_Parts :: "int list option"

text \<open>The text form of JSON, compression and base64 of the Go library, on byte strings \<open>'b\<close>.
  Writing to a buffer in memory does not fail, nor does marshalling a struct of a string and
  numbers. The text of a wrapped error is left out.\<close>

record 'b codec =
  co_json :: "json \<Rightarrow> 'b"
  co_parse :: "'b \<Rightarrow> json option"
  co_compress :: "'b \<Rightarrow> 'b"
  co_decompress :: "'b \<Rightarrow> 'b option"
  co_base64 :: "'b \<Rightarrow> 'b"
  co_unbase64 :: "'b \<Rightarrow> 'b option"

definition MpUploadMetadata_MarshalJSON :: "MpUploadMetadata \<Rightarrow> json" where
  "MpUploadMetadata_MarshalJSON m =
     JObj [(''uploadId'', JStr (mp_UploadID m)), (''parts'', 
       (case mp_Parts m of None \<Rightarrow> JNull | Some ps \<Rightarrow> JArr (map (\<lambda>n. JNum (itoa n)) ps)))]"

fun int64_elem :: "json \<Rightarrow> int option" where
  "int64_elem (JNum s) = ParseInt64 s"
| "int64_elem JNull = Some 0"
| "int64_elem _ = None"

fun int64_list :: "json list \<Rightarrow> int list option" where
  "int64_list [] = Some []"
| "int64_list (j # js) =
     (case int64_elem j of None \<Rightarrow> None
      | Some v \<Rightarrow> (case int64_list js of None \<Rightarrow> None | Some vs \<Rightarrow> Some (v # vs)))"

fun mp_fields :: "(string \<times> json) list \<Rightarrow> MpUploadMetadata \<Rightarrow> MpUploadMetadata option" where
  "mp_fields [] m = Some m"
| "mp_fields ((k, v) # ms) m =
     (if EqualFold k ''uploadId'' then
        (case v of
           JStr s \<Rightarrow> mp_fields ms (m\<lparr>mp_UploadID := s\<rparr>) | JNull \<Rightarrow> mp_fields ms m | _ \<Rightarrow> None)
      else if EqualFold k ''parts'' then
        (case v of
           JArr js \<Rightarrow> (case int64_list js of None \<Rightarrow> None | Some vs \<Rightarrow> mp_fields ms (m\<lparr>mp_Parts := Some vs\<rparr>))
         | JNull \<Rightarrow> mp_fields ms (m\<lparr>mp_Parts := None\<rparr>)
         | _ \<Rightarrow> None)
      else mp_fields ms m)"

definition unmarshal_mp :: "'b codec \<Rightarrow> 'b \<Rightarrow> MpUploadMetadata option" where
  "unmarshal_mp co data =
     (case co_parse co data of
        Some (JObj ms) \<Rightarrow> mp_fields ms \<lparr>mp_UploadID = [], mp_Parts = None\<rparr>
      | Some JNull \<Rightarrow> Some \<lparr>mp_UploadID = [], mp_Parts = None\<rparr>
      | _ \<Rightarrow> None)"

definition unmarshalCompressedMpUploadMetadata :: "'b codec \<Rightarrow> 'b \<Rightarrow> MpUploadMetadata option" where
  "unmarshalCompressedMpUploadMetadata co compressed =
     (case co_decompress co compressed of None \<Rightarrow> None | Some d \<Rightarrow> unmarshal_mp co d)"

definition MarshalMpUploadMetadata :: "'b codec \<Rightarrow> MpUploadMetadata \<Rightarrow> bool \<Rightarrow> 'b" where
  "MarshalMpUploadMetadata co mpMeta base64Encode =
     (let compressed = co_compress co (co_json co (MpUploadMetadata_MarshalJSON mpMeta))
      in if \<not> base64Encode then compressed else co_base64 co compressed)"

definition UnmarshalMpUploadMetadata :: "'b codec \<Rightarrow> 'b \<Rightarrow> bool \<Rightarrow> (go_error, MpUploadMetadata) result" where
  "UnmarshalMpUploadMetadata co data base64Decode =
     (let first = (if base64Decode then
                     (case co_unbase64 co data of
                        None \<Rightarrow> None | Some compressed \<Rightarrow> unmarshalCompressedMpUploadMetadata co compressed)
                   else unmarshalCompressedMpUploadMetadata co data)
      in case first of
           Some mpMeta \<Rightarrow> Inr mpMeta
         | None \<Rightarrow>
             (case unmarshal_mp co data of
                Some mpMeta \<Rightarrow> Inr mpMeta
              | None \<Rightarrow> Inl (ErrorString ''unmarshal mp metadata'')))"

definition MarshalWebsiteConfig :: "'b codec \<Rightarrow> 'b \<Rightarrow> bool \<Rightarrow> 'b" where
  "MarshalWebsiteConfig co website base64Encode =
     (let compressed = co_compress co website in if \<not> base64Encode then compressed else co_base64 co compressed)"

definition UnmarshalWebsiteConfig :: "'b codec \<Rightarrow> 'b \<Rightarrow> bool \<Rightarrow> (go_error, 'b) result" where
  "UnmarshalWebsiteConfig co data base64Decode =
     bind_res (if base64Decode then
                 (case co_unbase64 co data of
                    None \<Rightarrow> Inl (ErrorString ''decode website config'') | Some compressed \<Rightarrow> Inr compressed)
               else Inr data) (\<lambda>d.
       case co_decompress co d of
         None \<Rightarrow> Inl (ErrorString ''decompress website config'') | Some website \<Rightarrow> Inr website)"

section \<open>Conditional requests\<close>

record PreConditions =
  pc_IfMatch :: "string option"
  pc_IfNoneMatch :: "string option"
  pc_IfModSince :: "int option"
  pc_IfUnmodeSince :: "int option"

abbreviation errNotModified :: go_error where
  "errNotModified \<equiv> APIError ErrNotModified"

text \<open>\<open>EvaluatePreconditions\<close>; the four conditions are options of booleans, as in the code.\<close>

definition EvaluatePreconditions :: "string \<Rightarrow> int \<Rightarrow> PreConditions \<Rightarrow> go_error option" where
  "EvaluatePreconditions etag modTime pc =
     (if pc_IfMatch pc = None \<and> pc_IfNoneMatch pc = None \<and> pc_IfModSince pc = None \<and> pc_IfUnmodeSince pc = None
      then None
      else
        let etag = Trim etag quote;
            ifMatch = map_option (\<lambda>m. m = ''*'' \<or> m = etag) (pc_IfMatch pc);
            ifNoneMatch = map_option (\<lambda>m. m \<noteq> ''*'' \<and> m \<noteq> etag) (pc_IfNoneMatch pc);
            ifModSince = map_option (\<lambda>t. t < modTime) (pc_IfModSince pc);
            ifUnmodeSince = map_option (\<lambda>t. t > modTime) (pc_IfUnmodeSince pc);
            unmodFailed = Some (PreconditionFailed ''If-Unmodified-Since'')
        in case ifMatch of
             Some False \<Rightarrow> Some (PreconditionFailed ''If-Match'')
           | Some True \<Rightarrow>
               (case ifNoneMatch of
                  Some False \<Rightarrow> Some errNotModified
                | Some True \<Rightarrow> None
                | None \<Rightarrow> if ifModSince = Some False then Some errNotModified else None)
           | None \<Rightarrow>
               (case ifNoneMatch of
                  Some True \<Rightarrow> if ifUnmodeSince = Some False then unmodFailed else None
                | Some False \<Rightarrow> if ifUnmodeSince = Some False then unmodFailed else Some errNotModified
                | None \<Rightarrow>
                    if ifModSince = Some False then
                      (if ifUnmodeSince = Some False then unmodFailed else Some errNotModified)
                    else if ifUnmodeSince = Some False then unmodFailed
                    else None))"

text \<open>The additional message of a not-implemented error is given by the name of its constant.\<close>

definition EvaluateObjectPutPreconditions ::
    "string \<Rightarrow> string option \<Rightarrow> string option \<Rightarrow> bool \<Rightarrow> go_error option" where
  "EvaluateObjectPutPreconditions etag ifMatch ifNoneMatch objExists =
     (if ifMatch = None \<and> ifNoneMatch = None then None
      else if ifNoneMatch \<noteq> None \<and> ifNoneMatch \<noteq> Some ''*'' then
        Some (NotImplemented ''If-None-Match'' ''NmpAdditionalMessageIfNoneMatch'')
      else if ifNoneMatch \<noteq> None \<and> ifMatch \<noteq> None then
        Some (NotImplemented ''If-Match,If-None-Match'' ''NmpAdditionalMessageMultipleCondHeaders'')
      else if ifNoneMatch \<noteq> None \<and> objExists then Some (PreconditionFailed ''If-None-Match'')
      else if ifMatch \<noteq> None \<and> \<not> objExists then Some (APIError ErrNoSuchKey)
      else if ifMatch \<noteq> None \<and> ifMatch \<noteq> Some (Trim etag quote) then Some (PreconditionFailed ''If-Match'')
      else None)"

record ObjectDeletePreconditions =
  dp_IfMatch :: "string option"
  dp_IfMatchLastModTime :: "int option"
  dp_IfMatchSize :: "int option"

text \<open>\<open>Unix()\<close>: whole seconds.\<close>

definition unix_seconds :: "int \<Rightarrow> int" where
  "unix_seconds t = t div 1000000000"

definition EvaluateObjectDeletePreconditions ::
    "string \<Rightarrow> int \<Rightarrow> int \<Rightarrow> ObjectDeletePreconditions \<Rightarrow> go_error option" where
  "EvaluateObjectDeletePreconditions etag modTime osize pc =
     (if dp_IfMatch pc \<noteq> None \<and> dp_IfMatch pc \<noteq> Some (Trim etag quote) then
        Some (PreconditionFailed ''If-Match'')
      else if dp_IfMatchLastModTime pc \<noteq> None
              \<and> map_option unix_seconds (dp_IfMatchLastModTime pc) \<noteq> Some (unix_seconds modTime) then
        Some (PreconditionFailed ''If-Match-Last-Mod-Time'')
      else if dp_IfMatchSize pc \<noteq> None \<and> dp_IfMatchSize pc \<noteq> Some osize then
        Some (PreconditionFailed ''If-Match-Size'')
      else None)"


section \<open>Ranges stay inside the object\<close>

lemma ParseInt64_Nil [simp]: "ParseInt64 [] = None"
  by (simp add: ParseInt64_def)

text \<open>The two parts of a range hold no minus sign, so what they parse to is not negative.\<close>

lemma range_part_nonneg:
  assumes "Split spec (CHR ''-'') = [a, b]"
  shows "ParseInt64 a = Some v \<Longrightarrow> 0 \<le> v" and "ParseInt64 b = Some v \<Longrightarrow> 0 \<le> v"
  using ParseInt64_nonneg Split_no_sep [of a spec "CHR ''-''"] Split_no_sep [of b spec "CHR ''-''"] assms
  by auto

definition range_answer :: "int \<Rightarrow> string \<Rightarrow> int \<times> int \<times> bool \<times> go_error option \<Rightarrow> bool" where
  "range_answer osize acceptRange = (\<lambda>(start, len, valid, err).
     if valid then err = None \<and> 0 \<le> start \<and> 0 < len \<and> start + len \<le> osize
     else (err = None \<and> start = 0 \<and> len = osize)
        \<or> (err = Some (InvalidRange acceptRange osize) \<and> start = 0 \<and> len = 0))"

lemma suffix_range_answer:
  "0 \<le> osize \<Longrightarrow> 0 \<le> e \<Longrightarrow> range_answer osize acceptRange (suffix_range osize acceptRange e)"
  by (auto simp: range_answer_def suffix_range_def Let_def min_def)

lemma normal_range_answer:
  "0 \<le> st \<Longrightarrow> range_answer osize acceptRange (normal_range osize acceptRange st e)"
  by (auto simp: range_answer_def normal_range_def Let_def)

lemma ignored_range_answer: "range_answer osize acceptRange (0, osize, False, None)"
  by (simp add: range_answer_def)

lemma bytes_range_answer:
  assumes "0 \<le> osize" and "\<And>v. ParseInt64 a = Some v \<Longrightarrow> 0 \<le> v" and "\<And>v. ParseInt64 b = Some v \<Longrightarrow> 0 \<le> v"
  shows "range_answer osize acceptRange (bytes_range osize acceptRange a b)"
proof (cases "ParseInt64 a")
  case None
  with assms show ?thesis
    by (auto simp: bytes_range_def Let_def ignored_range_answer suffix_range_answer split: option.split)
next
  case (Some st)
  then have "a \<noteq> []" "0 \<le> st" using assms(2) by auto
  with Some show ?thesis
    by (simp add: bytes_range_def Let_def ignored_range_answer normal_range_answer split: option.split)
      (simp add: range_answer_def)
qed

lemma ParseObjectRange_answer:
  assumes "0 \<le> osize"
  shows "range_answer osize acceptRange (ParseObjectRange osize acceptRange)"
proof -
  have sp: "range_answer osize acceptRange (bytes_range osize acceptRange a b)"
    if "Split spec (CHR ''-'') = [a, b]" for spec a b
    using bytes_range_answer [OF assms] range_part_nonneg [OF that] by blast
  show ?thesis
    unfolding ParseObjectRange_def Let_def by (simp add: ignored_range_answer sp split: list.split)
qed

text \<open>
  C34. For a non-negative object size a satisfiable range lies inside the object and is not empty; a
  header that is not understood gives the whole object, and one that cannot be satisfied the
  InvalidRange error with that header and size.
\<close>

theorem ParseObjectRange_bounds:
  assumes "0 \<le> osize" and "ParseObjectRange osize acceptRange = (start, len, valid, err)"
  shows "if valid then err = None \<and> 0 \<le> start \<and> 0 < len \<and> start + len \<le> osize
     else (err = None \<and> start = 0 \<and> len = osize)
        \<or> (err = Some (InvalidRange acceptRange osize) \<and> start = 0 \<and> len = 0)"
  using ParseObjectRange_answer [OF assms(1), of acceptRange] assms(2) by (simp add: range_answer_def)

theorem ParseObjectRange_bounds_witness:
  "ParseObjectRange 10 ''bytes=4-20'' = (4, 6, True, None) \<and> 4 + 6 \<le> (10::int)"
proof -
  have "ParseObjectRange 10 ''bytes=4-20'' = (4, 6, True, None)" by code_simp
  with ParseObjectRange_bounds [OF _ this] show ?thesis by simp
qed

text \<open>Splitting a text that was put together from parts without the separator.\<close>

lemma split_go_append: "d \<notin> set a \<Longrightarrow> split_go d acc (a @ d # s) = rev (rev a @ acc) # split_go d [] s"
  by (induction a arbitrary: acc) auto

lemma split_go_last: "d \<notin> set a \<Longrightarrow> split_go d acc a = [rev (rev a @ acc)]"
  by (induction a arbitrary: acc) auto

lemma Split_pair: "d \<notin> set a \<Longrightarrow> d \<notin> set b \<Longrightarrow> Split (a @ d # b) d = [a, b]"
  by (simp add: Split_def split_go_append split_go_last)

lemma itoa_nat_digits: "c \<in> set (itoa_nat n) \<Longrightarrow> CHR ''0'' \<le> c \<and> c \<le> CHR ''9''"
proof (induction n rule: itoa_nat.induct)
  case (1 n)
  then show ?case
    using digit_char [of n] digit_char [of "n mod 10"]
    by (cases "n < 10") (auto simp: itoa_nat.simps [of n])
qed

lemma itoa_nonneg_chars: "0 \<le> i \<Longrightarrow> CHR ''-'' \<notin> set (itoa i) \<and> CHR ''='' \<notin> set (itoa i)"
  using itoa_nat_digits [of "CHR ''-''" "nat i"] itoa_nat_digits [of "CHR ''=''" "nat i"]
  by (auto simp: itoa_def less_eq_char_def)

lemma Split_open_range:
  assumes "0 \<le> start"
  shows "Split (''bytes='' @ itoa start @ ''-'') (CHR ''='') = [''bytes'', itoa start @ ''-'']"
    and "Split (itoa start @ ''-'') (CHR ''-'') = [itoa start, []]"
  using Split_pair [of "CHR ''=''" "''bytes''" "itoa start @ ''-''"] Split_pair [of "CHR ''-''" "itoa start" "[]"]
    itoa_nonneg_chars [OF assms] by auto

text \<open>
  The same open-ended range, from an offset inside the object, is read in two ways: a GET gives
  the bytes up to the end of the object, while the range of a part copy has a length of one byte
  more than the object has left.
\<close>

theorem open_copy_range_overruns:
  assumes "0 \<le> start" and "start < osize" and "osize < 2 ^ 63"
  shows "ParseObjectRange osize (''bytes='' @ itoa start @ ''-'') = (start, osize - start, True, None)
    \<and> ParseCopySourceRange osize (''bytes='' @ itoa start @ ''-'') = Inr (start, osize - start + 1)"
proof -
  have "ParseInt64 (itoa start) = Some start" using assms by (intro ParseInt64_itoa) auto
  moreover from this have "itoa start \<noteq> []" by auto
  ultimately show ?thesis
    using assms Split_open_range [OF assms(1)]
    by (simp add: ParseObjectRange_def bytes_range_def ParseCopySourceRange_def Let_def)
qed

theorem open_copy_range_overruns_witness:
  "ParseObjectRange 10 (''bytes='' @ itoa 4 @ ''-'') = (4, 6, True, None)
    \<and> ParseCopySourceRange 10 (''bytes='' @ itoa 4 @ ''-'') = Inr (4, 7)"
  using open_copy_range_overruns [of 4 10] by simp

section \<open>Conditional reads\<close>

text \<open>
  The order of RFC 7232, section 6: If-Match, or without it If-Unmodified-Since, can fail the
  request; then If-None-Match, or without it If-Modified-Since, can answer that nothing changed.
\<close>

definition rfc7232 :: "bool option \<Rightarrow> bool option \<Rightarrow> bool option \<Rightarrow> bool option \<Rightarrow> go_error option" where
  "rfc7232 match noneMatch modSince unmodSince =
     (if match = Some False then Some (PreconditionFailed ''If-Match'')
      else if match = None \<and> unmodSince = Some False then Some (PreconditionFailed ''If-Unmodified-Since'')
      else if noneMatch = Some False \<or> (noneMatch = None \<and> modSince = Some False) then Some errNotModified
      else None)"

text \<open>
  C35. The nested decisions of \<open>EvaluatePreconditions\<close> are the precedence of RFC 7232 on the four
  comparisons with the entity tag, quotes removed, and the modification time.
\<close>

theorem EvaluatePreconditions_rfc7232:
  "EvaluatePreconditions etag modTime pc =
     rfc7232 (map_option (\<lambda>m. m = ''*'' \<or> m = Trim etag quote) (pc_IfMatch pc))
       (map_option (\<lambda>m. \<not> (m = ''*'' \<or> m = Trim etag quote)) (pc_IfNoneMatch pc))
       (map_option (\<lambda>t. t < modTime) (pc_IfModSince pc))
       (map_option (\<lambda>t. modTime < t) (pc_IfUnmodeSince pc))"
proof -
  have "(if m = None \<and> n = None \<and> s = None \<and> u = None then None
     else case m of
         Some False \<Rightarrow> Some (PreconditionFailed ''If-Match'')
       | Some True \<Rightarrow>
           (case n of Some False \<Rightarrow> Some errNotModified | Some True \<Rightarrow> None
            | None \<Rightarrow> if s = Some False then Some errNotModified else None)
       | None \<Rightarrow>
           (case n of
              Some True \<Rightarrow> if u = Some False then Some (PreconditionFailed ''If-Unmodified-Since'') else None
            | Some False \<Rightarrow>
                if u = Some False then Some (PreconditionFailed ''If-Unmodified-Since'') else Some errNotModified
            | None \<Rightarrow>
                if s = Some False then
                  (if u = Some False then Some (PreconditionFailed ''If-Unmodified-Since'') else Some errNotModified)
                else if u = Some False then Some (PreconditionFailed ''If-Unmodified-Since'') else None))
    = rfc7232 m n s u" for m n s u
    by (simp add: rfc7232_def split: option.split bool.split)
  from this [of "map_option (\<lambda>m. m = ''*'' \<or> m = Trim etag quote) (pc_IfMatch pc)"
      "map_option (\<lambda>m. \<not> (m = ''*'' \<or> m = Trim etag quote)) (pc_IfNoneMatch pc)"
      "map_option (\<lambda>t. t < modTime) (pc_IfModSince pc)" "map_option (\<lambda>t. modTime < t) (pc_IfUnmodeSince pc)"]
  show ?thesis by (simp only: EvaluatePreconditions_def Let_def option.map_disc_iff de_Morgan_disj)
qed

text \<open>
  Asked with the modification time of the object itself, If-Unmodified-Since alone fails the
  read, although nothing has changed since.
\<close>

theorem unmodified_since_own_time_fails:
  "EvaluatePreconditions etag modTime
     \<lparr>pc_IfMatch = None, pc_IfNoneMatch = None, pc_IfModSince = None, pc_IfUnmodeSince = Some modTime\<rparr>
   = Some (PreconditionFailed ''If-Unmodified-Since'')"
  by (simp add: EvaluatePreconditions_def)

section \<open>Conditional writes\<close>

text \<open>
  A conditional put goes through in three cases: without a condition, as a creation when the
  object does not exist, and as a replacement of exactly the named entity tag.
\<close>

theorem put_preconditions_compare_and_swap:
  "EvaluateObjectPutPreconditions etag ifMatch ifNoneMatch objExists = None \<longleftrightarrow>
     (ifMatch = None \<and> ifNoneMatch = None)
     \<or> (ifMatch = None \<and> ifNoneMatch = Some ''*'' \<and> \<not> objExists)
     \<or> (ifMatch = Some (Trim etag quote) \<and> ifNoneMatch = None \<and> objExists)"
  by (cases ifMatch; cases ifNoneMatch) (simp_all add: EvaluateObjectPutPreconditions_def)

text \<open>A conditional delete goes through when every given condition holds, times up to the second.\<close>

theorem delete_preconditions_iff:
  "EvaluateObjectDeletePreconditions etag modTime osize pc = None \<longleftrightarrow>
     dp_IfMatch pc \<in> {None, Some (Trim etag quote)}
     \<and> map_option unix_seconds (dp_IfMatchLastModTime pc) \<in> {None, Some (unix_seconds modTime)}
     \<and> dp_IfMatchSize pc \<in> {None, Some osize}"
  by (simp add: EvaluateObjectDeletePreconditions_def)

section \<open>Tags\<close>

lemma QueryUnescape_length: "QueryUnescape s = Some t \<Longrightarrow> length t \<le> length s"
proof (induction s arbitrary: t rule: QueryUnescape.induct)
  case (2 c s)
  then show ?case
    by (fastforce split: if_splits list.splits option.splits)
qed simp

definition tag_ok :: "(string \<Rightarrow> bool) \<Rightarrow> string \<times> string \<Rightarrow> bool" where
  "tag_ok unicode_tag = (\<lambda>(k, v). length k \<le> 128 \<and> length v \<le> 256
     \<and> isValidTagComponent unicode_tag k \<and> isValidTagComponent unicode_tag v)"

lemma parse_tag_ok:
  assumes "parse_tag unicode_tag tag rest = Inr (k, v)"
  shows "tag_ok unicode_tag (k, v)"
proof -
  obtain key val found where c: "(case Cut tag ''='' of None \<Rightarrow> (tag, [], False) | Some (k, v) \<Rightarrow> (k, v, True)) = (key, val, found)"
    by (metis prod_cases3)
  from assms have "length key \<le> 128" "length val \<le> 256" "QueryUnescape key = Some k" "QueryUnescape val = Some v"
      "isValidTagComponent unicode_tag k" "isValidTagComponent unicode_tag v"
    unfolding parse_tag_def c by (auto simp: Let_def split: if_splits option.splits)
  with QueryUnescape_length [of key k] QueryUnescape_length [of val v] show ?thesis
    by (simp add: tag_ok_def)
qed

lemma tags_loop_ok:
  assumes "tags_loop unicode_tag tagging tagSet = Inr ts"
    and "distinct (map fst tagSet)" and "list_all (tag_ok unicode_tag) tagSet"
  shows "distinct (map fst ts) \<and> list_all (tag_ok unicode_tag) ts"
  using assms
proof (induction unicode_tag tagging tagSet rule: tags_loop.induct)
  case (1 unicode_tag tagging tagSet)
  obtain tag rest where ct: "cut_tag tagging = (tag, rest)" by fastforce
  show ?case
  proof (cases "tagging = []")
    case True
    with "1.prems" show ?thesis by (simp add: tags_loop.simps [of unicode_tag "[]"])
  next
    case ne: False
    show ?thesis
  proof (cases "tag = []")
    case True
    with ne ct "1.prems"(1) have "tags_loop unicode_tag rest tagSet = Inr ts"
      by (simp add: tags_loop.simps [of unicode_tag tagging])
    from "1.IH"(1) [OF ne ct [symmetric] refl True this "1.prems"(2,3)] show ?thesis .
  next
    case False
    with ne "1.prems"(1) ct obtain k v where p: "parse_tag unicode_tag tag rest = Inr (k, v)"
      and new: "k \<notin> fst ` set tagSet" and r: "tags_loop unicode_tag rest (tagSet @ [(k, v)]) = Inr ts"
      by (auto simp: tags_loop.simps [of unicode_tag tagging] split: sum.splits if_splits)
    show ?thesis
      by (rule "1.IH"(2) [OF _ ct [symmetric] refl _ p refl new r])
        (use ne False new "1.prems" parse_tag_ok [OF p] in auto)
  qed
  qed
qed

text \<open>
  C38. The tags of an accepted header have distinct keys, at most 128 and 256 bytes in a key and a
  value, and only the characters allowed.
\<close>

theorem ParseObjectTags_sound:
  assumes "ParseObjectTags unicode_tag tagging = Inr ts"
  shows "distinct (map fst ts)
    \<and> (\<forall>(k, v) \<in> set ts. length k \<le> 128 \<and> length v \<le> 256
         \<and> isValidTagComponent unicode_tag k \<and> isValidTagComponent unicode_tag v)"
  using tags_loop_ok [of unicode_tag tagging "[]" ts] assms
  by (auto simp: ParseObjectTags_def list_all_iff tag_ok_def)

theorem ParseObjectTags_sound_witness:
  "ParseObjectTags (\<lambda>_. False) ''a=1&b%2Bc=2'' = Inr [(''a'', ''1''), (''b+c'', ''2'')]
    \<and> distinct (map fst [(''a'', ''1''), (''b+c'', ''2'')])"
proof -
  have p: "ParseObjectTags (\<lambda>_. False) ''a=1&b%2Bc=2'' = Inr [(''a'', ''1''), (''b+c'', ''2'')]" by code_simp
  from ParseObjectTags_sound [OF p] p show ?thesis by blast
qed

section \<open>Entity tags\<close>

lemma unhex_hex_digit: "n < 16 \<Longrightarrow> unhex (hex_digit n) = Some n \<and> hex_digit n \<noteq> quote"
proof -
  have "\<forall>n \<in> set [0..<16]. unhex (hex_digit n) = Some n \<and> hex_digit n \<noteq> quote" by code_simp
  then show "n < 16 \<Longrightarrow> ?thesis" by simp
qed

lemma hex_encode_Cons:
  "hex_encode (c # s) = hex_digit (of_char c div 16) # hex_digit (of_char c mod 16) # hex_encode s"
  by (simp add: hex_encode_def)

lemma byte_lt: "(of_char (c :: char) :: nat) < 256"
  by (metis of_char_mod_256 mod_less_divisor zero_less_numeral)

lemma nibble_lt: "of_char (c :: char) div 16 < (16 :: nat)"
  using byte_lt [of c] by (intro less_mult_imp_div_less) simp

lemma hex_decode_encode: "hex_decode (hex_encode s) = Some s"
proof (induction s)
  case (Cons c s)
  have "16 * (of_char c div 16) + of_char c mod 16 = (of_char c :: nat)" by simp
  moreover have "of_char c div 16 < (16 :: nat)" by (rule nibble_lt)
  ultimately show ?case
    using Cons by (simp add: hex_encode_Cons unhex_hex_digit)
qed (simp add: hex_encode_def)

lemma hex_encode_no_quote: "filter (\<lambda>c. c \<noteq> quote) (hex_encode s) = hex_encode s"
proof (induction s)
  case (Cons c s)
  have "of_char c div 16 < (16 :: nat)" by (rule nibble_lt)
  with Cons show ?case by (simp add: hex_encode_Cons unhex_hex_digit)
qed (simp add: hex_encode_def)

lemma getEtagBytes_GenerateEtag: "getEtagBytes (GenerateEtag d) = Some d"
  by (simp add: getEtagBytes_def GenerateEtag_def hex_encode_no_quote hex_decode_encode)

lemma part_etags_loop_generated:
  "part_etags_loop (map (\<lambda>(n, d). \<lparr>cp_ETag = Some (GenerateEtag d), cp_PartNumber = Some n\<rparr>) ds) acc
     = Inr (acc @ concat (map snd ds))"
  by (induction ds arbitrary: acc) (auto simp: getEtagBytes_GenerateEtag)

text \<open>
  For parts that carry the entity tags the gateway generated, the tag of the completed upload
  is the digest of the concatenated part digests followed by their number.
\<close>

theorem multipart_etag_of_digests:
  "ComputeMultipartETagFromPartETags md5_Sum
     (map (\<lambda>(n, d). \<lparr>cp_ETag = Some (GenerateEtag d), cp_PartNumber = Some n\<rparr>) ds)
   = Inr (quote # hex_encode (md5_Sum (concat (map snd ds))) @ ''-'' @ itoa (int (length ds)) @ [quote])"
  by (simp add: ComputeMultipartETagFromPartETags_def part_etags_loop_generated md5String_def)

section \<open>Metadata of completed uploads\<close>

lemma int64_list_itoa:
  "\<forall>p \<in> set ps. - (2 ^ 63) \<le> p \<and> p < 2 ^ 63 \<Longrightarrow> int64_list (map (\<lambda>n. JNum (itoa n)) ps) = Some ps"
  by (induction ps) (auto simp: ParseInt64_itoa)

lemma field_names: "EqualFold ''uploadId'' ''uploadId''" "\<not> EqualFold ''parts'' ''uploadId''" "EqualFold ''parts'' ''parts''"
  by code_simp+

lemma mp_fields_Marshal:
  assumes "\<forall>ps. mp_Parts m = Some ps \<longrightarrow> (\<forall>p \<in> set ps. - (2 ^ 63) \<le> p \<and> p < 2 ^ 63)"
  shows "\<exists>ms. MpUploadMetadata_MarshalJSON m = JObj ms \<and> mp_fields ms \<lparr>mp_UploadID = [], mp_Parts = None\<rparr> = Some m"
  using assms int64_list_itoa
  by (cases m; cases "mp_Parts m") (auto simp: MpUploadMetadata_MarshalJSON_def field_names)

text \<open>
  Multipart metadata survives being stored, with and without base64: given that the JSON, gzip
  and base64 routines read back what they wrote, \<open>UnmarshalMpUploadMetadata\<close> returns the value
  that \<open>MarshalMpUploadMetadata\<close> was given.
\<close>

theorem MpUploadMetadata_roundtrip:
  assumes "\<forall>ps. mp_Parts m = Some ps \<longrightarrow> (\<forall>p \<in> set ps. - (2 ^ 63) \<le> p \<and> p < 2 ^ 63)"
    and json: "co_parse co (co_json co (MpUploadMetadata_MarshalJSON m)) = Some (MpUploadMetadata_MarshalJSON m)"
    and gzip: "\<And>d. co_decompress co (co_compress co d) = Some d"
    and base64: "\<And>d. co_unbase64 co (co_base64 co d) = Some d"
  shows "UnmarshalMpUploadMetadata co (MarshalMpUploadMetadata co m b64) b64 = Inr m"
proof -
  obtain ms where ms: "MpUploadMetadata_MarshalJSON m = JObj ms"
    and f: "mp_fields ms \<lparr>mp_UploadID = [], mp_Parts = None\<rparr> = Some m"
    using mp_fields_Marshal [OF assms(1)] by blast
  have "unmarshalCompressedMpUploadMetadata co (co_compress co (co_json co (JObj ms))) = Some m"
    using json f by (simp add: unmarshalCompressedMpUploadMetadata_def unmarshal_mp_def gzip ms)
  then show ?thesis
    by (simp add: UnmarshalMpUploadMetadata_def MarshalMpUploadMetadata_def Let_def base64 ms)
qed

text \<open>A codec whose byte strings are the documents themselves.\<close>

definition plain_codec :: "json codec" where
  "plain_codec = \<lparr>co_json = id, co_parse = Some, co_compress = (\<lambda>d. JArr [d]),
     co_decompress = (\<lambda>d. case d of JArr [x] \<Rightarrow> Some x | _ \<Rightarrow> None),
     co_base64 = (\<lambda>d. JArr [JNull, d]), co_unbase64 = (\<lambda>d. case d of JArr [JNull, x] \<Rightarrow> Some x | _ \<Rightarrow> None)\<rparr>"

theorem MpUploadMetadata_roundtrip_witness:
  "UnmarshalMpUploadMetadata plain_codec
     (MarshalMpUploadMetadata plain_codec \<lparr>mp_UploadID = ''u1'', mp_Parts = Some [5, 12]\<rparr> True) True
   = Inr \<lparr>mp_UploadID = ''u1'', mp_Parts = Some [5, 12]\<rparr>"
  by (rule MpUploadMetadata_roundtrip) (simp_all add: plain_codec_def)

end
