(* ===== verification/Copy_Source.thy ===== *)
theory Copy_Source
  imports Access_Control Backend_Common
begin

text \<open>
  The copy source of CopyObject and UploadPartCopy as two components read it: access control
  (auth/access-control.go) decides on the key it finds in the header, the backends
  (backend/common.go) copy the object that \<open>ParseCopySource\<close> finds there.
\<close>

text \<open>The options of the check on the source.\<close>

definition source_options :: "AccessOptions \<Rightarrow> ACL \<Rightarrow> string \<Rightarrow> string \<Rightarrow> AccessOptions" where
  "source_options opts acl srcBucket srcObject =
     zero_AccessOptions\<lparr>opt_Acl := acl, opt_AclPermission := PermissionRead, opt_IsRoot := opt_IsRoot opts,
       opt_Acc := opt_Acc opts, opt_Bucket := srcBucket, opt_Object := srcObject,
       opt_Actions := [GetObjectAction], opt_Iam := opt_Iam opts, opt_DisableACL := opt_DisableACL opts\<rparr>"

lemma QueryUnescape_plain: "CHR ''%'' \<notin> set s \<Longrightarrow> CHR ''+'' \<notin> set s \<Longrightarrow> QueryUnescape s = Some s"
  by (induction s) auto

lemma Cut_first: "c \<notin> set a \<Longrightarrow> Cut (a @ (c # sep) @ b) (c # sep) = Some (a, b)"
  by (induction a) auto

lemma Cut_slash: "CHR ''/'' \<notin> set a \<Longrightarrow> Cut (a @ ''/'' @ b) ''/'' = Some (a, b)"
  using Cut_first [of "CHR ''/''" a "[]" b] by simp

lemma Cut_absent: "c \<notin> set a \<Longrightarrow> Cut a (c # sep) = None"
  by (induction a) auto

definition versioned_source :: "string \<Rightarrow> string \<Rightarrow> string \<Rightarrow> string" where
  "versioned_source b k v = b @ ''/'' @ k @ ''?versionId='' @ v"

definition plain_name :: "string \<Rightarrow> bool" where
  "plain_name s \<longleftrightarrow> list_all (\<lambda>c. c \<notin> set ''%+?'') s"

lemma plain_nameD: "plain_name s \<Longrightarrow> CHR ''%'' \<notin> set s \<and> CHR ''+'' \<notin> set s \<and> CHR ''?'' \<notin> set s"
  by (auto simp: plain_name_def list_all_iff)

lemma QueryUnescape_versioned:
  assumes "plain_name b" "plain_name k" "plain_name v"
  shows "QueryUnescape (versioned_source b k v) = Some (versioned_source b k v)"
  using plain_nameD [OF assms(1)] plain_nameD [OF assms(2)] plain_nameD [OF assms(3)]
  by (intro QueryUnescape_plain) (simp_all add: versioned_source_def)

lemma ParseCopySource_versioned:
  assumes "plain_name b" "plain_name k" "plain_name v" and "b \<noteq> []" "CHR ''/'' \<notin> set b"
  shows "ParseCopySource (versioned_source b k v) = Inr (b, k, v)"
proof -
  have h: "versioned_source b k v \<noteq> []" "hd (versioned_source b k v) \<noteq> CHR ''/''"
    using assms(4,5) by (auto simp: versioned_source_def neq_Nil_conv)
  have "CHR ''?'' \<notin> set (b @ ''/'' @ k)"
    using plain_nameD [OF assms(1)] plain_nameD [OF assms(2)] by simp
  from Cut_first [OF this, of "''versionId=''" v]
  have c: "Cut (versioned_source b k v) ''?versionId='' = Some (b @ ''/'' @ k, v)"
    by (simp only: versioned_source_def append_assoc)
  show ?thesis
    unfolding ParseCopySource_def Let_def if_not_P [OF h(1)] if_not_P [OF h(2)]
      QueryUnescape_versioned [OF assms(1-3)] option.case c prod.case Cut_slash [OF assms(5)] ..
qed

lemma VerifyObjectCopyAccess_versioned:
  assumes "plain_name b" "plain_name k" "plain_name v" and "CHR ''/'' \<notin> set b"
    and "\<not> opt_IsRoot opts" "Role (opt_Acc opts) \<noteq> RoleAdmin"
    and "be_GetBucketAcl be b = Inr bytes" "unmarshal_ACL bytes = Inr acl"
  shows "VerifyObjectCopyAccess h ctx be (versioned_source b k v) opts =
    (case VerifyAccess h ctx be opts of
       Some err \<Rightarrow> Some err
     | None \<Rightarrow> VerifyAccess h ctx be (source_options opts acl b (k @ ''?versionId='' @ v)))"
proof -
  have "Cut (versioned_source b k v) ''/'' = Some (b, k @ ''?versionId='' @ v)"
    using Cut_slash [OF assms(4), of "k @ ''?versionId='' @ v"] by (simp add: versioned_source_def)
  with assms(5-8) QueryUnescape_versioned [OF assms(1-3)] show ?thesis
    by (simp add: VerifyObjectCopyAccess_def source_options_def split: option.split)
qed

text \<open>
  C13. For a copy source with a version the backend copies the key without the version suffix, while
  the read permission on the source is decided for the key with the suffix attached, and for
  the action GetObject whatever the version is.
\<close>

theorem copy_source_authorised_by_other_key:
  assumes "plain_name b" "plain_name k" "plain_name v" and "b \<noteq> []" "CHR ''/'' \<notin> set b"
    and "\<not> opt_IsRoot opts" "Role (opt_Acc opts) \<noteq> RoleAdmin"
    and "be_GetBucketAcl be b = Inr bytes" "unmarshal_ACL bytes = Inr acl"
  shows "ParseCopySource (versioned_source b k v) = Inr (b, k, v)
    \<and> VerifyObjectCopyAccess h ctx be (versioned_source b k v) opts =
      (case VerifyAccess h ctx be opts of
         Some err \<Rightarrow> Some err
       | None \<Rightarrow> VerifyAccess h ctx be (source_options opts acl b (k @ ''?versionId='' @ v)))"
  using ParseCopySource_versioned [OF assms(1-5)]
    VerifyObjectCopyAccess_versioned [OF assms(1-3) assms(5-9)] by blast

text \<open>A policy that lets everyone read and write the bucket but denies reading the key k.\<close>

definition deny_k_json :: json where
  "deny_k_json = JObj
     [(''Statement'', JArr
        [JObj [(''Effect'', JStr ''Allow''), (''Principal'', JStr ''*''),
           (''Action'', JArr [JStr ''s3:GetObject'', JStr ''s3:PutObject'']), (''Resource'', JStr ''arn:aws:s3:::b/*'')],
         JObj [(''Effect'', JStr ''Deny''), (''Principal'', JStr ''*''),
           (''Action'', JStr ''s3:GetObject''), (''Resource'', JStr ''arn:aws:s3:::b/k'')]])]"

definition deny_k_backend :: backend where
  "deny_k_backend = (demo_backend (Some (Some deny_k_json)))\<lparr>be_GetBucketAcl := (\<lambda>_. Inr (JSONText JNull))\<rparr>"

lemma deny_k_decisions:
  "verifyBucketPolicy null_host (Some deny_k_json) ''alice'' ''b'' ''k''
     (requestConditionContext demo_request) (Some (\<lambda>b k. k)) [GetObjectAction] = Inr (policyDecisionDeny, GetObjectAction)"
  "verifyBucketPolicy null_host (Some deny_k_json) ''alice'' ''b'' ''k?versionId=''
     (requestConditionContext demo_request) (Some (\<lambda>b k. k)) [GetObjectAction] = Inr (policyDecisionAllow, [])"
  "verifyBucketPolicy null_host (Some deny_k_json) ''alice'' ''b'' ''copy''
     (requestConditionContext demo_request) (Some (\<lambda>b k. k)) [PutObjectAction] = Inr (policyDecisionAllow, [])"
  by code_simp+

lemma deny_k_resource:
  assumes "opt_Acc o' = demo_user" "opt_Bucket o' = ''b''" "opt_Object o' = k" "opt_Actions o' = [a]"
    and "verifyBucketPolicy null_host (Some deny_k_json) ''alice'' ''b'' k
      (requestConditionContext demo_request) (Some (\<lambda>b k. k)) [a] = Inr (d, da)"
  shows "verifyResourceAccess null_host deny_k_backend o' [k] (requestConditionContext demo_request) =
    Inr [\<lparr>dfr_Decision = d, dfr_Action = da\<rparr>]"
  using assms by (simp add: verifyResourceAccess_def deny_k_backend_def demo_backend_def demo_user_def zero_Account_def)

lemma deny_k_access:
  assumes "o' = demo_opts k a None \<or> o' = source_options (demo_opts k' a' None) zero_ACL ''b'' k \<and> a = GetObjectAction"
    and "verifyBucketPolicy null_host (Some deny_k_json) ''alice'' ''b'' k
      (requestConditionContext demo_request) (Some (\<lambda>b k. k)) [a] = Inr (d, da)"
  shows "VerifyAccess null_host demo_request deny_k_backend o' = None \<longleftrightarrow> d = policyDecisionAllow"
proof -
  have o': "opt_Acc o' = demo_user" "opt_Bucket o' = ''b''" "opt_Object o' = k" "opt_Actions o' = [a]"
    "opt_Iam o' = None" "\<not> opt_IsRoot o'" "\<not> opt_Readonly o'" "\<not> opt_IsPublicRequest o'"
    using assms(1) by (auto simp: demo_opts_def source_options_def zero_AccessOptions_def)
  have g: "verifyAccessGates o' = None" "authorizationApplies o'"
    using o' by (simp_all add: verifyAccessGates_def authorizationApplies_def demo_user_def RoleUser_def RoleAdmin_def)
  show ?thesis
    unfolding VerifyAccess_None using g o' deny_k_resource [OF o'(1-4) assms(2)]
    by (cases d) (simp_all add: key_granted_def)
qed

text \<open>
  With that policy a caller who may not read k, directly or as a copy source, gets the copy of k
  through by appending an empty version.
\<close>

theorem copy_source_authorised_by_other_key_witness:
  "VerifyAccess null_host demo_request deny_k_backend (demo_opts ''k'' GetObjectAction None) \<noteq> None
   \<and> ParseCopySource (versioned_source ''b'' ''k'' []) = Inr (''b'', ''k'', [])
   \<and> VerifyObjectCopyAccess null_host demo_request deny_k_backend (versioned_source ''b'' ''k'' [])
       (demo_opts ''copy'' PutObjectAction None) = None"
proof -
  let ?o = "demo_opts ''copy'' PutObjectAction None"
  have acl: "be_GetBucketAcl deny_k_backend ''b'' = Inr (JSONText JNull)" "unmarshal_ACL (JSONText JNull) = Inr zero_ACL"
    by (simp_all add: deny_k_backend_def unmarshal_ACL_def)
  have p: "plain_name ''b''" "plain_name ''k''" "plain_name []" by code_simp+
  have o': "\<not> opt_IsRoot ?o" "Role (opt_Acc ?o) \<noteq> RoleAdmin"
    by (simp_all add: demo_opts_def zero_AccessOptions_def demo_user_def RoleUser_def RoleAdmin_def)
  have n: "''b'' \<noteq> []" "CHR ''/'' \<notin> set ''b''" by simp_all
  have dst: "VerifyAccess null_host demo_request deny_k_backend ?o = None"
    unfolding deny_k_access [OF disjI1 [OF refl] deny_k_decisions(3)] ..
  have "VerifyAccess null_host demo_request deny_k_backend (source_options ?o zero_ACL ''b'' ''k?versionId='') = None"
    unfolding deny_k_access [OF disjI2 [OF conjI [OF refl refl]] deny_k_decisions(2)] ..
  then have src: "VerifyAccess null_host demo_request deny_k_backend
      (source_options ?o zero_ACL ''b'' (''k'' @ ''?versionId='' @ [])) = None"
    by (simp only: append.simps)
  have denied: "VerifyAccess null_host demo_request deny_k_backend (demo_opts ''k'' GetObjectAction None) \<noteq> None"
    unfolding deny_k_access [OF disjI1 [OF refl] deny_k_decisions(1)] by simp
  note c = copy_source_authorised_by_other_key [OF p n o' acl, of null_host demo_request]
  have "VerifyObjectCopyAccess null_host demo_request deny_k_backend (versioned_source ''b'' ''k'' []) ?o = None"
    unfolding c [THEN conjunct2] dst option.case by (rule src)
  with denied c show ?thesis by blast
qed

end
