(* ===== verification/Identity_Policy.thy ===== *)
theory Identity_Policy
  imports Condition_Eval "HOL-Library.AList"
begin

text \<open>
  The policies of the IAM service (iamapi/policy): documents and their decoding, the grammar of
  identity policies, their evaluation, and the trust policies that let a web identity assume a
  role. A document is its JSON syntax tree. Errors keep the text of their message and, apart
  from it, the values formatted into it.
\<close>

section \<open>Documents\<close>

datatype iam_error =
    MalformedPolicyDocument string "string list"
  | ValueTooLong string int
  | InvalidCharset string

text \<open>\<open>json.RawMessage\<close> fields: \<open>None\<close> is the empty slice, a JSON null is the text null.\<close>

record IAM_Statement =
  st_Sid :: string
  st_Effect :: string
  st_Action :: "string list"
  st_NotAction :: "string list"
  st_Resource :: "string list"
  st_NotResource :: "string list"
  st_Principal :: "json option"
  st_NotPrincipal :: "json option"
  st_Condition :: "json option"

record IAM_Document =
  doc_Version :: string
  doc_Statement :: "IAM_Statement list"

definition zero_Statement :: IAM_Statement where
  "zero_Statement = \<lparr>st_Sid = [], st_Effect = [], st_Action = [], st_NotAction = [], st_Resource = [],
     st_NotResource = [], st_Principal = None, st_NotPrincipal = None, st_Condition = None\<rparr>"

definition Version2008 :: string where
  "Version2008 = ''2008-10-17''"

definition Version2012 :: string where
  "Version2012 = ''2012-10-17''"

text \<open>\<open>StringOrSlice.UnmarshalJSON\<close>.\<close>

fun StringOrSlice_UnmarshalJSON :: "json \<Rightarrow> string list option" where
  "StringOrSlice_UnmarshalJSON JNull = Some []"
| "StringOrSlice_UnmarshalJSON (JStr s) = Some [s]"
| "StringOrSlice_UnmarshalJSON j = json_string_list j"

text \<open>\<open>checkDuplicateJSONKeys\<close>: member names are compared as they are written.\<close>

function no_duplicate_keys :: "json \<Rightarrow> bool" where
  "no_duplicate_keys (JArr xs) = list_all no_duplicate_keys xs"
| "no_duplicate_keys (JObj ms) = (distinct (map fst ms) \<and> list_all no_duplicate_keys (map snd ms))"
| "no_duplicate_keys JNull = True"
| "no_duplicate_keys (JBool b) = True"
| "no_duplicate_keys (JNum n) = True"
| "no_duplicate_keys (JStr s) = True"
  by pat_completeness auto

lemma json_member_size: "m \<in> set ms \<Longrightarrow> size (snd m) < Suc (size_list (size_prod (\<lambda>_. 0) size) ms)"
  by (induction ms) (auto simp: less_Suc_eq_le)

termination no_duplicate_keys
  by (relation "measure size") (auto simp: less_Suc_eq_le size_list_estimation' dest: json_member_size)

text \<open>
  Decoding the members of a statement in their order, as the decoder does: names match in any
  case, a null leaves a string as it is, a name of no field is an error.
\<close>

definition set_string :: "json \<Rightarrow> (string \<Rightarrow> 'a) \<Rightarrow> 'a \<Rightarrow> 'a option" where
  "set_string v upd old = (case v of JStr s \<Rightarrow> Some (upd s) | JNull \<Rightarrow> Some old | _ \<Rightarrow> None)"

definition set_statement_field :: "string \<Rightarrow> json \<Rightarrow> IAM_Statement \<Rightarrow> IAM_Statement option" where
  "set_statement_field k v st =
     (let strs = StringOrSlice_UnmarshalJSON v in
      if EqualFold k ''Sid'' then set_string v (\<lambda>s. st\<lparr>st_Sid := s\<rparr>) st
      else if EqualFold k ''Effect'' then set_string v (\<lambda>s. st\<lparr>st_Effect := s\<rparr>) st
      else if EqualFold k ''Action'' then map_option (\<lambda>xs. st\<lparr>st_Action := xs\<rparr>) strs
      else if EqualFold k ''NotAction'' then map_option (\<lambda>xs. st\<lparr>st_NotAction := xs\<rparr>) strs
      else if EqualFold k ''Resource'' then map_option (\<lambda>xs. st\<lparr>st_Resource := xs\<rparr>) strs
      else if EqualFold k ''NotResource'' then map_option (\<lambda>xs. st\<lparr>st_NotResource := xs\<rparr>) strs
      else if EqualFold k ''Principal'' then Some (st\<lparr>st_Principal := Some v\<rparr>)
      else if EqualFold k ''NotPrincipal'' then Some (st\<lparr>st_NotPrincipal := Some v\<rparr>)
      else if EqualFold k ''Condition'' then Some (st\<lparr>st_Condition := Some v\<rparr>)
      else None)"

fun statement_fields :: "(string \<times> json) list \<Rightarrow> IAM_Statement \<Rightarrow> IAM_Statement option" where
  "statement_fields [] st = Some st"
| "statement_fields ((k, v) # ms) st =
     (case set_statement_field k v st of None \<Rightarrow> None | Some st' \<Rightarrow> statement_fields ms st')"

fun unmarshal_statement :: "json \<Rightarrow> IAM_Statement option" where
  "unmarshal_statement (JObj ms) = statement_fields ms zero_Statement"
| "unmarshal_statement JNull = Some zero_Statement"
| "unmarshal_statement _ = None"

text \<open>A statement list, or a single statement.\<close>

fun unmarshal_statements :: "json \<Rightarrow> IAM_Statement list option" where
  "unmarshal_statements JNull = Some []"
| "unmarshal_statements (JArr xs) = decode_all unmarshal_statement xs"
| "unmarshal_statements j = map_option (\<lambda>st. [st]) (unmarshal_statement j)"

fun document_fields :: "(string \<times> json) list \<Rightarrow> string \<times> json \<Rightarrow> (string \<times> json) option" where
  "document_fields [] r = Some r"
| "document_fields ((k, v) # ms) (version, raw) =
     (if EqualFold k ''Version'' then
        (case set_string v (\<lambda>s. s) version of None \<Rightarrow> None | Some s \<Rightarrow> document_fields ms (s, raw))
      else if EqualFold k ''Statement'' then document_fields ms (version, v)
      else document_fields ms (version, raw))"

definition Document_UnmarshalJSON :: "json_bytes \<Rightarrow> IAM_Document option" where
  "Document_UnmarshalJSON data =
     (case data of
        None \<Rightarrow> None
      | Some j \<Rightarrow>
          if \<not> no_duplicate_keys j then None
          else case j of
              JNull \<Rightarrow> Some \<lparr>doc_Version = [], doc_Statement = []\<rparr>
            | JObj ms \<Rightarrow>
                (case document_fields ms ([], JNull) of
                   None \<Rightarrow> None
                 | Some (version, raw) \<Rightarrow>
                     map_option (\<lambda>sts. \<lparr>doc_Version = version, doc_Statement = sts\<rparr>) (unmarshal_statements raw))
            | _ \<Rightarrow> None)"

section \<open>The grammar of identity policies\<close>

text \<open>
  \<open>Validate\<close> on the text: at most 131072 bytes, and only tab, line feed, carriage return and
  the code points U+0020 to U+00FF. In UTF-8 the upper half of these is C2 or C3 and one more byte.
\<close>

definition MaxDocumentLength :: int where
  "MaxDocumentLength = 131072"

fun document_charset :: "string \<Rightarrow> bool" where
  "document_charset [] = True"
| "document_charset (c # s) =
     (if c < CHR 0x80 then
        (c \<in> {CHR 0x09, CHR 0x0A, CHR 0x0D} \<or> CHR 0x20 \<le> c) \<and> document_charset s
      else if c \<in> {CHR 0xC2, CHR 0xC3} then
        (case s of d # s' \<Rightarrow> byte_in CHR 0x80 CHR 0xBF d \<and> document_charset s' | [] \<Rightarrow> False)
      else False)"

definition isValidDocumentCharset :: "string \<Rightarrow> bool" where
  "isValidDocumentCharset s \<longleftrightarrow> s \<noteq> [] \<and> document_charset s"

definition Validate_text :: "string \<Rightarrow> string \<Rightarrow> iam_error option" where
  "Validate_text field raw =
     (if int (length raw) > MaxDocumentLength then Some (ValueTooLong field MaxDocumentLength)
      else if \<not> isValidDocumentCharset raw then Some (InvalidCharset field)
      else None)"

abbreviation malformed_doc :: "string \<Rightarrow> iam_error" where
  "malformed_doc msg \<equiv> MalformedPolicyDocument msg []"

definition errSyntax :: iam_error where
  "errSyntax = malformed_doc ''Syntax errors in policy.''"

definition vendorPattern :: "string \<Rightarrow> bool" where
  "vendorPattern s \<longleftrightarrow> s \<noteq> [] \<and> list_all (\<lambda>c. ascii_alnum c \<or> c = CHR ''-'') s"

definition validateActionVendor :: "string \<Rightarrow> iam_error option" where
  "validateActionVendor action =
     (if action = ''*'' then None
      else case Cut action '':'' of
          None \<Rightarrow> Some (malformed_doc ''Actions/Conditions must be prefaced by a vendor, e.g., iam, sdb, ec2, etc.'')
        | Some (vendor, _) \<Rightarrow>
            if \<not> vendorPattern vendor then Some (MalformedPolicyDocument ''Vendor %s is not valid'' [vendor])
            else None)"

text \<open>\<open>strings.SplitN\<close> for a separator of one byte and a positive count.\<close>

fun SplitN :: "string \<Rightarrow> char \<Rightarrow> nat \<Rightarrow> string list" where
  "SplitN s d (Suc (Suc n)) =
     (case Cut s [d] of None \<Rightarrow> [s] | Some (a, b) \<Rightarrow> a # SplitN b d (Suc n))"
| "SplitN s d _ = [s]"

definition validPartition :: string where
  "validPartition = ''aws''"

definition token_field :: "string list \<Rightarrow> nat \<Rightarrow> string" where
  "token_field tokens i = (if i < length tokens then tokens ! i else ''*'')"

definition validateResourceARN :: "string \<Rightarrow> iam_error option" where
  "validateResourceARN resource =
     (if resource = ''*'' then None
      else if \<not> Contains resource '':'' then
        Some (MalformedPolicyDocument ''Resource %s must be in ARN format or *.'' [resource])
      else if HasPrefix resource ''arn:'' then
        (let fields = SplitN (drop 4 resource) (CHR '':'') 5 in
         if length fields < 5 then Some (malformed_doc ''The policy failed legacy parsing'')
         else if hd fields \<noteq> validPartition then
           Some (MalformedPolicyDocument ''Partition %q is not valid for resource %q.'' [hd fields, resource])
         else None)
      else
        (let tokens = SplitN resource (CHR '':'') 6; field = token_field tokens;
             reconstructed = ''arn:'' @ field 1 @ '':'' @ field 2 @ '':'' @ field 3 @ '':'' @ field 4 @ '':'' @ field 5
         in Some (MalformedPolicyDocument ''Partition %q is not valid for resource %q.'' [field 1, reconstructed])))"

text \<open>The first error of a loop over values.\<close>

fun first_error :: "('a \<Rightarrow> 'e option) \<Rightarrow> 'a list \<Rightarrow> 'e option" where
  "first_error f [] = None"
| "first_error f (x # xs) = (case f x of Some e \<Rightarrow> Some e | None \<Rightarrow> first_error f xs)"

definition or_else :: "'e option \<Rightarrow> 'e option \<Rightarrow> 'e option" where
  "or_else a b = (case a of Some e \<Rightarrow> Some e | None \<Rightarrow> b)"

definition IAM_Statement_Validate :: "IAM_Statement \<Rightarrow> iam_error option" where
  "IAM_Statement_Validate s =
     (if st_Effect s \<noteq> ''Allow'' \<and> st_Effect s \<noteq> ''Deny'' then Some errSyntax
      else if st_Principal s \<noteq> None \<or> st_NotPrincipal s \<noteq> None then
        Some (malformed_doc ''Policy document should not specify a principal.'')
      else if \<not> ShapeValid (st_Condition s) then Some errSyntax
      else if st_Action s \<noteq> [] \<and> st_NotAction s \<noteq> [] then Some errSyntax
      else if st_Action s = [] \<and> st_NotAction s = [] then
        Some (malformed_doc ''Policy statement must contain actions.'')
      else or_else (first_error validateActionVendor (st_Action s))
          (or_else (first_error validateActionVendor (st_NotAction s))
            (if st_Resource s \<noteq> [] \<and> st_NotResource s \<noteq> [] then Some errSyntax
             else if st_Resource s = [] \<and> st_NotResource s = [] then
               Some (malformed_doc ''Policy statement must contain resources.'')
             else or_else (first_error validateResourceARN (st_Resource s))
                 (first_error validateResourceARN (st_NotResource s)))))"

text \<open>The loop over statements with the Sids seen so far.\<close>

fun statements_loop ::
    "(IAM_Statement \<Rightarrow> iam_error option) \<Rightarrow> iam_error \<Rightarrow> IAM_Statement list \<Rightarrow> string set \<Rightarrow> iam_error option" where
  "statements_loop check dup [] seen = None"
| "statements_loop check dup (s # ss) seen =
     (case check s of
        Some e \<Rightarrow> Some e
      | None \<Rightarrow>
          if st_Sid s \<noteq> [] \<and> st_Sid s \<in> seen then Some dup
          else statements_loop check dup ss (if st_Sid s \<noteq> [] then insert (st_Sid s) seen else seen))"

definition version_ok :: "string \<Rightarrow> bool" where
  "version_ok v \<longleftrightarrow> v = [] \<or> v = Version2008 \<or> v = Version2012"

definition IAM_Document_Validate :: "IAM_Document \<Rightarrow> iam_error option" where
  "IAM_Document_Validate d =
     (if \<not> version_ok (doc_Version d) then Some errSyntax
      else if doc_Statement d = [] then Some errSyntax
      else statements_loop IAM_Statement_Validate
             (malformed_doc ''Statement IDs (SID) in a single policy must be unique.'') (doc_Statement d) {})"

definition IAM_Parse :: "json_bytes \<Rightarrow> iam_error option" where
  "IAM_Parse raw =
     (case Document_UnmarshalJSON raw of None \<Rightarrow> Some errSyntax | Some doc \<Rightarrow> IAM_Document_Validate doc)"

section \<open>Evaluation\<close>

record RequestContext =
  rc_Action :: string
  rc_Resource :: string
  rc_Condition :: ctx_vars

datatype Decision = DecisionNoMatch | DecisionAllow | DecisionDeny

definition toLowerASCII :: "string \<Rightarrow> string" where
  "toLowerASCII s = map (\<lambda>c. if ascii_upper c then char_of (of_char c + 32 :: nat) else c) s"

definition matchActionPattern :: "string \<Rightarrow> string \<Rightarrow> bool" where
  "matchActionPattern pattern action = GlobMatch (toLowerASCII pattern) (toLowerASCII action)"

definition matchAny :: "string list \<Rightarrow> string \<Rightarrow> bool" where
  "matchAny patterns action \<longleftrightarrow> list_ex (\<lambda>p. matchActionPattern p action) patterns"

definition statementCoversAction :: "IAM_Statement \<Rightarrow> string \<Rightarrow> bool" where
  "statementCoversAction stmt action =
     (if st_Action stmt \<noteq> [] then matchAny (st_Action stmt) action
      else if st_NotAction stmt \<noteq> [] then \<not> matchAny (st_NotAction stmt) action
      else False)"

definition matchAnyResource :: "string list \<Rightarrow> string \<Rightarrow> ctx_vars \<Rightarrow> string \<Rightarrow> bool" where
  "matchAnyResource patterns resource ctxVars version \<longleftrightarrow>
     list_ex (\<lambda>p. GlobMatch (if version = Version2012 then SubstitutePolicyVariables p ctxVars else p) resource)
       patterns"

definition statementCoversResource :: "IAM_Statement \<Rightarrow> string \<Rightarrow> ctx_vars \<Rightarrow> string \<Rightarrow> bool" where
  "statementCoversResource stmt resource ctxVars version =
     (if st_Resource stmt \<noteq> [] then matchAnyResource (st_Resource stmt) resource ctxVars version
      else if st_NotResource stmt \<noteq> [] then \<not> matchAnyResource (st_NotResource stmt) resource ctxVars version
      else False)"

text \<open>The loop over the statements of one document; \<open>None\<close> is the early return of a deny.\<close>

fun identity_statements ::
    "cond_host \<Rightarrow> RequestContext \<Rightarrow> string \<Rightarrow> IAM_Statement list \<Rightarrow> bool \<Rightarrow> bool option" where
  "identity_statements h req version [] allowed = Some allowed"
| "identity_statements h req version (stmt # stmts) allowed =
     (if st_Effect stmt \<noteq> ''Allow'' \<and> st_Effect stmt \<noteq> ''Deny'' then
        identity_statements h req version stmts allowed
      else if \<not> statementCoversAction stmt (rc_Action req) then
        identity_statements h req version stmts allowed
      else if \<not> statementCoversResource stmt (rc_Resource req) (rc_Condition req) version then
        identity_statements h req version stmts allowed
      else
        let (matched, ok) = Evaluate h (st_Condition stmt) (rc_Condition req) version
        in if \<not> ok then None
           else if \<not> matched then identity_statements h req version stmts allowed
           else if st_Effect stmt = ''Deny'' then None
           else identity_statements h req version stmts True)"

fun identity_documents :: "cond_host \<Rightarrow> RequestContext \<Rightarrow> json_bytes list \<Rightarrow> bool \<Rightarrow> bool option" where
  "identity_documents h req [] allowed = Some allowed"
| "identity_documents h req (raw # raws) allowed =
     (case Document_UnmarshalJSON raw of
        None \<Rightarrow> None
      | Some doc \<Rightarrow>
          if IAM_Document_Validate doc \<noteq> None then None
          else case identity_statements h req (doc_Version doc) (doc_Statement doc) allowed of
              None \<Rightarrow> None
            | Some allowed' \<Rightarrow> identity_documents h req raws allowed')"

definition EvaluateIdentityPolicies :: "cond_host \<Rightarrow> json_bytes list \<Rightarrow> RequestContext \<Rightarrow> Decision" where
  "EvaluateIdentityPolicies h documents reqCtx =
     (case identity_documents h reqCtx documents False of
        None \<Rightarrow> DecisionDeny
      | Some allowed \<Rightarrow> if allowed then DecisionAllow else DecisionNoMatch)"

section \<open>Trust policies\<close>

definition trustPrincipalKeys :: "string list" where
  "trustPrincipalKeys = [''AWS'', ''Service'', ''Federated'']"

definition cognitoFederatedProvider :: string where
  "cognitoFederatedProvider = ''cognito-identity.amazonaws.com''"

definition azureSentinelProviderURL :: string where
  "azureSentinelProviderURL = ''sts.windows.net/33e01921-4d64-4f8c-a055-5bdaffd5e33d''"

definition azureSentinelRequiredKey :: string where
  "azureSentinelRequiredKey = ''sts:RoleSessionName''"

definition oidcProviderArnInfix :: string where
  "oidcProviderArnInfix = '':oidc-provider/''"

definition sharedOIDCProviderRequiredClaim :: "(string \<times> string) list" where
  "sharedOIDCProviderRequiredClaim =
    [(''token.actions.githubusercontent.com'', ''sub''),
     (''vstoken.actions.githubusercontent.com'', ''sub''),
     (''oidc-configuration.audit-log.githubusercontent.com'', ''sub''),
     (''gitlab.com'', ''sub''),
     (''agent.buildkite.com'', ''sub''),
     (''app.terraform.io'', ''sub''),
     (''oidc.codefresh.io'', ''sub''),
     (''studio.datachain.ai/api'', ''sub''),
     (''scalr.io'', ''sub''),
     (''tokens.cloud.shisho.dev'', ''sub''),
     (''proidc.upbound.io'', ''sub''),
     (''api.pulumi.com/oidc'', ''aud''),
     (''sandboxes.cloud'', ''aud''),
     (''oidc.vercel.com'', ''aud'')]"

definition validServicePrincipals :: "string list" where
  "validServicePrincipals = [''s3.amazonaws.com'', ''sts.amazonaws.com'', ''iam.amazonaws.com'']"

definition hasNonWildcardCharacter :: "string \<Rightarrow> bool" where
  "hasNonWildcardCharacter v \<longleftrightarrow> list_ex (\<lambda>r. r \<noteq> CHR ''*'' \<and> r \<noteq> CHR ''?'') v"

definition scoping_value :: "string \<Rightarrow> string \<Rightarrow> bool" where
  "scoping_value base v \<longleftrightarrow>
     v \<noteq> [] \<and> v \<noteq> ''*'' \<and> \<not> (base = ''StringLike'' \<and> \<not> hasNonWildcardCharacter v)"

definition conditionScopesClaim :: "json option \<Rightarrow> string \<Rightarrow> bool" where
  "conditionScopesClaim raw key =
     (if raw = None then False
      else case Parse raw of
          None \<Rightarrow> False
        | Some block \<Rightarrow>
            list_ex (\<lambda>(operator, kvs).
              case ParseOperatorName operator of
                None \<Rightarrow> False
              | Some op \<Rightarrow>
                  Base op \<in> {''StringEquals'', ''StringLike'', ''StringEqualsIgnoreCase''}
                  \<and> list_ex (\<lambda>(k, values). EqualFold k key \<and> list_ex (scoping_value (Base op)) values) kvs) block)"

definition oidcProviderURLFromFederatedArn :: "string \<Rightarrow> string option" where
  "oidcProviderURLFromFederatedArn v =
     (case Cut v oidcProviderArnInfix of
        None \<Rightarrow> None | Some (_, url) \<Rightarrow> if url = [] then None else Some url)"

definition unscoped_provider :: "string \<Rightarrow> string \<Rightarrow> iam_error" where
  "unscoped_provider url key = MalformedPolicyDocument
     ''The trust policy trusts shared OpenID Connect provider %q without a Condition scoping %q to your own tenant.''
     [url, key]"

definition check_federated :: "IAM_Statement \<Rightarrow> string \<Rightarrow> iam_error option" where
  "check_federated s v =
     (if v = cognitoFederatedProvider then
        (if \<not> conditionScopesClaim (st_Condition s) (cognitoFederatedProvider @ '':aud'') then
           Some (malformed_doc ''A condition block must be present for the Cognito provider'') else None)
      else case oidcProviderURLFromFederatedArn v of
          None \<Rightarrow> None
        | Some url \<Rightarrow>
            if url = azureSentinelProviderURL then
              (if \<not> conditionScopesClaim (st_Condition s) azureSentinelRequiredKey then
                 Some (unscoped_provider url azureSentinelRequiredKey) else None)
            else case map_of sharedOIDCProviderRequiredClaim url of
                None \<Rightarrow> None
              | Some claim \<Rightarrow>
                  if \<not> conditionScopesClaim (st_Condition s) (url @ '':'' @ claim) then
                    Some (unscoped_provider url (url @ '':'' @ claim)) else None)"

definition validateSharedProviderTenancy :: "IAM_Statement \<Rightarrow> string list \<Rightarrow> iam_error option" where
  "validateSharedProviderTenancy s federated = first_error (check_federated s) federated"

text \<open>Decoding a Principal into \<open>map[string]StringOrSlice\<close>; \<open>None\<close> is an error.\<close>

fun unmarshal_principal :: "json \<Rightarrow> (string \<times> string list) list option" where
  "unmarshal_principal (JObj ms) =
     map_option json_map_entries (decode_all (\<lambda>(k, v). map_option (Pair k) (StringOrSlice_UnmarshalJSON v)) ms)"
| "unmarshal_principal JNull = Some []"
| "unmarshal_principal _ = None"

definition errTrustSyntax :: iam_error where
  "errTrustSyntax = malformed_doc ''Syntax error in policy.''"

definition check_principal_entry :: "string \<times> string list \<Rightarrow> iam_error option" where
  "check_principal_entry = (\<lambda>(key, values).
     if key \<notin> set trustPrincipalKeys then Some (MalformedPolicyDocument ''Invalid principal in policy: %q'' [key])
     else if key = ''Service'' then
       first_error (\<lambda>v. if v \<notin> set validServicePrincipals
          then Some (MalformedPolicyDocument ''Invalid principal in policy: %q:%q'' [''SERVICE'', v]) else None) values
     else None)"

definition validateTrustPrincipal :: "IAM_Statement \<Rightarrow> iam_error option" where
  "validateTrustPrincipal s =
     (case st_Principal s of
        None \<Rightarrow> Some (malformed_doc ''Missing required field Principal'')
      | Some raw \<Rightarrow>
          (case unmarshal_principal raw of
             None \<Rightarrow>
               if json_string raw \<noteq> None then Some (malformed_doc ''Principal must be a JSON object.'')
               else Some errTrustSyntax
           | Some pr \<Rightarrow>
               if pr = [] then Some (malformed_doc ''Missing required field Principal cannot be empty!'')
               else or_else (first_error check_principal_entry pr)
                   (validateSharedProviderTenancy s (case map_of pr ''Federated'' of None \<Rightarrow> [] | Some vs \<Rightarrow> vs))))"

definition check_sts_action :: "string \<Rightarrow> iam_error option" where
  "check_sts_action action =
     (if \<not> HasPrefix action ''sts:'' then
        Some (malformed_doc ''AssumeRole policy may only specify STS AssumeRole actions.'') else None)"

definition Statement_ValidateTrust :: "IAM_Statement \<Rightarrow> iam_error option" where
  "Statement_ValidateTrust s =
     (if st_Effect s = [] then Some (malformed_doc ''Missing required field Effect'')
      else if st_Effect s \<noteq> ''Allow'' \<and> st_Effect s \<noteq> ''Deny'' then
        Some (MalformedPolicyDocument ''Invalid effect: %s'' [st_Effect s])
      else if st_NotPrincipal s \<noteq> None then
        Some (malformed_doc (if st_Effect s = ''Allow'' then ''Allow with NotPrincipal is not allowed.''
                             else ''AssumeRole policy must not contain NotPrincipal field.''))
      else or_else (validateTrustPrincipal s)
        (if \<not> ShapeValid (st_Condition s) then Some errTrustSyntax
         else if st_Action s \<noteq> [] \<and> st_NotAction s \<noteq> [] then Some errTrustSyntax
         else if st_Action s = [] \<and> st_NotAction s = [] then
           Some (malformed_doc ''Missing required field Action'')
         else or_else (first_error check_sts_action (st_Action s))
           (or_else (first_error check_sts_action (st_NotAction s))
             (if st_Resource s \<noteq> [] then Some (malformed_doc ''Has prohibited field Resource'')
              else if st_NotResource s \<noteq> [] then
                Some (malformed_doc ''AssumeRole policy must not contain resources.'')
              else None))))"

definition Document_ValidateTrust :: "IAM_Document \<Rightarrow> iam_error option" where
  "Document_ValidateTrust d =
     (if \<not> version_ok (doc_Version d) then
        Some (malformed_doc ''The policy must contain a valid version string'')
      else if doc_Statement d = [] then
        Some (malformed_doc ''Could not parse the policy: Statement is empty!'')
      else statements_loop Statement_ValidateTrust
             (malformed_doc ''The Statement Ids in the policy are not unique'') (doc_Statement d) {})"

definition ParseTrust :: "json_bytes \<Rightarrow> iam_error option" where
  "ParseTrust raw =
     (case Document_UnmarshalJSON raw of
        None \<Rightarrow> Some (malformed_doc ''This policy contains invalid Json'')
      | Some doc \<Rightarrow> Document_ValidateTrust doc)"

section \<open>Web identities\<close>

datatype WebIdentityMatch = NoPrincipal | NoIssuerMatch | ConditionFailed | ExplicitlyDenied | Allowed

text \<open>
  The time of the request is given by its two renderings, RFC 3339 and seconds; \<open>None\<close> is the
  zero time.
\<close>

record WebIdentityContext =
  wi_ProviderURL :: string
  wi_Audience :: string
  wi_OriginalAudience :: "string list"
  wi_Subject :: string
  wi_Claims :: ctx_vars
  wi_SourceIP :: string
  wi_Secure :: bool
  wi_Now :: "(string \<times> string) option"
  wi_RoleSessionName :: string

definition put_if :: "bool \<Rightarrow> string \<Rightarrow> string list \<Rightarrow> ctx_vars \<Rightarrow> ctx_vars" where
  "put_if b k v m = (if b then AList.update k v m else m)"

definition wi_conditionContext :: "WebIdentityContext \<Rightarrow> ctx_vars" where
  "wi_conditionContext w =
     (let key = (\<lambda>c. wi_ProviderURL w @ '':'' @ c);
          m0 = map (\<lambda>(claim, vs). (key claim, vs)) (wi_Claims w);
          m1 = put_if (wi_Audience w \<noteq> []) (key ''aud'') [wi_Audience w] m0;
          m2 = put_if (wi_OriginalAudience w \<noteq> []) (key ''oaud'') (wi_OriginalAudience w) m1;
          m3 = put_if (wi_Subject w \<noteq> []) (key ''sub'') [wi_Subject w] m2;
          m4 = put_if (wi_SourceIP w \<noteq> []) ''aws:SourceIp'' [wi_SourceIP w] m3;
          m5 = AList.update ''aws:SecureTransport'' [if wi_Secure w then ''true'' else ''false''] m4;
          m6 = (case wi_Now w of
                  None \<Rightarrow> m5
                | Some (rfc3339, epoch) \<Rightarrow>
                    AList.update ''aws:EpochTime'' [epoch] (AList.update ''aws:CurrentTime'' [rfc3339] m5))
      in put_if (wi_RoleSessionName w \<noteq> []) ''sts:RoleSessionName'' [wi_RoleSessionName w] m6)"

definition AssumeRoleWithWebIdentityAction :: string where
  "AssumeRoleWithWebIdentityAction = ''sts:AssumeRoleWithWebIdentity''"

definition federatedPrincipals :: "json option \<Rightarrow> string list" where
  "federatedPrincipals raw =
     (case raw of
        None \<Rightarrow> []
      | Some j \<Rightarrow>
          (case unmarshal_principal j of
             None \<Rightarrow> []
           | Some pr \<Rightarrow> (case map_of pr ''Federated'' of None \<Rightarrow> [] | Some vs \<Rightarrow> vs)))"

text \<open>The variables of the loop.\<close>

record trust_state =
  ts_anyExistingPrincipal :: bool
  ts_anyIssuerMatch :: bool
  ts_allowed :: bool
  ts_denied :: bool
  ts_allowedProviderArn :: string

definition trust_principal ::
    "cond_host \<Rightarrow> (string \<Rightarrow> string option) \<Rightarrow> string \<Rightarrow> ctx_vars \<Rightarrow> string \<Rightarrow> IAM_Statement
      \<Rightarrow> string \<Rightarrow> trust_state \<Rightarrow> trust_state" where
  "trust_principal h lookup url ctxVars version stmt arn s =
     (case lookup arn of
        None \<Rightarrow> s
      | Some u \<Rightarrow>
          (let s1 = s\<lparr>ts_anyExistingPrincipal := True\<rparr> in
           if u \<noteq> url then s1
           else
             let s2 = s1\<lparr>ts_anyIssuerMatch := True\<rparr>;
                 (matched, condOk) = Evaluate h (st_Condition stmt) ctxVars version
             in if \<not> condOk then s2\<lparr>ts_denied := True\<rparr>
                else if \<not> matched then s2
                else if st_Effect stmt = ''Deny'' then s2\<lparr>ts_denied := True\<rparr>
                else s2\<lparr>ts_allowed := True, ts_allowedProviderArn := arn\<rparr>))"

definition trust_statement ::
    "cond_host \<Rightarrow> (string \<Rightarrow> string option) \<Rightarrow> string \<Rightarrow> ctx_vars \<Rightarrow> string \<Rightarrow> IAM_Statement
      \<Rightarrow> trust_state \<Rightarrow> trust_state" where
  "trust_statement h lookup url ctxVars version stmt s =
     (if st_Effect stmt \<noteq> ''Allow'' \<and> st_Effect stmt \<noteq> ''Deny'' then s
      else if \<not> statementCoversAction stmt AssumeRoleWithWebIdentityAction then s
      else fold (trust_principal h lookup url ctxVars version stmt) (federatedPrincipals (st_Principal stmt)) s)"

definition EvaluateWebIdentityTrust ::
    "cond_host \<Rightarrow> json_bytes \<Rightarrow> (string \<Rightarrow> string option) \<Rightarrow> WebIdentityContext \<Rightarrow> WebIdentityMatch \<times> string" where
  "EvaluateWebIdentityTrust h document lookup wctx =
     (case Document_UnmarshalJSON document of
        None \<Rightarrow> (NoPrincipal, [])
      | Some doc \<Rightarrow>
          if Document_ValidateTrust doc \<noteq> None then (NoPrincipal, [])
          else
            let s = fold (trust_statement h lookup (wi_ProviderURL wctx) (wi_conditionContext wctx) (doc_Version doc))
                      (doc_Statement doc)
                      \<lparr>ts_anyExistingPrincipal = False, ts_anyIssuerMatch = False, ts_allowed = False,
                       ts_denied = False, ts_allowedProviderArn = []\<rparr>
            in if ts_denied s then (ExplicitlyDenied, [])
               else if ts_allowed s then (Allowed, ts_allowedProviderArn s)
               else if ts_anyIssuerMatch s then (ConditionFailed, [])
               else if ts_anyExistingPrincipal s then (NoIssuerMatch, [])
               else (NoPrincipal, []))"

section \<open>Facts about identity policies\<close>

lemma first_error_None [simp]: "first_error f xs = None \<longleftrightarrow> (\<forall>x \<in> set xs. f x = None)"
  by (induction xs) (auto split: option.splits)

lemma or_else_None [simp]: "or_else a b = None \<longleftrightarrow> a = None \<and> b = None"
  by (simp add: or_else_def split: option.splits)

lemma statements_loop_all:
  "statements_loop check dup ss seen = None \<Longrightarrow> s \<in> set ss \<Longrightarrow> check s = None"
  by (induction ss arbitrary: seen) (auto split: option.splits if_splits)

text \<open>Whether a statement is about the request, and what it then says.\<close>

definition concerns :: "RequestContext \<Rightarrow> string \<Rightarrow> IAM_Statement \<Rightarrow> bool" where
  "concerns req version st \<longleftrightarrow> (st_Effect st = ''Allow'' \<or> st_Effect st = ''Deny'')
     \<and> statementCoversAction st (rc_Action req)
     \<and> statementCoversResource st (rc_Resource req) (rc_Condition req) version"

definition st_denies :: "cond_host \<Rightarrow> RequestContext \<Rightarrow> string \<Rightarrow> IAM_Statement \<Rightarrow> bool" where
  "st_denies h req version st \<longleftrightarrow> concerns req version st
     \<and> (case Evaluate h (st_Condition st) (rc_Condition req) version of
          (matched, ok) \<Rightarrow> \<not> ok \<or> matched \<and> st_Effect st = ''Deny'')"

definition st_allows :: "cond_host \<Rightarrow> RequestContext \<Rightarrow> string \<Rightarrow> IAM_Statement \<Rightarrow> bool" where
  "st_allows h req version st \<longleftrightarrow> concerns req version st \<and> st_Effect st = ''Allow''
     \<and> Evaluate h (st_Condition st) (rc_Condition req) version = (True, True)"

lemma identity_statements_step:
  "identity_statements h req version (st # sts) allowed =
     (if st_denies h req version st then None
      else identity_statements h req version sts (allowed \<or> st_allows h req version st))"
  by (cases "Evaluate h (st_Condition st) (rc_Condition req) version")
    (auto simp: st_denies_def st_allows_def concerns_def)

lemma identity_statements_spec:
  "identity_statements h req version sts allowed =
     (if \<exists>st \<in> set sts. st_denies h req version st then None
      else Some (allowed \<or> (\<exists>st \<in> set sts. st_allows h req version st)))"
  by (induction sts arbitrary: allowed)
    (auto simp: identity_statements_step simp del: identity_statements.simps(2))

text \<open>A document denies when it cannot be read or is not valid, or when a statement denies.\<close>

definition doc_denies :: "cond_host \<Rightarrow> RequestContext \<Rightarrow> json_bytes \<Rightarrow> bool" where
  "doc_denies h req raw = (case Document_UnmarshalJSON raw of
     None \<Rightarrow> True
   | Some d \<Rightarrow> IAM_Document_Validate d \<noteq> None \<or> (\<exists>st \<in> set (doc_Statement d). st_denies h req (doc_Version d) st))"

definition doc_allows :: "cond_host \<Rightarrow> RequestContext \<Rightarrow> json_bytes \<Rightarrow> bool" where
  "doc_allows h req raw = (case Document_UnmarshalJSON raw of
     None \<Rightarrow> False
   | Some d \<Rightarrow> \<exists>st \<in> set (doc_Statement d). st_allows h req (doc_Version d) st)"

lemma identity_documents_step:
  "identity_documents h req (raw # raws) allowed =
     (if doc_denies h req raw then None else identity_documents h req raws (allowed \<or> doc_allows h req raw))"
  by (simp add: doc_denies_def doc_allows_def identity_statements_spec split: option.split)

lemma identity_documents_spec:
  "identity_documents h req raws allowed =
     (if \<exists>raw \<in> set raws. doc_denies h req raw then None
      else Some (allowed \<or> (\<exists>raw \<in> set raws. doc_allows h req raw)))"
  by (induction raws arbitrary: allowed)
    (auto simp: identity_documents_step simp del: identity_documents.simps(2))

text \<open>
  C6. Identity policies decide independently of the order of documents and statements: a document
  that cannot be evaluated or holds a matching Deny denies, else a matching Allow allows, else
  there is no match.
\<close>

theorem EvaluateIdentityPolicies_spec:
  "EvaluateIdentityPolicies h documents req =
     (if \<exists>raw \<in> set documents. doc_denies h req raw then DecisionDeny
      else if \<exists>raw \<in> set documents. doc_allows h req raw then DecisionAllow
      else DecisionNoMatch)"
  by (simp add: EvaluateIdentityPolicies_def identity_documents_spec)

lemma accepted_statement_evaluable:
  assumes "IAM_Document_Validate d = None" "st \<in> set (doc_Statement d)"
  shows "snd (Evaluate h (st_Condition st) ctxVars version)"
proof -
  from assms(1) have "statements_loop IAM_Statement_Validate
      (malformed_doc ''Statement IDs (SID) in a single policy must be unique.'') (doc_Statement d) {} = None"
    by (simp add: IAM_Document_Validate_def split: if_split_asm)
  from statements_loop_all [OF this assms(2)] have "ShapeValid (st_Condition st)"
    by (simp add: IAM_Statement_Validate_def split: if_split_asm)
  then show ?thesis by (simp add: Evaluate_ok ShapeValid_def)
qed

text \<open>
  C27. For documents the service accepted, a deny is never the failure of an evaluation: some
  statement with the effect Deny covers action and resource and its condition holds.
\<close>

theorem accepted_documents_deny_explicitly:
  assumes "\<forall>raw \<in> set documents. IAM_Parse raw = None"
    and "EvaluateIdentityPolicies h documents req = DecisionDeny"
  shows "\<exists>raw \<in> set documents. \<exists>d st. Document_UnmarshalJSON raw = Some d \<and> st \<in> set (doc_Statement d)
    \<and> st_Effect st = ''Deny'' \<and> concerns req (doc_Version d) st
    \<and> Evaluate h (st_Condition st) (rc_Condition req) (doc_Version d) = (True, True)"
proof -
  from assms(2) obtain raw where raw: "raw \<in> set documents" "doc_denies h req raw"
    unfolding EvaluateIdentityPolicies_def identity_documents_spec by (auto split: if_split_asm)
  with assms(1) obtain d where d: "Document_UnmarshalJSON raw = Some d" "IAM_Document_Validate d = None"
    by (fastforce simp: IAM_Parse_def split: option.splits)
  with raw(2) obtain st where st: "st \<in> set (doc_Statement d)" "st_denies h req (doc_Version d) st"
    by (auto simp: doc_denies_def)
  obtain m ok where e: "Evaluate h (st_Condition st) (rc_Condition req) (doc_Version d) = (m, ok)" by fastforce
  with accepted_statement_evaluable [OF d(2) st(1), of h "rc_Condition req" "doc_Version d"] have ok by simp
  with st(2) e have "m \<and> st_Effect st = ''Deny'' \<and> concerns req (doc_Version d) st"
    unfolding st_denies_def e by simp
  moreover from this \<open>ok\<close> e
  have "Evaluate h (st_Condition st) (rc_Condition req) (doc_Version d) = (True, True)" by simp
  ultimately show ?thesis using raw(1) d(1) st(1) by blast
qed

definition guard_document :: json where
  "guard_document = JObj [(''Version'', JStr ''2012-10-17''), (''Statement'', JArr
     [JObj [(''Effect'', JStr ''Allow''), (''Action'', JStr ''s3:*''), (''Resource'', JStr ''*'')],
      JObj [(''Effect'', JStr ''Deny''), (''Action'', JStr ''s3:GetObject''), (''Resource'', JStr ''arn:aws:s3:::b/k'')]])]"

definition read_k :: RequestContext where
  "read_k = \<lparr>rc_Action = ''s3:GetObject'', rc_Resource = ''arn:aws:s3:::b/k'', rc_Condition = []\<rparr>"

definition no_host :: cond_host where
  "no_host = \<lparr>ParseFloat = (\<lambda>_. None), ParseTime = (\<lambda>_ _. None), UnixFloat = (\<lambda>_. 0),
     ParseIP = (\<lambda>_. None), IsIPv4 = (\<lambda>_. False), ParseCIDR = (\<lambda>_. None)\<rparr>"

theorem accepted_documents_deny_explicitly_witness:
  "\<exists>raw \<in> set [Some guard_document]. \<exists>d st. Document_UnmarshalJSON raw = Some d \<and> st \<in> set (doc_Statement d)
    \<and> st_Effect st = ''Deny'' \<and> concerns read_k (doc_Version d) st
    \<and> Evaluate no_host (st_Condition st) (rc_Condition read_k) (doc_Version d) = (True, True)"
proof (rule accepted_documents_deny_explicitly)
  have "IAM_Parse (Some guard_document) = None" by code_simp
  then show "\<forall>raw \<in> set [Some guard_document]. IAM_Parse raw = None" by simp
  show "EvaluateIdentityPolicies no_host [Some guard_document] read_k = DecisionDeny" by code_simp
qed

text \<open>
  Duplicate members are looked for with their exact spelling, while decoding ignores case: a
  statement with Effect Deny and, after it, effect Allow is accepted and allows.
\<close>

definition twice_effect_document :: json where
  "twice_effect_document = JObj [(''Statement'', JArr
     [JObj [(''Effect'', JStr ''Deny''), (''effect'', JStr ''Allow''),
            (''Action'', JStr ''s3:GetObject''), (''Resource'', JStr ''arn:aws:s3:::b/k'')]])]"

theorem duplicate_effect_accepted:
  "IAM_Parse (Some twice_effect_document) = None
   \<and> EvaluateIdentityPolicies no_host [Some twice_effect_document] read_k = DecisionAllow"
  by (intro conjI) code_simp+

section \<open>Facts about trust policies\<close>

text \<open>The statements that can admit the request, each with its federated principals.\<close>

definition trust_pairs :: "IAM_Document \<Rightarrow> (IAM_Statement \<times> string) list" where
  "trust_pairs doc = concat (map (\<lambda>st. map (Pair st) (federatedPrincipals (st_Principal st)))
     (filter (\<lambda>st. (st_Effect st = ''Allow'' \<or> st_Effect st = ''Deny'')
        \<and> statementCoversAction st AssumeRoleWithWebIdentityAction) (doc_Statement doc)))"

definition pair_matches ::
    "cond_host \<Rightarrow> (string \<Rightarrow> string option) \<Rightarrow> WebIdentityContext \<Rightarrow> string \<Rightarrow> IAM_Statement \<times> string \<Rightarrow> bool" where
  "pair_matches h lookup wctx version = (\<lambda>(st, arn). lookup arn = Some (wi_ProviderURL wctx)
     \<and> Evaluate h (st_Condition st) (wi_conditionContext wctx) version = (True, True))"

lemma fold_statements_pairs:
  "fold (trust_statement h lookup url ctxVars version) sts s =
     fold (\<lambda>(st, arn). trust_principal h lookup url ctxVars version st arn)
       (trust_pairs \<lparr>doc_Version = version, doc_Statement = sts\<rparr>) s"
  by (induction sts arbitrary: s)
    (simp_all add: trust_pairs_def trust_statement_def fold_map comp_def)

text \<open>An invariant of the loop: what is recorded as allowed was matched by an Allow.\<close>

definition trust_inv :: "(IAM_Statement \<times> string \<Rightarrow> bool) \<Rightarrow> (IAM_Statement \<times> string) set \<Rightarrow> trust_state \<Rightarrow> bool" where
  "trust_inv m ps s \<longleftrightarrow> (ts_allowed s \<longrightarrow> (\<exists>st. (st, ts_allowedProviderArn s) \<in> ps
     \<and> m (st, ts_allowedProviderArn s) \<and> st_Effect st \<noteq> ''Deny''))"

lemma trust_principal_inv:
  assumes "trust_inv (pair_matches h lookup wctx version) ps s" "(st, arn) \<in> ps"
  shows "trust_inv (pair_matches h lookup wctx version) ps
    (trust_principal h lookup (wi_ProviderURL wctx) (wi_conditionContext wctx) version st arn s)"
proof (cases "Evaluate h (st_Condition st) (wi_conditionContext wctx) version")
  case (Pair m ok)
  with assms show ?thesis
    by (auto simp: trust_inv_def trust_principal_def pair_matches_def Let_def split: option.split)
qed

lemma trust_fold_inv:
  assumes "set qs \<subseteq> ps" "trust_inv (pair_matches h lookup wctx version) ps s"
  shows "trust_inv (pair_matches h lookup wctx version) ps
    (fold (\<lambda>(st, arn). trust_principal h lookup (wi_ProviderURL wctx) (wi_conditionContext wctx) version st arn) qs s)"
  using assms by (induction qs arbitrary: s) (auto intro!: trust_principal_inv)

lemma trust_principal_denied_mono:
  "ts_denied s \<Longrightarrow> ts_denied (trust_principal h lookup url ctxVars version st arn s)"
  by (cases "Evaluate h (st_Condition st) ctxVars version")
    (simp add: trust_principal_def Let_def split: option.split)

lemma trust_fold_denied_mono:
  "ts_denied s \<Longrightarrow> ts_denied (fold (\<lambda>(st, arn). trust_principal h lookup url ctxVars version st arn) qs s)"
  by (induction qs arbitrary: s) (auto intro: trust_principal_denied_mono)

lemma trust_fold_denied:
  assumes "(st, arn) \<in> set qs" "lookup arn = Some url" "st_Effect st = ''Deny''"
    and "Evaluate h (st_Condition st) ctxVars version = (True, True)"
  shows "ts_denied (fold (\<lambda>(st, arn). trust_principal h lookup url ctxVars version st arn) qs s)"
  using assms(1)
proof (induction qs arbitrary: s)
  case (Cons q qs)
  show ?case
  proof (cases "q = (st, arn)")
    case True
    have "ts_denied (trust_principal h lookup url ctxVars version st arn s)"
      using assms(2-4) by (simp add: trust_principal_def)
    with True show ?thesis by (simp add: trust_fold_denied_mono)
  next
    case False
    with Cons.prems have "(st, arn) \<in> set qs" by auto
    from Cons.IH [OF this] show ?thesis by simp
  qed
qed simp

lemma accepted_trust_statement:
  assumes "Document_ValidateTrust d = None" "st \<in> set (doc_Statement d)"
  shows "Statement_ValidateTrust st = None"
proof -
  from assms(1) have "statements_loop Statement_ValidateTrust
      (malformed_doc ''The Statement Ids in the policy are not unique'') (doc_Statement d) {} = None"
    by (simp add: Document_ValidateTrust_def split: if_split_asm)
  from statements_loop_all [OF this assms(2)] show ?thesis .
qed

lemma accepted_trust_scopes:
  assumes "Statement_ValidateTrust st = None" "arn \<in> set (federatedPrincipals (st_Principal st))"
  shows "check_federated st arn = None"
proof -
  from assms(1) have "validateTrustPrincipal st = None"
    by (simp add: Statement_ValidateTrust_def split: if_split_asm)
  with assms(2) show ?thesis
    by (auto simp: validateTrustPrincipal_def federatedPrincipals_def validateSharedProviderTenancy_def
        split: option.splits if_split_asm)
qed

text \<open>
  C26. A web identity is admitted only by a valid trust policy with an Allow for the action whose
  federated principal is the registered provider of the token and whose condition holds, and
  not if a Deny matches as well. Where that principal is one of the shared providers, the
  statement scopes the claim required for it.
\<close>

theorem web_identity_allowed:
  assumes "EvaluateWebIdentityTrust h document lookup wctx = (Allowed, arn)"
  shows "\<exists>doc st. Document_UnmarshalJSON document = Some doc \<and> (st, arn) \<in> set (trust_pairs doc)
    \<and> pair_matches h lookup wctx (doc_Version doc) (st, arn) \<and> st_Effect st = ''Allow''
    \<and> (\<forall>url claim. arn \<noteq> cognitoFederatedProvider \<and> oidcProviderURLFromFederatedArn arn = Some url
         \<and> url \<noteq> azureSentinelProviderURL \<and> map_of sharedOIDCProviderRequiredClaim url = Some claim
         \<longrightarrow> conditionScopesClaim (st_Condition st) (url @ '':'' @ claim))
    \<and> (\<forall>q \<in> set (trust_pairs doc). pair_matches h lookup wctx (doc_Version doc) q \<longrightarrow> st_Effect (fst q) \<noteq> ''Deny'')"
proof -
  from assms obtain doc where doc: "Document_UnmarshalJSON document = Some doc" "Document_ValidateTrust doc = None"
    by (auto simp: EvaluateWebIdentityTrust_def split: option.splits if_split_asm)
  define s0 where "s0 = \<lparr>ts_anyExistingPrincipal = False, ts_anyIssuerMatch = False, ts_allowed = False,
    ts_denied = False, ts_allowedProviderArn = []\<rparr>"
  define s where "s = fold (\<lambda>(st, arn). trust_principal h lookup (wi_ProviderURL wctx)
    (wi_conditionContext wctx) (doc_Version doc) st arn) (trust_pairs doc) s0"
  have "fold (trust_statement h lookup (wi_ProviderURL wctx) (wi_conditionContext wctx) (doc_Version doc))
      (doc_Statement doc) s0 = s"
    by (simp add: fold_statements_pairs s_def trust_pairs_def)
  with assms doc have s: "\<not> ts_denied s" "ts_allowed s" "ts_allowedProviderArn s = arn"
    by (auto simp: EvaluateWebIdentityTrust_def Let_def s0_def split: if_split_asm)
  have "trust_inv (pair_matches h lookup wctx (doc_Version doc)) (set (trust_pairs doc)) s"
    unfolding s_def by (rule trust_fold_inv) (simp_all add: trust_inv_def s0_def)
  with s(2,3) obtain st where st: "(st, arn) \<in> set (trust_pairs doc)"
    "pair_matches h lookup wctx (doc_Version doc) (st, arn)" "st_Effect st \<noteq> ''Deny''"
    by (auto simp: trust_inv_def)
  from st(1) have mem: "st \<in> set (doc_Statement doc)" "arn \<in> set (federatedPrincipals (st_Principal st))"
    and eff: "st_Effect st = ''Allow'' \<or> st_Effect st = ''Deny''"
    unfolding trust_pairs_def by auto
  have "check_federated st arn = None"
    by (rule accepted_trust_scopes [OF accepted_trust_statement [OF doc(2) mem(1)] mem(2)])
  then have scoped: "conditionScopesClaim (st_Condition st) (url @ '':'' @ claim)"
    if "arn \<noteq> cognitoFederatedProvider \<and> oidcProviderURLFromFederatedArn arn = Some url
      \<and> url \<noteq> azureSentinelProviderURL \<and> map_of sharedOIDCProviderRequiredClaim url = Some claim" for url claim
    using that by (simp add: check_federated_def split: if_split_asm)
  have "st_Effect (fst q) \<noteq> ''Deny''"
    if "q \<in> set (trust_pairs doc)" "pair_matches h lookup wctx (doc_Version doc) q" for q
    using that s(1) trust_fold_denied [of "fst q" "snd q" "trust_pairs doc"]
    by (auto simp: pair_matches_def s_def)
  with doc(1) st eff scoped show ?thesis by blast
qed

text \<open>A trust policy for a shared provider that lists a wildcard next to the scoped value.\<close>

definition github_arn :: string where
  "github_arn = ''arn:aws:iam::1:oidc-provider/token.actions.githubusercontent.com''"

definition wildcard_trust :: json where
  "wildcard_trust = JObj [(''Statement'', JObj
     [(''Effect'', JStr ''Allow''), (''Principal'', JObj [(''Federated'', JStr github_arn)]),
      (''Action'', JStr ''sts:AssumeRoleWithWebIdentity''),
      (''Condition'', JObj [(''StringLike'', JObj [(''token.actions.githubusercontent.com:sub'',
         JArr [JStr ''*'', JStr ''repo:mine/app''])])])])]"

definition github_lookup :: "string \<Rightarrow> string option" where
  "github_lookup a = (if a = github_arn then Some ''token.actions.githubusercontent.com'' else None)"

definition foreign_token :: WebIdentityContext where
  "foreign_token = \<lparr>wi_ProviderURL = ''token.actions.githubusercontent.com'', wi_Audience = ''sts.amazonaws.com'',
     wi_OriginalAudience = [], wi_Subject = ''repo:other/app'', wi_Claims = [], wi_SourceIP = [],
     wi_Secure = True, wi_Now = None, wi_RoleSessionName = ''s''\<rparr>"

lemma foreign_token_allowed:
  "EvaluateWebIdentityTrust no_host (Some wildcard_trust) github_lookup foreign_token = (Allowed, github_arn)"
  by code_simp

theorem web_identity_allowed_witness:
  "\<exists>doc st. Document_UnmarshalJSON (Some wildcard_trust) = Some doc \<and> (st, github_arn) \<in> set (trust_pairs doc)
    \<and> pair_matches no_host github_lookup foreign_token (doc_Version doc) (st, github_arn) \<and> st_Effect st = ''Allow''"
  using web_identity_allowed [OF foreign_token_allowed] by blast

text \<open>
  One scoped value is enough for a trust policy of a shared provider to be accepted, although
  the values of a condition are alternatives: with a wildcard among them the token of another
  tenant is admitted.
\<close>

theorem wildcard_beside_scoped_value:
  "ParseTrust (Some wildcard_trust) = None
   \<and> EvaluateWebIdentityTrust no_host (Some wildcard_trust) github_lookup foreign_token = (Allowed, github_arn)"
  using foreign_token_allowed by (intro conjI) (code_simp, assumption)

end
