(* ===== verification/Standalone_IAM.thy ===== *)
theory Standalone_IAM
  imports Access_Control Identity_Policy
begin

text \<open>
  The standalone IAM service as the gateway uses it: how the service resolves a credential
  (iamapi/internal/iamutil/identity.go), builds the condition context and authorizes
  (iamapi/internal/iammiddleware/policy.go, iamapi/private), and how the gateway turns its
  answer into a policy evaluation (auth/iam_standalone.go). The transport between the two, JSON
  over a signed HTTP request, is taken to deliver request and answer unchanged.
\<close>

section \<open>Identities\<close>

text \<open>The fields the modelled code reads. A policy document is given as its JSON text.\<close>

record AccessKeyEntry =
  ak_AccessKeyId :: string
  ak_SecretAccessKey :: string
  ak_Status :: string

record IAM_User =
  usr_UserName :: string
  usr_UserID :: string
  usr_Arn :: string
  usr_Tags :: "(string \<times> string) list"
  usr_AccessKeys :: "AccessKeyEntry list"
  usr_Inline :: "json_bytes list"

record IAM_Role =
  role_RoleID :: string
  role_Arn :: string
  role_Tags :: "(string \<times> string) list"
  role_Inline :: "json_bytes list"

text \<open>\<open>None\<close> as a session policy is the empty string.\<close>

record IAM_Session =
  ses_SecretAccessKey :: string
  ses_SessionToken :: string
  ses_RoleArn :: string
  ses_RoleName :: string
  ses_RoleID :: string
  ses_RoleSessionName :: string
  ses_Policy :: "json_bytes option"

record Identity =
  idn_User :: "IAM_User option"
  idn_Role :: "IAM_Role option"
  idn_Session :: "IAM_Session option"
  idn_IdentityPolicies :: "json_bytes list"
  idn_SessionPolicy :: "json_bytes option"

text \<open>The store behind the service; any error of a look-up is treated as not found.\<close>

record IdentityStore =
  is_GetSession :: "string \<Rightarrow> IAM_Session option"
  is_GetRole :: "string \<Rightarrow> IAM_Role option"
  is_GetUserByAccessKeyID :: "string \<Rightarrow> IAM_User option"

datatype resolve_error = ErrIdentityNotFound | ErrInvalidToken

definition IsTempAccessKeyID :: "string \<Rightarrow> bool" where
  "IsTempAccessKeyID accessKeyID = HasPrefix accessKeyID ''ASIA''"

definition SecureCompare :: "string \<Rightarrow> string \<Rightarrow> bool" where
  "SecureCompare a b = (if length a \<noteq> length b then False else a = b)"

definition AccessKeyStatusActive :: string where
  "AccessKeyStatusActive = ''Active''"

definition ResolveSessionByToken :: "IdentityStore \<Rightarrow> string \<Rightarrow> string \<Rightarrow> (resolve_error, Identity \<times> string) result" where
  "ResolveSessionByToken store accessKeyID token =
     (if token = [] then Inl ErrIdentityNotFound
      else case is_GetSession store accessKeyID of
          None \<Rightarrow> Inl ErrIdentityNotFound
        | Some session \<Rightarrow>
            if \<not> SecureCompare token (ses_SessionToken session) then Inl ErrInvalidToken
            else
              let identity = \<lparr>idn_User = None, idn_Role = None, idn_Session = Some session,
                    idn_IdentityPolicies = [], idn_SessionPolicy = ses_Policy session\<rparr>;
                  identity' = (case is_GetRole store (ses_RoleName session) of
                      None \<Rightarrow> identity
                    | Some role \<Rightarrow>
                        if role_RoleID role = ses_RoleID session \<and> role_Arn role = ses_RoleArn session
                        then identity\<lparr>idn_Role := Some role, idn_IdentityPolicies := role_Inline role\<rparr>
                        else identity)
              in Inr (identity', ses_SecretAccessKey session))"

definition ResolveUserIdentity :: "IdentityStore \<Rightarrow> string \<Rightarrow> (resolve_error, Identity \<times> string) result" where
  "ResolveUserIdentity store accessKeyID =
     (if IsTempAccessKeyID accessKeyID then Inl ErrInvalidToken
      else case is_GetUserByAccessKeyID store accessKeyID of
          None \<Rightarrow> Inl ErrIdentityNotFound
        | Some user \<Rightarrow>
            (case find (\<lambda>k. ak_AccessKeyId k = accessKeyID) (usr_AccessKeys user) of
               None \<Rightarrow> Inl ErrIdentityNotFound
             | Some keyEntry \<Rightarrow>
                 if ak_Status keyEntry \<noteq> AccessKeyStatusActive then Inl ErrIdentityNotFound
                 else Inr (\<lparr>idn_User = Some user, idn_Role = None, idn_Session = None,
                            idn_IdentityPolicies = usr_Inline user, idn_SessionPolicy = None\<rparr>,
                           ak_SecretAccessKey keyEntry)))"

definition resolvePrivateIdentity ::
    "IdentityStore \<Rightarrow> string \<Rightarrow> string \<Rightarrow> (resolve_error, Identity \<times> string) result" where
  "resolvePrivateIdentity store accessKeyID sessionToken =
     (if IsTempAccessKeyID accessKeyID then ResolveSessionByToken store accessKeyID sessionToken
      else if sessionToken \<noteq> [] then Inl ErrInvalidToken
      else ResolveUserIdentity store accessKeyID)"

section \<open>The condition context\<close>

definition DefaultAccountID :: string where
  "DefaultAccountID = ''000000000000''"

definition BuildAssumedRoleArn :: "string \<Rightarrow> string \<Rightarrow> string \<Rightarrow> string" where
  "BuildAssumedRoleArn accountID roleName roleSessionName =
     ''arn:aws:sts::'' @ accountID @ '':assumed-role/'' @ roleName @ ''/'' @ roleSessionName"

definition CallerArn :: "Identity \<Rightarrow> string" where
  "CallerArn identity =
     (case idn_Session identity of
        Some session \<Rightarrow> BuildAssumedRoleArn DefaultAccountID (ses_RoleName session) (ses_RoleSessionName session)
      | None \<Rightarrow> (case idn_User identity of Some user \<Rightarrow> usr_Arn user | None \<Rightarrow> []))"

definition addPrincipalTagContext :: "(string \<times> string) list \<Rightarrow> ctx_vars \<Rightarrow> ctx_vars" where
  "addPrincipalTagContext tags condCtx =
     fold (\<lambda>(k, v). AList.update (''aws:PrincipalTag/'' @ k) [v]) tags condCtx"

definition IdentityConditionContext :: "Identity \<Rightarrow> ctx_vars" where
  "IdentityConditionContext identity =
     (let arn = CallerArn identity;
          c1 = (if arn \<noteq> [] then
                  AList.update ''aws:PrincipalAccount'' [DefaultAccountID] (AList.update ''aws:PrincipalArn'' [arn] [])
                else [])
      in case idn_User identity of
           Some user \<Rightarrow>
             addPrincipalTagContext (usr_Tags user)
               (AList.update ''aws:userid'' [usr_UserID user]
                 (AList.update ''aws:username'' [usr_UserName user]
                   (AList.update ''aws:PrincipalType'' [''User''] c1)))
         | None \<Rightarrow>
             (case idn_Session identity of
                Some session \<Rightarrow>
                  let c2 = AList.update ''aws:userid'' [ses_RoleID session @ '':'' @ ses_RoleSessionName session]
                             (AList.update ''aws:PrincipalType'' [''AssumedRole''] c1)
                  in (case idn_Role identity of
                        None \<Rightarrow> c2 | Some role \<Rightarrow> addPrincipalTagContext (role_Tags role) c2)
              | None \<Rightarrow> c1))"

definition IdentityConditionKeyPrefixes :: "string list" where
  "IdentityConditionKeyPrefixes =
     [''aws:PrincipalArn'', ''aws:PrincipalAccount'', ''aws:PrincipalType'', ''aws:username'', ''aws:userid'',
      ''aws:PrincipalTag/'', ''aws:ResourceTag/'', ''iam:ResourceTag/'', ''aws:RequestTag/'', ''aws:TagKeys'']"

definition isIdentityConditionKey :: "string \<Rightarrow> bool" where
  "isIdentityConditionKey key \<longleftrightarrow>
     list_ex (\<lambda>pre. EqualFold key pre
       \<or> (suffix ''/'' pre \<and> length key > length pre \<and> EqualFold (take (length pre) key) pre))
       IdentityConditionKeyPrefixes"

definition conditionContextFor :: "Identity \<Rightarrow> ctx_vars \<Rightarrow> ctx_vars" where
  "conditionContextFor identity requestKeys =
     fold (\<lambda>(k, v). AList.update k v) (IdentityConditionContext identity)
       (filter (\<lambda>(k, v). \<not> isIdentityConditionKey k) requestKeys)"

section \<open>Authorization in the service\<close>

definition AuthorizeSplit :: "cond_host \<Rightarrow> Identity \<Rightarrow> RequestContext \<Rightarrow> Decision \<times> Decision \<times> bool" where
  "AuthorizeSplit h identity reqCtx =
     (let identityDecision = EvaluateIdentityPolicies h (idn_IdentityPolicies identity) reqCtx in
      case (idn_Session identity, idn_SessionPolicy identity) of
        (Some _, Some pol) \<Rightarrow> (identityDecision, EvaluateIdentityPolicies h [pol] reqCtx, True)
      | _ \<Rightarrow> (identityDecision, DecisionNoMatch, False))"

definition Authorize :: "cond_host \<Rightarrow> Identity \<Rightarrow> RequestContext \<Rightarrow> Decision" where
  "Authorize h identity reqCtx =
     (let (d, sd, hasSessionPolicy) = AuthorizeSplit h identity reqCtx in
      if d = DecisionDeny then DecisionDeny
      else if \<not> hasSessionPolicy then d
      else if sd = DecisionDeny then DecisionDeny
      else if d \<noteq> DecisionAllow \<or> sd \<noteq> DecisionAllow then DecisionNoMatch
      else DecisionAllow)"

definition decisionWireValue :: "Decision \<Rightarrow> string" where
  "decisionWireValue d =
     (case d of DecisionAllow \<Rightarrow> ''allow'' | DecisionDeny \<Rightarrow> ''deny'' | DecisionNoMatch \<Rightarrow> ''no_match'')"

record EvaluatePolicyRequest =
  epr_AccessKeyID :: string
  epr_SessionToken :: string
  epr_Actions :: "string list"
  epr_Resources :: "string list"
  epr_Condition :: ctx_vars

record EvaluatePolicyResponse =
  eps_Decisions :: "string list list"
  eps_SessionDecisions :: "string list list"
  eps_HasSessionPolicy :: bool
  eps_PrincipalArn :: string

text \<open>The error codes of the protocol; \<open>mapResolveError\<close>.\<close>

definition mapResolveError :: "resolve_error \<Rightarrow> string" where
  "mapResolveError err =
     (case err of ErrIdentityNotFound \<Rightarrow> ''NoSuchIdentity'' | ErrInvalidToken \<Rightarrow> ''InvalidToken'')"

text \<open>
  \<open>handleEvaluatePolicy\<close>. Whether a session policy applied is taken from the last cell of the
  matrix, so it is reported as absent for an empty matrix.
\<close>

definition handleEvaluatePolicy ::
    "cond_host \<Rightarrow> IdentityStore \<Rightarrow> EvaluatePolicyRequest \<Rightarrow> (string, EvaluatePolicyResponse) result" where
  "handleEvaluatePolicy h store req =
     (case resolvePrivateIdentity store (epr_AccessKeyID req) (epr_SessionToken req) of
        Inl err \<Rightarrow> Inl (mapResolveError err)
      | Inr (identity, _) \<Rightarrow>
          (let condition = conditionContextFor identity (epr_Condition req);
               cell = (\<lambda>resource action. AuthorizeSplit h identity
                  \<lparr>rc_Action = action, rc_Resource = resource, rc_Condition = condition\<rparr>);
               matrix = map (\<lambda>resource. map (cell resource) (epr_Actions req)) (epr_Resources req);
               cells = concat matrix;
               hasSessionPolicy = (cells \<noteq> [] \<and> snd (snd (last cells)))
           in Inr \<lparr>eps_Decisions = map (map (\<lambda>(d, _, _). decisionWireValue d)) matrix,
                   eps_SessionDecisions =
                     (if hasSessionPolicy then map (map (\<lambda>(_, sd, _). decisionWireValue sd)) matrix else []),
                   eps_HasSessionPolicy = hasSessionPolicy,
                   eps_PrincipalArn = CallerArn identity\<rparr>))"

section \<open>The client in the gateway\<close>

definition standaloneResponseError :: "string \<Rightarrow> go_error" where
  "standaloneResponseError code =
     (if code = ''NoSuchIdentity'' then ErrNoSuchUser
      else if code = ''InvalidToken'' then ErrInvalidSessionToken
      else ErrorString ''iam standalone'')"

definition decisionFromWireValue :: "string \<Rightarrow> policyDecision" where
  "decisionFromWireValue v =
     (if v = ''allow'' then policyDecisionAllow
      else if v = ''no_match'' then policyDecisionNoMatch
      else policyDecisionDeny)"

definition decisionMatrixFromWire :: "string list list \<Rightarrow> nat \<Rightarrow> (go_error, policyDecision list list) result" where
  "decisionMatrixFromWire rows actionCount =
     map_res (\<lambda>perAction.
       if length perAction \<noteq> actionCount then Inl (ErrorString ''iam standalone: evaluate-policy action decisions'')
       else Inr (map decisionFromWireValue perAction)) rows"

definition standalone_EvaluatePolicy ::
    "(EvaluatePolicyRequest \<Rightarrow> (string, EvaluatePolicyResponse) result) \<Rightarrow> PolicyEvaluator" where
  "standalone_EvaluatePolicy request access sessionToken acts resources condition =
     (case request \<lparr>epr_AccessKeyID = access, epr_SessionToken = sessionToken, epr_Actions = acts,
                    epr_Resources = resources, epr_Condition = condition\<rparr> of
        Inl code \<Rightarrow> Inl (standaloneResponseError code)
      | Inr resp \<Rightarrow>
          if length (eps_Decisions resp) \<noteq> length resources then
            Inl (ErrorString ''iam standalone: evaluate-policy resource decisions'')
          else bind_res (decisionMatrixFromWire (eps_Decisions resp) (length acts)) (\<lambda>decisions.
            if eps_HasSessionPolicy resp then
              (if length (eps_SessionDecisions resp) \<noteq> length resources then
                 Inl (ErrorString ''iam standalone: evaluate-policy session-decision rows'')
               else bind_res (decisionMatrixFromWire (eps_SessionDecisions resp) (length acts)) (\<lambda>sessionDecisions.
                 Inr \<lparr>Decisions = decisions, SessionDecisions = sessionDecisions, HasSessionPolicy = True,
                      PrincipalArn = eps_PrincipalArn resp\<rparr>))
            else Inr \<lparr>Decisions = decisions, SessionDecisions = [], HasSessionPolicy = False,
                      PrincipalArn = eps_PrincipalArn resp\<rparr>))"

section \<open>Identity keys cannot be set by a request\<close>




















definition alice_identity :: Identity where
  "alice_identity = \<lparr>idn_User = Some \<lparr>usr_UserName = ''alice'', usr_UserID = ''AIDA1'', usr_Arn = ''arn:aws:iam::1:user/alice'',
       usr_Tags = [], usr_AccessKeys = [\<lparr>ak_AccessKeyId = ''alice'', ak_SecretAccessKey = ''s'', ak_Status = ''Active''\<rparr>],
       usr_Inline = [Some guard_document]\<rparr>,
     idn_Role = None, idn_Session = None, idn_IdentityPolicies = [Some guard_document], idn_SessionPolicy = None\<rparr>"


section \<open>What the gateway grants\<close>

definition gateway_decision :: "Decision \<Rightarrow> policyDecision" where
  "gateway_decision d = (case d of DecisionAllow \<Rightarrow> policyDecisionAllow
     | DecisionDeny \<Rightarrow> policyDecisionDeny | DecisionNoMatch \<Rightarrow> policyDecisionNoMatch)"

lemma wire_decision: "decisionFromWireValue (decisionWireValue d) = gateway_decision d"
  by (cases d) (simp_all add: decisionFromWireValue_def decisionWireValue_def gateway_decision_def)

lemma gateway_decision_iff [simp]:
  "gateway_decision d = policyDecisionAllow \<longleftrightarrow> d = DecisionAllow"
  "gateway_decision d = policyDecisionDeny \<longleftrightarrow> d = DecisionDeny"
  "gateway_decision d = policyDecisionNoMatch \<longleftrightarrow> d = DecisionNoMatch"
  by (cases d; simp add: gateway_decision_def)+

lemma row_decision_gateway:
  "row_decision (map (\<lambda>a. gateway_decision (f a)) acts) = policyDecisionAllow \<longleftrightarrow> (\<forall>a \<in> set acts. f a = DecisionAllow)"
  "row_decision (map (\<lambda>a. gateway_decision (f a)) acts) = policyDecisionDeny \<longleftrightarrow> (\<exists>a \<in> set acts. f a = DecisionDeny)"
proof -
  have n: "policyDecisionNoMatch \<in> set (map (\<lambda>a. gateway_decision (f a)) acts) \<longleftrightarrow> (\<exists>a \<in> set acts. f a = DecisionNoMatch)"
    and d: "policyDecisionDeny \<in> set (map (\<lambda>a. gateway_decision (f a)) acts) \<longleftrightarrow> (\<exists>a \<in> set acts. f a = DecisionDeny)"
    by (force simp: eq_commute [of "policyDecisionNoMatch"] eq_commute [of "policyDecisionDeny"])+
  have allow: "f a = DecisionAllow \<longleftrightarrow> f a \<noteq> DecisionDeny \<and> f a \<noteq> DecisionNoMatch" for a by (cases "f a") simp_all
  show "row_decision (map (\<lambda>a. gateway_decision (f a)) acts) = policyDecisionAllow \<longleftrightarrow> (\<forall>a \<in> set acts. f a = DecisionAllow)"
    unfolding row_decision_def n d by (auto simp: allow)
  show "row_decision (map (\<lambda>a. gateway_decision (f a)) acts) = policyDecisionDeny \<longleftrightarrow> (\<exists>a \<in> set acts. f a = DecisionDeny)"
    unfolding row_decision_def n d by auto
qed

lemma decisionMatrixFromWire_row:
  "decisionMatrixFromWire [map f xs] (length xs) = Inr [map (\<lambda>x. decisionFromWireValue (f x)) xs]"
  by (simp add: decisionMatrixFromWire_def)

definition session_policy_of :: "Identity \<Rightarrow> json_bytes option" where
  "session_policy_of i = (if idn_Session i = None then None else idn_SessionPolicy i)"

lemma AuthorizeSplit_alt:
  "AuthorizeSplit h i c = (EvaluateIdentityPolicies h (idn_IdentityPolicies i) c,
     case session_policy_of i of None \<Rightarrow> DecisionNoMatch | Some pol \<Rightarrow> EvaluateIdentityPolicies h [pol] c,
     session_policy_of i \<noteq> None)"
  by (simp add: AuthorizeSplit_def session_policy_of_def Let_def split: option.split)

text \<open>The request the policies of an identity are evaluated on.\<close>

definition identity_request :: "Identity \<Rightarrow> string \<Rightarrow> ctx_vars \<Rightarrow> string \<Rightarrow> RequestContext" where
  "identity_request i resource cond action =
     \<lparr>rc_Action = action, rc_Resource = resource, rc_Condition = conditionContextFor i cond\<rparr>"

lemma standalone_single:
  assumes "resolvePrivateIdentity store access token = Inr (i, secret)" "acts \<noteq> []"
  shows "standalone_EvaluatePolicy (handleEvaluatePolicy h store) access token acts [r] cond =
    Inr \<lparr>Decisions = [map (\<lambda>a. gateway_decision (EvaluateIdentityPolicies h (idn_IdentityPolicies i)
        (identity_request i r cond a))) acts],
      SessionDecisions = (case session_policy_of i of None \<Rightarrow> []
        | Some pol \<Rightarrow> [map (\<lambda>a. gateway_decision (EvaluateIdentityPolicies h [pol] (identity_request i r cond a))) acts]),
      HasSessionPolicy = (session_policy_of i \<noteq> None), PrincipalArn = CallerArn i\<rparr>"
  using assms
  by (cases "session_policy_of i")
    (simp_all add: standalone_EvaluatePolicy_def handleEvaluatePolicy_def AuthorizeSplit_alt Let_def last_map
      comp_def decisionMatrixFromWire_row wire_decision identity_request_def)

text \<open>
  C5. With the standalone service a caller that is neither root nor an administrator gets through
  only when the credential resolves, no identity policy denies an action, an attached session
  policy allows every action, and the bucket or the identity policies allow the request.
\<close>

theorem standalone_access_sound:
  assumes "opt_Iam opts = Some (standalone_EvaluatePolicy (handleEvaluatePolicy h' store))"
    and "authorizationApplies opts" "opt_Actions opts \<noteq> []" "VerifyAccess h ctx be opts = None"
  shows "\<exists>i secret. resolvePrivateIdentity store (Access (opt_Acc opts)) (SessionToken (opt_Acc opts)) = Inr (i, secret)
    \<and> (let req = identity_request i
            (objectPolicyArn (opt_Bucket opts) (opt_Object opts) (Some (be_NormalizeObjectKey be))) (requestConditionContext ctx);
          decide = (\<lambda>docs a. EvaluateIdentityPolicies h' docs (req a))
       in (\<forall>a \<in> set (opt_Actions opts). decide (idn_IdentityPolicies i) a \<noteq> DecisionDeny)
        \<and> (\<forall>pol. session_policy_of i = Some pol \<longrightarrow> (\<forall>a \<in> set (opt_Actions opts). decide [pol] a = DecisionAllow))
        \<and> ((\<exists>rd. verifyResourceAccess h be opts [opt_Object opts] (requestConditionContext ctx) = Inr [rd]
               \<and> dfr_Decision rd = policyDecisionAllow)
           \<or> (\<forall>a \<in> set (opt_Actions opts). decide (idn_IdentityPolicies i) a = DecisionAllow)))"
proof -
  let ?pe = "standalone_EvaluatePolicy (handleEvaluatePolicy h' store)"
  let ?r = "objectPolicyArn (opt_Bucket opts) (opt_Object opts) (Some (be_NormalizeObjectKey be))"
  let ?res = "resolvePrivateIdentity store (Access (opt_Acc opts)) (SessionToken (opt_Acc opts))"
  from assms(2,4) have "key_granted h be opts (opt_Object opts) (requestConditionContext ctx)"
    by (simp add: VerifyAccess_None)
  then obtain rd eval where rd: "verifyResourceAccess h be opts [opt_Object opts] (requestConditionContext ctx) = Inr [rd]"
    and ev: "?pe (Access (opt_Acc opts)) (SessionToken (opt_Acc opts)) (opt_Actions opts) [?r]
        (requestConditionContext ctx) = Inr eval"
    and gr: "evaluation_grants eval (length (opt_Actions opts)) (dfr_Decision rd)"
    by (auto simp: key_granted_def assms(1))
  from ev obtain i secret where i: "?res = Inr (i, secret)"
    by (cases ?res) (auto simp: standalone_EvaluatePolicy_def handleEvaluatePolicy_def)
  note ev' = ev [unfolded standalone_single [OF i assms(3)]]
  from gr have "\<not> (\<exists>a \<in> set (opt_Actions opts). EvaluateIdentityPolicies h' (idn_IdentityPolicies i)
        (identity_request i ?r (requestConditionContext ctx) a) = DecisionDeny)"
    and "dfr_Decision rd = policyDecisionAllow \<or> (\<forall>a \<in> set (opt_Actions opts). EvaluateIdentityPolicies h'
        (idn_IdentityPolicies i) (identity_request i ?r (requestConditionContext ctx) a) = DecisionAllow)"
    and "session_policy_of i = Some pol \<Longrightarrow> \<forall>a \<in> set (opt_Actions opts). EvaluateIdentityPolicies h' [pol]
        (identity_request i ?r (requestConditionContext ctx) a) = DecisionAllow" for pol
    using ev' by (auto simp: evaluation_grants_def row_decision_gateway)
  with i rd show ?thesis unfolding Let_def by blast
qed

definition alice_store :: IdentityStore where
  "alice_store = \<lparr>is_GetSession = (\<lambda>_. None), is_GetRole = (\<lambda>_. None),
     is_GetUserByAccessKeyID = (\<lambda>k. if k = ''alice'' then idn_User alice_identity else None)\<rparr>"

lemma alice_resolves: "resolvePrivateIdentity alice_store ''alice'' [] = Inr (alice_identity, ''s'')"
  by code_simp

lemma alice_policies: "idn_IdentityPolicies alice_identity = [Some guard_document]" "session_policy_of alice_identity = None"
  by (simp_all add: alice_identity_def session_policy_of_def)

lemma alice_reads_x:
  "EvaluateIdentityPolicies no_host [Some guard_document]
     (identity_request alice_identity ''arn:aws:s3:::b/x'' (requestConditionContext demo_request) GetObjectAction) = DecisionAllow"
  by code_simp

theorem standalone_access_sound_witness:
  "VerifyAccess null_host demo_request (demo_backend None)
     (demo_opts ''x'' GetObjectAction (Some (standalone_EvaluatePolicy (handleEvaluatePolicy no_host alice_store)))) = None
   \<and> (\<exists>i secret. resolvePrivateIdentity alice_store ''alice'' [] = Inr (i, secret))"
proof -
  let ?pe = "standalone_EvaluatePolicy (handleEvaluatePolicy no_host alice_store)"
  let ?o = "demo_opts ''x'' GetObjectAction (Some ?pe)"
  have o': "opt_Iam ?o = Some ?pe" "opt_Actions ?o = [GetObjectAction]" "opt_Object ?o = ''x''" "opt_Bucket ?o = ''b''"
    "Access (opt_Acc ?o) = ''alice''" "SessionToken (opt_Acc ?o) = []"
    by (simp_all add: demo_opts_def zero_AccessOptions_def demo_user_def zero_Account_def)
  have g: "verifyAccessGates ?o = None" "authorizationApplies ?o"
    by (simp_all add: verifyAccessGates_def authorizationApplies_def demo_opts_def zero_AccessOptions_def
        demo_user_def RoleUser_def RoleAdmin_def)
  have arn: "objectPolicyArn ''b'' ''x'' (Some (be_NormalizeObjectKey (demo_backend None))) = ''arn:aws:s3:::b/x''"
    by code_simp
  have "\<exists>rd. verifyResourceAccess null_host (demo_backend None) ?o [''x''] (requestConditionContext demo_request) = Inr [rd]
      \<and> dfr_Decision rd = policyDecisionNoMatch"
    by (simp add: verifyResourceAccess_def demo_backend_def demo_opts_def zero_AccessOptions_def
        verifyACL_def zero_ACL_def)
  then have "key_granted null_host (demo_backend None) ?o ''x'' (requestConditionContext demo_request)"
    unfolding key_granted_def o' arn
    using standalone_single [OF alice_resolves, of "[GetObjectAction]" no_host "''arn:aws:s3:::b/x''"]
    by (auto simp: evaluation_grants_def row_decision_def alice_policies alice_reads_x gateway_decision_def)
  then have v: "VerifyAccess null_host demo_request (demo_backend None) ?o = None"
    using g o'(3) by (simp add: VerifyAccess_None)
  with standalone_access_sound [OF o'(1) g(2) _ v] o' show ?thesis by auto
qed

end
