(* ===== verification/IAM_Store.thy ===== *)
theory IAM_Store
  imports S3_Errors
begin

text \<open>
  The file store of the IAM services (internal/iamstore): reading with a short-lived cache and
  retries, updating by read, modify and rename, and migrating between the plain and the encrypted
  format. Byte strings are a type \<open>'b\<close>. The encrypted container, which the protector reads and
  writes through its key provider, and the digest are parameters. Files appear and change
  between the steps of this process, since other gateways share the directory.
\<close>

section \<open>Engine\<close>

record 'b protector =
  pr_Encode :: "'b \<Rightarrow> (go_error, 'b) result"
  pr_Decode :: "'b \<Rightarrow> (go_error, 'b) result"
  pr_Rewrap :: "'b \<Rightarrow> (go_error, 'b) result"

text \<open>\<open>eng_empty\<close> is the empty byte slice, \<open>eng_IsEncrypted\<close> the test for the container format.\<close>

record ('b, 'd) Engine =
  eng_protector :: "'b protector option"
  eng_requireEncryption :: bool
  eng_IsEncrypted :: "'b \<Rightarrow> bool"
  eng_digest :: "'b \<Rightarrow> 'd"
  eng_empty :: 'b

record ('b, 'd) store_cache =
  c_digest :: 'd
  c_validated :: int
  c_plaintext :: 'b
  c_valid :: bool

text \<open>What \<open>os.ReadFile\<close> returns.\<close>

datatype 'b read_result = NotExist | ReadError go_error | Content 'b



definition ErrPlaintextStore :: go_error where
  "ErrPlaintextStore = ErrorString ''iam store is not encrypted''"

definition ErrMissingProtector :: go_error where
  "ErrMissingProtector = ErrorString ''iam store is encrypted but no encryption key is configured''"

definition decode :: "('b, 'd) Engine \<Rightarrow> 'b \<Rightarrow> (go_error, 'b) result" where
  "decode e raw =
     (if \<not> eng_IsEncrypted e raw then
        (if eng_requireEncryption e then Inl ErrPlaintextStore else Inr raw)
      else case eng_protector e of None \<Rightarrow> Inl ErrMissingProtector | Some p \<Rightarrow> pr_Decode p raw)"

definition encode :: "('b, 'd) Engine \<Rightarrow> 'b \<Rightarrow> bool \<Rightarrow> (go_error, 'b) result" where
  "encode e plaintext encrypt =
     (if \<not> encrypt then Inr plaintext
      else case eng_protector e of None \<Rightarrow> Inl ErrMissingProtector | Some p \<Rightarrow> pr_Encode p plaintext)"



definition cachePlaintext :: "int \<Rightarrow> 'd \<Rightarrow> 'b \<Rightarrow> ('b, 'd) store_cache" where
  "cachePlaintext now digest plaintext =
     \<lparr>c_digest = digest, c_validated = now, c_plaintext = plaintext, c_valid = True\<rparr>"

text \<open>The text and the digest are cleared too; nothing reads them while the cache is invalid.\<close>

definition invalidateCache :: "('b, 'd) store_cache \<Rightarrow> ('b, 'd) store_cache" where
  "invalidateCache c = c\<lparr>c_valid := False\<rparr>"

section \<open>Reading\<close>





section \<open>Writing\<close>

record 'b store_files =
  f_store :: "'b option"
  f_backup :: "'b option"

text \<open>
  What can go wrong with the files during one operation: reads that fail for another reason than
  a missing file, and writes that fail. An update is written to a temporary file and renamed, so
  it happens wholly or not at all.
\<close>

record io_faults =
  io_readStore :: "go_error option"
  io_readBackup :: "go_error option"
  io_writeStore :: "go_error option"
  io_writeBackup :: "go_error option"

definition read_file :: "go_error option \<Rightarrow> 'b option \<Rightarrow> 'b read_result" where
  "read_file fault content =
     (case fault of
        Some err \<Rightarrow> ReadError err
      | None \<Rightarrow> (case content of None \<Rightarrow> NotExist | Some raw \<Rightarrow> Content raw))"

definition reportFormat :: "('b, 'd) Engine \<Rightarrow> 'b \<Rightarrow> go_error option" where
  "reportFormat e raw =
     (if eng_IsEncrypted e raw then (if eng_protector e = None then Some ErrMissingProtector else None)
      else if eng_requireEncryption e then Some ErrPlaintextStore
      else None)"

text \<open>\<open>InitIAM\<close> with the JSON text of the default configuration.\<close>

definition InitIAM :: "('b, 'd) Engine \<Rightarrow> 'b \<Rightarrow> io_faults \<Rightarrow> 'b store_files \<Rightarrow> go_error option \<times> 'b store_files" where
  "InitIAM e defaultConfig io fs =
     (case read_file (io_readStore io) (f_store fs) of
        NotExist \<Rightarrow>
          (case encode e defaultConfig (eng_protector e \<noteq> None) of
             Inl err \<Rightarrow> (Some (Wrapped ''encrypt default iam: '' err), fs)
           | Inr out \<Rightarrow>
               (case io_writeStore io of
                  Some err \<Rightarrow> (Some (Wrapped ''write default iam: '' err), fs)
                | None \<Rightarrow> (None, fs\<lparr>f_store := Some out\<rparr>)))
      | ReadError err \<Rightarrow> (Some (Wrapped ''read iam file: '' err), fs)
      | Content raw \<Rightarrow> (reportFormat e raw, fs))"

text \<open>\<open>StoreIAM\<close> after the backup is written: \<open>raw\<close> is \<open>None\<close> when the file was missing.\<close>

definition store_updated ::
    "('b, 'd) Engine \<Rightarrow> int \<Rightarrow> ('b \<Rightarrow> (go_error, 'b) result) \<Rightarrow> io_faults \<Rightarrow> 'b option \<Rightarrow> 'b store_files
      \<Rightarrow> ('b, 'd) store_cache \<Rightarrow> go_error option \<times> 'b store_files \<times> ('b, 'd) store_cache" where
  "store_updated e now update io raw fs c =
     (let encrypt = (case raw of None \<Rightarrow> eng_protector e \<noteq> None | Some r \<Rightarrow> eng_IsEncrypted e r)
      in case (case raw of None \<Rightarrow> Inr (eng_empty e) | Some r \<Rightarrow> decode e r) of
           Inl err \<Rightarrow> (Some (Wrapped ''read iam data: '' err), fs, c)
         | Inr plaintext \<Rightarrow>
             (case update plaintext of
                Inl err \<Rightarrow> (Some (Wrapped ''update iam data: '' err), fs, c)
              | Inr updated \<Rightarrow>
                  (case encode e updated encrypt of
                     Inl err \<Rightarrow> (Some (Wrapped ''encrypt iam data: '' err), fs, c)
                   | Inr out \<Rightarrow>
                       (case io_writeStore io of
                          Some err \<Rightarrow> (Some (Wrapped ''write iam file: '' err), fs, invalidateCache c)
                        | None \<Rightarrow> (None, fs\<lparr>f_store := Some out\<rparr>, cachePlaintext now (eng_digest e out) updated)))))"

definition StoreIAM ::
    "('b, 'd) Engine \<Rightarrow> int \<Rightarrow> ('b \<Rightarrow> (go_error, 'b) result) \<Rightarrow> io_faults \<Rightarrow> 'b store_files
      \<Rightarrow> ('b, 'd) store_cache \<Rightarrow> go_error option \<times> 'b store_files \<times> ('b, 'd) store_cache" where
  "StoreIAM e now update io fs c =
     (let go = (\<lambda>raw.
        case io_writeBackup io of
          Some err \<Rightarrow> (Some (Wrapped ''write backup iam file: '' err), fs, c)
        | None \<Rightarrow>
            store_updated e now update io raw
              (fs\<lparr>f_backup := Some (case raw of None \<Rightarrow> eng_empty e | Some r \<Rightarrow> r)\<rparr>) c)
      in case read_file (io_readStore io) (f_store fs) of
           ReadError err \<Rightarrow> (Some (Wrapped ''read iam file: '' err), fs, c)
         | NotExist \<Rightarrow> go None
         | Content r \<Rightarrow> go (Some r))"

section \<open>Migration\<close>








section \<open>Configuration\<close>

record ProtectorConfig =
  pcf_KeyDirectory :: string
  pcf_ActiveKey :: string
  pcf_KMSProvider :: string
  pcf_KMSKeyID :: string
  pcf_RequireEncryption :: bool

definition pcf_provider :: "ProtectorConfig \<Rightarrow> string" where
  "pcf_provider c = ToLower (TrimSpace (pcf_KMSProvider c))"

definition pcf_Enabled :: "ProtectorConfig \<Rightarrow> bool" where
  "pcf_Enabled c \<longleftrightarrow> pcf_KeyDirectory c \<noteq> [] \<or> pcf_provider c = ''aws''"

text \<open>The two constructors of protectors open key files or a KMS client and are parameters.\<close>

definition NewProtectorFromConfig ::
    "(ProtectorConfig \<Rightarrow> (go_error, 'b protector) result) \<Rightarrow> (ProtectorConfig \<Rightarrow> (go_error, 'b protector) result)
      \<Rightarrow> ProtectorConfig \<Rightarrow> (go_error, 'b protector) result" where
  "NewProtectorFromConfig newLocal newKMS c =
     (if pcf_provider c \<in> {[], ''local''} then
        (if pcf_KeyDirectory c = [] then Inl (ErrorString ''local iam encryption requires an iam encryption key directory'')
         else if pcf_KMSKeyID c \<noteq> [] then Inl (ErrorString ''iam encryption KMS key ID requires the aws KMS provider'')
         else newLocal c)
      else if pcf_provider c = ''aws'' then
        (if pcf_ActiveKey c \<noteq> [] then Inl (ErrorString ''iam encryption active key applies to the local provider only'')
         else if pcf_KeyDirectory c \<noteq> [] then Inl (ErrorString ''iam encryption key directory applies to the local provider only'')
         else if pcf_KMSKeyID c = [] then Inl (ErrorString ''iam encryption KMS key ID is required for the aws KMS provider'')
         else newKMS c)
      else Inl (ErrorString ''unsupported iam encryption KMS provider''))"

text \<open>\<open>Options\<close>: the protector and whether encryption is required.\<close>

definition ProtectorConfig_Options ::
    "(ProtectorConfig \<Rightarrow> (go_error, 'b protector) result) \<Rightarrow> (ProtectorConfig \<Rightarrow> (go_error, 'b protector) result)
      \<Rightarrow> ProtectorConfig \<Rightarrow> (go_error, 'b protector option \<times> bool) result" where
  "ProtectorConfig_Options newLocal newKMS c =
     (if \<not> pcf_Enabled c then
        (if pcf_RequireEncryption c then
           Inl (ErrorString ''iam encryption is required but no key directory or KMS provider is configured'')
         else if pcf_ActiveKey c \<noteq> [] \<or> pcf_KMSKeyID c \<noteq> [] \<or> pcf_provider c \<noteq> [] then
           Inl (ErrorString ''iam encryption settings require an iam encryption key directory or KMS provider'')
         else Inr (None, False))
      else bind_res (NewProtectorFromConfig newLocal newKMS c) (\<lambda>p. Inr (Some p, pcf_RequireEncryption c)))"

section \<open>Updates\<close>

text \<open>What a container must satisfy for a store to be readable again.\<close>

definition container_laws :: "('b, 'd) Engine \<Rightarrow> bool" where
  "container_laws e \<longleftrightarrow> (\<forall>p plaintext out. eng_protector e = Some p \<longrightarrow> pr_Encode p plaintext = Inr out \<longrightarrow>
     eng_IsEncrypted e out \<and> pr_Decode p out = Inr plaintext)"

lemma encode_decode:
  assumes "container_laws e" "encode e plaintext b = Inr out" "\<not> eng_IsEncrypted e plaintext"
    and "\<not> b \<Longrightarrow> \<not> eng_requireEncryption e"
  shows "decode e out = Inr plaintext \<and> eng_IsEncrypted e out = b"
  using assms by (auto simp: encode_def decode_def container_laws_def split: if_split_asm option.splits)

text \<open>
  C28. A successful update of an existing store: the backup is the file as it was, the new file reads
  as the updated text and keeps the format, and the cache holds the text of the new file.
\<close>

theorem StoreIAM_updates:
  assumes "StoreIAM e now update io fs c = (None, fs', c')" and "f_store fs = Some raw" and "container_laws e"
    and plain: "\<And>p u. update p = Inr u \<Longrightarrow> \<not> eng_IsEncrypted e u"
  shows "\<exists>plaintext updated out. decode e raw = Inr plaintext \<and> update plaintext = Inr updated
    \<and> fs' = \<lparr>f_store = Some out, f_backup = Some raw\<rparr>
    \<and> decode e out = Inr updated \<and> eng_IsEncrypted e out = eng_IsEncrypted e raw
    \<and> c' = cachePlaintext now (eng_digest e out) updated"
proof -
  from assms(1,2) obtain plaintext updated out where d: "decode e raw = Inr plaintext"
    and u: "update plaintext = Inr updated" and o': "encode e updated (eng_IsEncrypted e raw) = Inr out"
    and r: "fs' = fs\<lparr>f_backup := Some raw, f_store := Some out\<rparr>" "c' = cachePlaintext now (eng_digest e out) updated"
    by (auto simp: StoreIAM_def store_updated_def read_file_def Let_def split: option.splits sum.splits)
  have "\<not> eng_requireEncryption e" if "\<not> eng_IsEncrypted e raw"
    using that d by (simp add: decode_def split: if_split_asm)
  from encode_decode [OF assms(3) o' plain [OF u] this] d u r show ?thesis by (cases fs) simp
qed

text \<open>A container that marks its content with one letter, and a store that uses it.\<close>

definition is_marked :: "string \<Rightarrow> bool" where
  "is_marked x = (take 1 x = ''E'')"

definition marked :: "string protector" where
  "marked =
     \<lparr>pr_Encode = \<lambda>x. if is_marked x then Inl (ErrorString ''marked'') else Inr (CHR ''E'' # x),
      pr_Decode = \<lambda>x. if is_marked (tl x) then Inl (ErrorString ''marked'') else Inr (tl x),
      pr_Rewrap = Inr\<rparr>"

definition marked_engine :: "(string, string) Engine" where
  "marked_engine = \<lparr>eng_protector = Some marked, eng_requireEncryption = True, eng_IsEncrypted = is_marked,
     eng_digest = \<lambda>x. x, eng_empty = []\<rparr>"

definition no_faults :: io_faults where
  "no_faults = \<lparr>io_readStore = None, io_readBackup = None, io_writeStore = None, io_writeBackup = None\<rparr>"

definition cold :: "(string, string) store_cache" where
  "cold = \<lparr>c_digest = [], c_validated = 0, c_plaintext = [], c_valid = False\<rparr>"

lemma marked_engine_laws: "container_laws marked_engine"
  by (simp add: container_laws_def marked_engine_def marked_def is_marked_def)

theorem StoreIAM_updates_witness:
  "\<exists>plaintext updated out. decode marked_engine ''E{}'' = Inr plaintext \<and> Inr ''{1}'' = (Inr updated :: go_error + string)
    \<and> \<lparr>f_store = Some ''E{1}'', f_backup = Some ''E{}''\<rparr> = \<lparr>f_store = Some out, f_backup = Some ''E{}''\<rparr>
    \<and> decode marked_engine out = Inr updated \<and> eng_IsEncrypted marked_engine out = eng_IsEncrypted marked_engine ''E{}''
    \<and> cachePlaintext 5 ''E{1}'' ''{1}'' = cachePlaintext 5 (eng_digest marked_engine out) updated"
  by (rule StoreIAM_updates [where update = "\<lambda>_. Inr ''{1}''" and io = no_faults and c = cold
        and fs = "\<lparr>f_store = Some ''E{}'', f_backup = None\<rparr>", OF _ _ marked_engine_laws])
    (simp_all add: StoreIAM_def store_updated_def read_file_def no_faults_def marked_engine_def marked_def is_marked_def
      decode_def encode_def cachePlaintext_def)

text \<open>
  When the store file is missing at the moment of an update, the backup is overwritten with an
  empty file before anything else happens, also when the update then fails.
\<close>

theorem missing_store_empties_backup:
  assumes "f_store fs = None" "io_readStore io = None" "io_writeBackup io = None"
  shows "f_backup (fst (snd (StoreIAM e now update io fs c))) = Some (eng_empty e)"
  using assms
  by (simp add: StoreIAM_def store_updated_def read_file_def Let_def split: sum.split option.split)

theorem missing_store_empties_backup_witness:
  "f_backup (fst (snd (StoreIAM marked_engine 5 (\<lambda>_. Inl (ErrorString ''no such user'')) no_faults
     \<lparr>f_store = None, f_backup = Some ''E{}''\<rparr> cold))) = Some (eng_empty marked_engine)"
  by (rule missing_store_empties_backup) (simp_all add: no_faults_def)

section \<open>Reading while a file is missing\<close>




section \<open>How old an answer can be\<close>






















section \<open>Migrations lose nothing\<close>















section \<open>Configuration\<close>

text \<open>
  A gateway that starts with encryption required has a key, which is what keeps the store
  encrypted from its first write.
\<close>

lemma required_encryption_has_key:
  "ProtectorConfig_Options newLocal newKMS cfg = Inr (p, True) \<Longrightarrow> p \<noteq> None"
  by (auto simp: ProtectorConfig_Options_def bind_res_def split: if_split_asm sum.splits)

end
