(* ===== verification/Encryption_Keys.thy ===== *)
theory Encryption_Keys
  imports S3_Errors "HOL-Library.AList"
begin

text \<open>
  Data keys and the providers that wrap them (internal/encryption/types.go, provider.go and
  aws_provider.go): keys of a local directory, keys derived from them, keys a customer sends
  with each request, and keys of a key management service. The ciphers, hashes and codecs of the
  Go library are the record \<open>crypto\<close>, the client of the key management service the record
  \<open>kms_client\<close>. Random bytes come from a tape, so an operation that reads them is a function of it.
\<close>

section \<open>Errors\<close>

definition ErrUnsupportedEncryption :: go_error where
  "ErrUnsupportedEncryption = ErrorString ''unsupported encryption''"

definition ErrInvalidKey :: go_error where
  "ErrInvalidKey = ErrorString ''invalid encryption key''"

definition ErrKeyNotFound :: go_error where
  "ErrKeyNotFound = ErrorString ''encryption key not found''"

definition ErrAuthentication :: go_error where
  "ErrAuthentication = ErrorString ''encrypted data authentication failed''"

definition ErrInvalidContainer :: go_error where
  "ErrInvalidContainer = ErrorString ''invalid encrypted object container''"

definition ErrIdentityMismatch :: go_error where
  "ErrIdentityMismatch = ErrorString ''encrypted object identity mismatch''"

definition ErrInvalidEncryptionHeaders :: go_error where
  "ErrInvalidEncryptionHeaders = ErrorString ''invalid encryption headers''"

lemmas encryption_errors = ErrUnsupportedEncryption_def ErrInvalidKey_def ErrKeyNotFound_def ErrAuthentication_def
  ErrInvalidContainer_def ErrIdentityMismatch_def ErrInvalidEncryptionHeaders_def

text \<open>\<open>errors.Is\<close> for such an error value.\<close>

fun wraps :: "go_error \<Rightarrow> go_error \<Rightarrow> bool" where
  "wraps (Wrapped m e) target = (Wrapped m e = target \<or> wraps e target)"
| "wraps e target = (e = target)"

section \<open>Ciphers, hashes and random bytes\<close>

text \<open>
  \<open>cr_Seal key nonce aad plaintext\<close> and \<open>cr_Open key nonce aad ciphertext\<close> are AES-256-GCM,
  \<open>cr_HMAC key message\<close> is HMAC-SHA-256, \<open>cr_parse\<close> reads a JSON text.
\<close>

record crypto =
  cr_Seal :: "string \<Rightarrow> string \<Rightarrow> string \<Rightarrow> string \<Rightarrow> string"
  cr_Open :: "string \<Rightarrow> string \<Rightarrow> string \<Rightarrow> string \<Rightarrow> string option"
  cr_SHA256 :: "string \<Rightarrow> string"
  cr_HMAC :: "string \<Rightarrow> string \<Rightarrow> string"
  cr_MD5 :: "string \<Rightarrow> string"
  cr_base64 :: "string \<Rightarrow> string"
  cr_unbase64 :: "string \<Rightarrow> string option"
  cr_parse :: "string \<Rightarrow> json_bytes"

definition gcmTagSize :: nat where
  "gcmTagSize = 16"

definition gcmNonceSize :: nat where
  "gcmNonceSize = 12"

definition DataKeySize :: nat where
  "DataKeySize = 32"

definition sha256Size :: nat where
  "sha256Size = 32"

definition md5Size :: nat where
  "md5Size = 16"

text \<open>
  What is relied on: opening what was sealed gives it back, a seal adds the tag and nothing else,
  digests have their sizes, and Base64 can be undone.
\<close>

definition crypto_ok :: "crypto \<Rightarrow> bool" where
  "crypto_ok cr \<longleftrightarrow>
     (\<forall>k n a p. cr_Open cr k n a (cr_Seal cr k n a p) = Some p \<and> length (cr_Seal cr k n a p) = length p + gcmTagSize)
     \<and> (\<forall>x. length (cr_SHA256 cr x) = sha256Size) \<and> (\<forall>k x. length (cr_HMAC cr k x) = sha256Size)
     \<and> (\<forall>x. length (cr_MD5 cr x) = md5Size)
     \<and> (\<forall>x. cr_unbase64 cr (cr_base64 cr x) = Some x) \<and> (\<forall>x. cr_base64 cr x = [] \<longrightarrow> x = [])"

lemma crypto_okD:
  assumes "crypto_ok cr"
  shows "cr_Open cr k n a (cr_Seal cr k n a p) = Some p" "length (cr_Seal cr k n a p) = length p + gcmTagSize"
    "length (cr_SHA256 cr x) = sha256Size" "length (cr_HMAC cr k x) = sha256Size" "length (cr_MD5 cr x) = md5Size"
    "cr_unbase64 cr (cr_base64 cr x) = Some x" "cr_base64 cr x = [] \<Longrightarrow> x = []"
  using assms by (simp_all add: crypto_ok_def)

text \<open>\<open>io.ReadFull(rand.Reader, buf)\<close> for a buffer of \<open>n\<close> bytes.\<close>

definition ReadFull :: "string \<Rightarrow> nat \<Rightarrow> (go_error, string) result" where
  "ReadFull rnd n = (if length rnd < n then Inl (ErrorString ''unexpected EOF'') else Inr (take n rnd))"

lemma ReadFull_length: "ReadFull rnd n = Inr x \<Longrightarrow> length x = n"
  by (auto simp: ReadFull_def split: if_split_asm)

definition with_msg :: "string \<Rightarrow> (go_error, 'a) result \<Rightarrow> (go_error, 'a) result" where
  "with_msg msg r = (case r of Inl err \<Rightarrow> Inl (Wrapped msg err) | Inr v \<Rightarrow> Inr v)"

lemma with_msg_simps [simp]: "with_msg msg (Inl err) = Inl (Wrapped msg err)" "with_msg msg (Inr v) = Inr v"
  by (simp_all add: with_msg_def)

lemma with_msg_Inr [simp]: "with_msg msg r = Inr v \<longleftrightarrow> r = Inr v"
  by (simp add: with_msg_def split: sum.split)

section \<open>Wrapping with AES-GCM\<close>

record KeyRequest =
  kr_KeyID :: string
  kr_Context :: string
  kr_ClientContext :: string

text \<open>A map of strings is the list of its entries.\<close>

record WrappedDataKey =
  wd_Provider :: string
  wd_KeyID :: string
  wd_Ciphertext :: string
  wd_Metadata :: "(string \<times> string) list"

text \<open>An AEAD is the key it was made from.\<close>

definition newGCM :: "string \<Rightarrow> (go_error, string) result" where
  "newGCM key = (if length key \<noteq> DataKeySize then Inl ErrInvalidKey else Inr key)"

definition wrapAAD :: "string \<Rightarrow> string \<Rightarrow> string \<Rightarrow> string" where
  "wrapAAD provider kid ctx = provider @ [CHR 0x00] @ kid @ [CHR 0x00] @ ctx"

definition wrapWithAESGCM ::
    "crypto \<Rightarrow> string \<Rightarrow> string \<Rightarrow> string \<Rightarrow> string \<Rightarrow> string \<Rightarrow> string \<Rightarrow> (string \<times> string) list
      \<Rightarrow> (go_error, WrappedDataKey) result" where
  "wrapWithAESGCM cr rnd provider kid wrappingKey ctx plaintext metadata =
     bind_res (newGCM wrappingKey) (\<lambda>aead.
     bind_res (with_msg ''generate wrapping nonce: '' (ReadFull rnd gcmNonceSize)) (\<lambda>nonce.
     Inr \<lparr>wd_Provider = provider, wd_KeyID = kid,
          wd_Ciphertext = nonce @ cr_Seal cr aead nonce (wrapAAD provider kid ctx) plaintext,
          wd_Metadata = metadata\<rparr>))"

definition unwrapWithAESGCM :: "crypto \<Rightarrow> string \<Rightarrow> string \<Rightarrow> WrappedDataKey \<Rightarrow> (go_error, string) result" where
  "unwrapWithAESGCM cr wrappingKey ctx wrapped =
     bind_res (newGCM wrappingKey) (\<lambda>aead.
     if length (wd_Ciphertext wrapped) < gcmNonceSize + gcmTagSize then Inl ErrInvalidContainer
     else
       case cr_Open cr aead (take gcmNonceSize (wd_Ciphertext wrapped))
              (wrapAAD (wd_Provider wrapped) (wd_KeyID wrapped) ctx) (drop gcmNonceSize (wd_Ciphertext wrapped)) of
         None \<Rightarrow> Inl ErrAuthentication
       | Some plaintext \<Rightarrow> if length plaintext \<noteq> DataKeySize then Inl ErrInvalidContainer else Inr plaintext)"

text \<open>
  \<open>hkdfSHA256\<close>: a block of HMAC-SHA-256 has 32 bytes, so the loop that appends blocks until there
  are \<open>n\<close> bytes makes \<open>(n + 31) div 32\<close> rounds. The counter is one byte.
\<close>

fun hkdf_blocks :: "crypto \<Rightarrow> string \<Rightarrow> string \<Rightarrow> string \<Rightarrow> nat \<Rightarrow> nat \<Rightarrow> string" where
  "hkdf_blocks cr prk info previous counter 0 = []"
| "hkdf_blocks cr prk info previous counter (Suc n) =
     (let block = cr_HMAC cr prk (previous @ info @ [char_of (counter mod 256)])
      in block @ hkdf_blocks cr prk info block (Suc counter) n)"

definition hkdfSHA256 :: "crypto \<Rightarrow> string \<Rightarrow> string \<Rightarrow> string \<Rightarrow> nat \<Rightarrow> string" where
  "hkdfSHA256 cr secret salt info n =
     take n (hkdf_blocks cr (cr_HMAC cr salt secret) info [] 1 ((n + sha256Size - 1) div sha256Size))"

lemma length_hkdf: "crypto_ok cr \<Longrightarrow> length (hkdfSHA256 cr secret salt info DataKeySize) = DataKeySize"
  by (simp add: hkdfSHA256_def DataKeySize_def sha256Size_def crypto_okD)

lemma newGCM_Inr: "newGCM key = Inr k \<longleftrightarrow> k = key \<and> length key = DataKeySize"
  by (auto simp: newGCM_def)

lemma unwrap_wrap_AESGCM:
  assumes "crypto_ok cr" "wrapWithAESGCM cr rnd provider kid wk ctx key md = Inr w" "length key = DataKeySize"
  shows "unwrapWithAESGCM cr wk ctx w = Inr key"
proof -
  from assms(2) obtain nonce where n: "length wk = DataKeySize" "length nonce = gcmNonceSize"
    "w = \<lparr>wd_Provider = provider, wd_KeyID = kid, wd_Ciphertext = nonce @ cr_Seal cr wk nonce (wrapAAD provider kid ctx) key,
      wd_Metadata = md\<rparr>"
    by (auto simp: wrapWithAESGCM_def bind_res_Inr newGCM_Inr dest: ReadFull_length)
  then show ?thesis
    by (simp add: unwrapWithAESGCM_def newGCM_def crypto_okD [OF assms(1)] assms(3))
qed

lemma wrapWithAESGCM_fields:
  "wrapWithAESGCM cr rnd provider kid wk ctx key md = Inr w \<Longrightarrow>
    wd_Provider w = provider \<and> wd_KeyID w = kid \<and> wd_Metadata w = md \<and> wd_Ciphertext w \<noteq> []"
  by (auto simp: wrapWithAESGCM_def bind_res_Inr gcmNonceSize_def dest: ReadFull_length)

lemma unwrapWithAESGCM_size: "unwrapWithAESGCM cr wk ctx w = Inr key \<Longrightarrow> length key = DataKeySize"
  by (auto simp: unwrapWithAESGCM_def bind_res_Inr split: if_split_asm option.splits)

section \<open>Local keys\<close>

definition localProviderName :: string where
  "localProviderName = ''local''"

definition customerProviderName :: string where
  "customerProviderName = ''sse-c''"

definition key_id_char :: "char \<Rightarrow> bool" where
  "key_id_char c \<longleftrightarrow> ascii_alnum c \<or> c \<in> set ''._-''"

definition keyIDPattern :: "string \<Rightarrow> bool" where
  "keyIDPattern kid \<longleftrightarrow>
     kid \<noteq> [] \<and> length kid \<le> 128 \<and> ascii_alnum (hd kid) \<and> list_all key_id_char (tl kid)"

definition ValidateKeyID :: "string \<Rightarrow> go_error option" where
  "ValidateKeyID kid = (if \<not> keyIDPattern kid then Some ErrInvalidKey else None)"

record LocalProvider =
  lp_active :: string
  lp_keys :: "(string \<times> string) list"

definition local_ValidateKeyReference :: "LocalProvider \<Rightarrow> string \<Rightarrow> go_error option" where
  "local_ValidateKeyReference p kid =
     (let kid = (if kid = [] then lp_active p else kid)
      in if \<not> keyIDPattern kid then Some ErrInvalidKey
         else if map_of (lp_keys p) kid = None then Some ErrKeyNotFound
         else None)"

text \<open>A missing key of a map reads as the zero value.\<close>

definition local_key :: "LocalProvider \<Rightarrow> string \<Rightarrow> string" where
  "local_key p kid = (case map_of (lp_keys p) kid of None \<Rightarrow> [] | Some k \<Rightarrow> k)"

definition local_WrapKey ::
    "crypto \<Rightarrow> string \<Rightarrow> LocalProvider \<Rightarrow> KeyRequest \<Rightarrow> string \<Rightarrow> (go_error, WrappedDataKey) result" where
  "local_WrapKey cr rnd p req key =
     (let kid = (if kr_KeyID req = [] then lp_active p else kr_KeyID req)
      in case local_ValidateKeyReference p kid of
           Some err \<Rightarrow> Inl err
         | None \<Rightarrow> wrapWithAESGCM cr rnd localProviderName kid (local_key p kid) (kr_Context req) key [])"

definition local_UnwrapKey :: "crypto \<Rightarrow> LocalProvider \<Rightarrow> KeyRequest \<Rightarrow> WrappedDataKey \<Rightarrow> (go_error, string) result" where
  "local_UnwrapKey cr p req wrapped =
     (if wd_Provider wrapped \<noteq> localProviderName then Inl ErrInvalidKey
      else case local_ValidateKeyReference p (wd_KeyID wrapped) of
             Some err \<Rightarrow> Inl err
           | None \<Rightarrow> unwrapWithAESGCM cr (local_key p (wd_KeyID wrapped)) (kr_Context req) wrapped)"

text \<open>
  The three local providers generate a data key in the same way: read it, then wrap it.
\<close>

definition generate_and_wrap ::
    "string \<Rightarrow> string \<Rightarrow> (string \<Rightarrow> KeyRequest \<Rightarrow> string \<Rightarrow> (go_error, WrappedDataKey) result)
      \<Rightarrow> KeyRequest \<Rightarrow> (go_error, string \<times> WrappedDataKey) result" where
  "generate_and_wrap msg rnd wrap req =
     bind_res (with_msg msg (ReadFull rnd DataKeySize)) (\<lambda>key.
     bind_res (wrap (drop DataKeySize rnd) req key) (\<lambda>wrapped. Inr (key, wrapped)))"

definition local_GenerateDataKey ::
    "crypto \<Rightarrow> string \<Rightarrow> LocalProvider \<Rightarrow> KeyRequest \<Rightarrow> (go_error, string \<times> WrappedDataKey) result" where
  "local_GenerateDataKey cr rnd p = generate_and_wrap ''generate data key: '' rnd (\<lambda>rnd. local_WrapKey cr rnd p)"

section \<open>Derived keys\<close>

record DerivedLocalProvider =
  dp_name :: string
  dp_label :: string
  dp_base :: LocalProvider

definition Derived :: "LocalProvider \<Rightarrow> string \<Rightarrow> string \<Rightarrow> (go_error, DerivedLocalProvider) result" where
  "Derived p name label =
     (if \<not> keyIDPattern name \<or> name = localProviderName \<or> label = [] then Inl ErrInvalidKey
      else Inr \<lparr>dp_name = name, dp_label = label, dp_base = p\<rparr>)"

definition derived_key :: "crypto \<Rightarrow> DerivedLocalProvider \<Rightarrow> string \<Rightarrow> string" where
  "derived_key cr p kid =
     hkdfSHA256 cr (local_key (dp_base p) kid) [] (''versitygw/local-provider/'' @ dp_label p) DataKeySize"

definition derived_WrapKey ::
    "crypto \<Rightarrow> string \<Rightarrow> DerivedLocalProvider \<Rightarrow> KeyRequest \<Rightarrow> string \<Rightarrow> (go_error, WrappedDataKey) result" where
  "derived_WrapKey cr rnd p req key =
     (let kid = (if kr_KeyID req = [] then lp_active (dp_base p) else kr_KeyID req)
      in case local_ValidateKeyReference (dp_base p) kid of
           Some err \<Rightarrow> Inl err
         | None \<Rightarrow> wrapWithAESGCM cr rnd (dp_name p) kid (derived_key cr p kid) (kr_Context req) key [])"

definition derived_UnwrapKey ::
    "crypto \<Rightarrow> DerivedLocalProvider \<Rightarrow> KeyRequest \<Rightarrow> WrappedDataKey \<Rightarrow> (go_error, string) result" where
  "derived_UnwrapKey cr p req wrapped =
     (if wd_Provider wrapped \<noteq> dp_name p then Inl ErrInvalidKey
      else case local_ValidateKeyReference (dp_base p) (wd_KeyID wrapped) of
             Some err \<Rightarrow> Inl err
           | None \<Rightarrow> unwrapWithAESGCM cr (derived_key cr p (wd_KeyID wrapped)) (kr_Context req) wrapped)"

definition derived_GenerateDataKey ::
    "crypto \<Rightarrow> string \<Rightarrow> DerivedLocalProvider \<Rightarrow> KeyRequest \<Rightarrow> (go_error, string \<times> WrappedDataKey) result" where
  "derived_GenerateDataKey cr rnd p =
     generate_and_wrap ''generate derived data key: '' rnd (\<lambda>rnd. derived_WrapKey cr rnd p)"

section \<open>Customer keys\<close>

record CustomerKeyProvider =
  ck_key :: string
  ck_keyMD5 :: string

definition NewCustomerKeyProvider :: "crypto \<Rightarrow> string \<Rightarrow> (go_error, CustomerKeyProvider) result" where
  "NewCustomerKeyProvider cr key =
     (if length key \<noteq> DataKeySize then Inl (Wrapped ''SSE-C key must contain exactly 32 bytes'' ErrInvalidKey)
      else Inr \<lparr>ck_key = key, ck_keyMD5 = cr_MD5 cr key\<rparr>)"

definition customer_ValidateKeyReference :: "crypto \<Rightarrow> CustomerKeyProvider \<Rightarrow> string \<Rightarrow> go_error option" where
  "customer_ValidateKeyReference cr p kid =
     (if kid \<noteq> cr_base64 cr (ck_keyMD5 p) then Some ErrInvalidKey else None)"

definition customer_wrapping_key :: "crypto \<Rightarrow> CustomerKeyProvider \<Rightarrow> string \<Rightarrow> string \<Rightarrow> string" where
  "customer_wrapping_key cr p salt ctx = hkdfSHA256 cr (ck_key p) salt (''versitygw/sse-c/'' @ ctx) DataKeySize"

definition customer_WrapKey ::
    "crypto \<Rightarrow> string \<Rightarrow> CustomerKeyProvider \<Rightarrow> KeyRequest \<Rightarrow> string \<Rightarrow> (go_error, WrappedDataKey) result" where
  "customer_WrapKey cr rnd p req key =
     bind_res (with_msg ''generate SSE-C salt: '' (ReadFull rnd sha256Size)) (\<lambda>salt.
     wrapWithAESGCM cr (drop sha256Size rnd) customerProviderName (cr_base64 cr (ck_keyMD5 p))
       (customer_wrapping_key cr p salt (kr_Context req)) (kr_Context req) key [(''salt'', cr_base64 cr salt)])"

definition customer_UnwrapKey ::
    "crypto \<Rightarrow> CustomerKeyProvider \<Rightarrow> KeyRequest \<Rightarrow> WrappedDataKey \<Rightarrow> (go_error, string) result" where
  "customer_UnwrapKey cr p req wrapped =
     (if wd_Provider wrapped \<noteq> customerProviderName \<or> customer_ValidateKeyReference cr p (wd_KeyID wrapped) \<noteq> None then
        Inl ErrAuthentication
      else
        case cr_unbase64 cr (case map_of (wd_Metadata wrapped) ''salt'' of None \<Rightarrow> [] | Some v \<Rightarrow> v) of
          None \<Rightarrow> Inl ErrInvalidContainer
        | Some salt \<Rightarrow>
            if length salt \<noteq> sha256Size then Inl ErrInvalidContainer
            else unwrapWithAESGCM cr (customer_wrapping_key cr p salt (kr_Context req)) (kr_Context req) wrapped)"

definition customer_GenerateDataKey ::
    "crypto \<Rightarrow> string \<Rightarrow> CustomerKeyProvider \<Rightarrow> KeyRequest \<Rightarrow> (go_error, string \<times> WrappedDataKey) result" where
  "customer_GenerateDataKey cr rnd p = generate_and_wrap ''generate data key: '' rnd (\<lambda>rnd. customer_WrapKey cr rnd p)"

section \<open>Keys of a key management service\<close>

definition awsKMSProviderName :: string where
  "awsKMSProviderName = ''aws-kms''"

definition kmsObjectBindingContextKey :: string where
  "kmsObjectBindingContextKey = ''versitygw:object-binding''"

text \<open>
  The operations of the service: a key id and an encryption context, and the plain text or the
  ciphertext. An answer without a body is \<open>Inr None\<close>.
\<close>

record kms_client =
  kms_GenerateDataKey :: "string \<Rightarrow> (string \<times> string) list \<Rightarrow> (go_error, (string \<times> string) option) result"
  kms_Encrypt :: "string \<Rightarrow> (string \<times> string) list \<Rightarrow> string \<Rightarrow> (go_error, string option) result"
  kms_Decrypt :: "string \<Rightarrow> (string \<times> string) list \<Rightarrow> string \<Rightarrow> (go_error, string option) result"

record AWSKMSProvider =
  aws_client :: kms_client
  aws_defaultKey :: string

definition is_control :: "char \<Rightarrow> bool" where
  "is_control c \<longleftrightarrow> c < CHR '' '' \<or> c = CHR 0x7F"

definition aws_ValidateKeyReference :: "AWSKMSProvider \<Rightarrow> string \<Rightarrow> go_error option" where
  "aws_ValidateKeyReference p kid =
     (let kid = (if kid = [] then aws_defaultKey p else kid)
      in if length kid = 0 \<or> length kid > 2048 \<or> TrimSpace kid \<noteq> kid then Some ErrInvalidKey
         else if list_ex is_control kid then Some ErrInvalidKey
         else None)"

definition NewAWSKMSProvider :: "kms_client \<Rightarrow> string \<Rightarrow> (go_error, AWSKMSProvider) result" where
  "NewAWSKMSProvider client defaultKey =
     (let defaultKey = (if defaultKey = [] then ''alias/aws/s3'' else defaultKey);
          provider = \<lparr>aws_client = client, aws_defaultKey = defaultKey\<rparr>
      in case aws_ValidateKeyReference provider defaultKey of Some err \<Rightarrow> Inl err | None \<Rightarrow> Inr provider)"

definition aws_keyID :: "AWSKMSProvider \<Rightarrow> string \<Rightarrow> (go_error, string) result" where
  "aws_keyID p requested =
     (let requested = (if requested = [] then aws_defaultKey p else requested)
      in case aws_ValidateKeyReference p requested of Some err \<Rightarrow> Inl err | None \<Rightarrow> Inr requested)"

text \<open>
  Decoding a JSON text into a map of strings: the outer option is a decoding error, the inner one
  the nil map that a null leaves.
\<close>

fun json_string_map :: "json \<Rightarrow> (string \<times> string) list option option" where
  "json_string_map (JObj ms) =
     (if \<forall>(k, v) \<in> set ms. json_string v \<noteq> None
      then Some (Some (fold (\<lambda>(k, v) m. AList.update k (the (json_string v)) m) ms [])) else None)"
| "json_string_map JNull = Some None"
| "json_string_map _ = None"

definition kmsEncryptionContext :: "crypto \<Rightarrow> string \<Rightarrow> string \<Rightarrow> (go_error, (string \<times> string) list) result" where
  "kmsEncryptionContext cr clientContext objectBinding =
     bind_res
       (if clientContext = [] then Inr []
        else case Option.bind (cr_parse cr clientContext) json_string_map of
               Some (Some m) \<Rightarrow>
                 if map_of m kmsObjectBindingContextKey \<noteq> None then Inl ErrInvalidEncryptionHeaders else Inr m
             | _ \<Rightarrow> Inl ErrInvalidEncryptionHeaders)
       (\<lambda>m. Inr (AList.update kmsObjectBindingContextKey (cr_base64 cr objectBinding) m))"

definition aws_GenerateDataKey ::
    "crypto \<Rightarrow> AWSKMSProvider \<Rightarrow> KeyRequest \<Rightarrow> (go_error, string \<times> WrappedDataKey) result" where
  "aws_GenerateDataKey cr p req =
     bind_res (aws_keyID p (kr_KeyID req)) (\<lambda>keyID.
     bind_res (kmsEncryptionContext cr (kr_ClientContext req) (kr_Context req)) (\<lambda>ectx.
     bind_res (with_msg ''AWS KMS GenerateDataKey: '' (kms_GenerateDataKey (aws_client p) keyID ectx)) (\<lambda>output.
     case output of
       None \<Rightarrow> Inl (Wrapped ''invalid AWS KMS data-key response'' ErrInvalidKey)
     | Some (plaintext, blob) \<Rightarrow>
         if length plaintext \<noteq> DataKeySize \<or> blob = [] then
           Inl (Wrapped ''invalid AWS KMS data-key response'' ErrInvalidKey)
         else Inr (plaintext, \<lparr>wd_Provider = awsKMSProviderName, wd_KeyID = keyID, wd_Ciphertext = blob, wd_Metadata = []\<rparr>))))"

definition aws_WrapKey ::
    "crypto \<Rightarrow> AWSKMSProvider \<Rightarrow> KeyRequest \<Rightarrow> string \<Rightarrow> (go_error, WrappedDataKey) result" where
  "aws_WrapKey cr p req plaintext =
     (if length plaintext \<noteq> DataKeySize then Inl ErrInvalidKey
      else
        bind_res (aws_keyID p (kr_KeyID req)) (\<lambda>keyID.
        bind_res (kmsEncryptionContext cr (kr_ClientContext req) (kr_Context req)) (\<lambda>ectx.
        bind_res (with_msg ''AWS KMS Encrypt: '' (kms_Encrypt (aws_client p) keyID ectx plaintext)) (\<lambda>output.
        case output of
          None \<Rightarrow> Inl (Wrapped ''invalid AWS KMS encrypt response'' ErrInvalidKey)
        | Some blob \<Rightarrow>
            if blob = [] then Inl (Wrapped ''invalid AWS KMS encrypt response'' ErrInvalidKey)
            else Inr \<lparr>wd_Provider = awsKMSProviderName, wd_KeyID = keyID, wd_Ciphertext = blob, wd_Metadata = []\<rparr>))))"

definition aws_UnwrapKey ::
    "crypto \<Rightarrow> AWSKMSProvider \<Rightarrow> KeyRequest \<Rightarrow> WrappedDataKey \<Rightarrow> (go_error, string) result" where
  "aws_UnwrapKey cr p req wrapped =
     (if wd_Provider wrapped \<noteq> awsKMSProviderName \<or> wd_Ciphertext wrapped = [] then Inl ErrInvalidKey
      else if kr_KeyID req \<noteq> [] \<and> kr_KeyID req \<noteq> wd_KeyID wrapped then Inl ErrAuthentication
      else case aws_ValidateKeyReference p (wd_KeyID wrapped) of
             Some err \<Rightarrow> Inl err
           | None \<Rightarrow>
               bind_res (kmsEncryptionContext cr (kr_ClientContext req) (kr_Context req)) (\<lambda>ectx.
               bind_res (with_msg ''AWS KMS Decrypt: ''
                   (kms_Decrypt (aws_client p) (wd_KeyID wrapped) ectx (wd_Ciphertext wrapped))) (\<lambda>output.
               case output of
                 None \<Rightarrow> Inl ErrAuthentication
               | Some plaintext \<Rightarrow>
                   if length plaintext \<noteq> DataKeySize then Inl ErrAuthentication else Inr plaintext)))"

section \<open>What a provider promises\<close>

record KeyProvider =
  kp_Name :: string
  kp_GenerateDataKey :: "KeyRequest \<Rightarrow> (go_error, string \<times> WrappedDataKey) result"
  kp_WrapKey :: "KeyRequest \<Rightarrow> string \<Rightarrow> (go_error, WrappedDataKey) result"
  kp_UnwrapKey :: "KeyRequest \<Rightarrow> WrappedDataKey \<Rightarrow> (go_error, string) result"
  kp_ValidateKeyReference :: "string \<Rightarrow> go_error option"

text \<open>
  A wrapped key names its provider and a key and opens again, under the contexts it was wrapped
  with, to the data key.
\<close>

definition reopens :: "KeyProvider \<Rightarrow> KeyRequest \<Rightarrow> string \<Rightarrow> WrappedDataKey \<Rightarrow> bool" where
  "reopens kp req key w \<longleftrightarrow>
     length key = DataKeySize \<and> wd_Provider w = kp_Name kp \<and> wd_KeyID w \<noteq> [] \<and> wd_Ciphertext w \<noteq> []
     \<and> kp_UnwrapKey kp (req\<lparr>kr_KeyID := wd_KeyID w\<rparr>) w = Inr key"

definition provider_ok :: "KeyProvider \<Rightarrow> bool" where
  "provider_ok kp \<longleftrightarrow>
     (\<forall>req key w. kp_GenerateDataKey kp req = Inr (key, w) \<longrightarrow> reopens kp req key w)
     \<and> (\<forall>req key w. kp_WrapKey kp req key = Inr w \<longrightarrow> length key = DataKeySize \<longrightarrow> reopens kp req key w)
     \<and> (\<forall>req key w. kp_UnwrapKey kp req w = Inr key \<longrightarrow> length key = DataKeySize)"

text \<open>
  The contract of one kind of provider: \<open>sound\<close> is what the kind relies on, \<open>genuine\<close> which wrapped
  keys it makes for which request.
\<close>

locale key_provider =
  fixes sound :: bool
    and kp :: KeyProvider
    and genuine :: "KeyRequest \<Rightarrow> string \<Rightarrow> WrappedDataKey \<Rightarrow> bool"
  assumes generated: "kp_GenerateDataKey kp req = Inr (key, w) \<Longrightarrow> length key = DataKeySize \<and> genuine req key w"
    and wrapped: "kp_WrapKey kp req key = Inr w \<Longrightarrow> genuine req key w"
    and named: "sound \<Longrightarrow> genuine req key w \<Longrightarrow>
      wd_Provider w = kp_Name kp \<and> wd_KeyID w \<noteq> [] \<and> wd_Ciphertext w \<noteq> []"
    and opened: "sound \<Longrightarrow> genuine req key w \<Longrightarrow> length key = DataKeySize \<Longrightarrow>
      kp_UnwrapKey kp (req\<lparr>kr_KeyID := wd_KeyID w\<rparr>) w = Inr key"
    and key_size: "kp_UnwrapKey kp req w = Inr key \<Longrightarrow> length key = DataKeySize"
begin

lemma genuine_reopens:
  assumes "sound" "genuine req key w" "length key = DataKeySize"
  shows "reopens kp req key w"
  using named [OF assms(1,2)] opened [OF assms] assms(3) by (simp add: reopens_def)

lemma ok: "sound \<Longrightarrow> provider_ok kp"
  using genuine_reopens generated wrapped key_size by (auto simp: provider_ok_def)

end

definition local_KeyProvider :: "crypto \<Rightarrow> string \<Rightarrow> LocalProvider \<Rightarrow> KeyProvider" where
  "local_KeyProvider cr rnd p =
     \<lparr>kp_Name = localProviderName, kp_GenerateDataKey = local_GenerateDataKey cr rnd p,
      kp_WrapKey = local_WrapKey cr rnd p, kp_UnwrapKey = local_UnwrapKey cr p,
      kp_ValidateKeyReference = local_ValidateKeyReference p\<rparr>"

definition derived_KeyProvider :: "crypto \<Rightarrow> string \<Rightarrow> DerivedLocalProvider \<Rightarrow> KeyProvider" where
  "derived_KeyProvider cr rnd p =
     \<lparr>kp_Name = dp_name p, kp_GenerateDataKey = derived_GenerateDataKey cr rnd p,
      kp_WrapKey = derived_WrapKey cr rnd p, kp_UnwrapKey = derived_UnwrapKey cr p,
      kp_ValidateKeyReference = local_ValidateKeyReference (dp_base p)\<rparr>"

definition customer_KeyProvider :: "crypto \<Rightarrow> string \<Rightarrow> CustomerKeyProvider \<Rightarrow> KeyProvider" where
  "customer_KeyProvider cr rnd p =
     \<lparr>kp_Name = customerProviderName, kp_GenerateDataKey = customer_GenerateDataKey cr rnd p,
      kp_WrapKey = customer_WrapKey cr rnd p, kp_UnwrapKey = customer_UnwrapKey cr p,
      kp_ValidateKeyReference = customer_ValidateKeyReference cr p\<rparr>"

definition aws_KeyProvider :: "crypto \<Rightarrow> AWSKMSProvider \<Rightarrow> KeyProvider" where
  "aws_KeyProvider cr p =
     \<lparr>kp_Name = awsKMSProviderName, kp_GenerateDataKey = aws_GenerateDataKey cr p,
      kp_WrapKey = aws_WrapKey cr p, kp_UnwrapKey = aws_UnwrapKey cr p,
      kp_ValidateKeyReference = aws_ValidateKeyReference p\<rparr>"

lemma generate_and_wrapD:
  assumes "generate_and_wrap msg rnd wrap req = Inr (key, w)"
  shows "length key = DataKeySize \<and> (\<exists>rnd'. wrap rnd' req key = Inr w)"
  using assms by (auto simp: generate_and_wrap_def bind_res_Inr dest: ReadFull_length)

lemma resolved_reference:
  "local_ValidateKeyReference p (if kid = [] then lp_active p else kid) = None \<Longrightarrow>
    (if kid = [] then lp_active p else kid) \<noteq> []"
  by (auto simp: local_ValidateKeyReference_def keyIDPattern_def Let_def split: if_split_asm)

lemma local_WrapKey_Inr:
  assumes "local_WrapKey cr rnd p req key = Inr w"
  obtains kid where "kid \<noteq> []" "local_ValidateKeyReference p kid = None"
    "wrapWithAESGCM cr rnd localProviderName kid (local_key p kid) (kr_Context req) key [] = Inr w"
proof -
  let ?kid = "if kr_KeyID req = [] then lp_active p else kr_KeyID req"
  have "local_ValidateKeyReference p ?kid = None"
    using assms unfolding local_WrapKey_def Let_def by (cases "local_ValidateKeyReference p ?kid") simp_all
  with assms resolved_reference [OF this] show thesis
    by (intro that [of ?kid]) (simp_all add: local_WrapKey_def Let_def)
qed

lemma derived_WrapKey_Inr:
  assumes "derived_WrapKey cr rnd p req key = Inr w"
  obtains kid where "kid \<noteq> []" "local_ValidateKeyReference (dp_base p) kid = None"
    "wrapWithAESGCM cr rnd (dp_name p) kid (derived_key cr p kid) (kr_Context req) key [] = Inr w"
proof -
  let ?kid = "if kr_KeyID req = [] then lp_active (dp_base p) else kr_KeyID req"
  have "local_ValidateKeyReference (dp_base p) ?kid = None"
    using assms unfolding derived_WrapKey_def Let_def by (cases "local_ValidateKeyReference (dp_base p) ?kid") simp_all
  with assms resolved_reference [OF this] show thesis
    by (intro that [of ?kid]) (simp_all add: derived_WrapKey_def Let_def)
qed

interpretation lp: key_provider "crypto_ok cr" "local_KeyProvider cr rnd p"
    "\<lambda>req key w. \<exists>rnd. local_WrapKey cr rnd p req key = Inr w" for cr rnd p
proof
  show "wd_Provider w = kp_Name (local_KeyProvider cr rnd p) \<and> wd_KeyID w \<noteq> [] \<and> wd_Ciphertext w \<noteq> []"
    if "\<exists>rnd. local_WrapKey cr rnd p req key = Inr w" for req key w
    using that by (auto simp: local_KeyProvider_def elim!: local_WrapKey_Inr dest!: wrapWithAESGCM_fields)
  show "kp_UnwrapKey (local_KeyProvider cr rnd p) (req\<lparr>kr_KeyID := wd_KeyID w\<rparr>) w = Inr key"
    if "crypto_ok cr" "\<exists>rnd. local_WrapKey cr rnd p req key = Inr w" "length key = DataKeySize" for req key w
    using that(2) unwrap_wrap_AESGCM [OF that(1) _ that(3)] wrapWithAESGCM_fields
    by (fastforce simp: local_UnwrapKey_def local_KeyProvider_def elim!: local_WrapKey_Inr)
qed (auto simp: local_KeyProvider_def local_GenerateDataKey_def local_UnwrapKey_def
    dest: generate_and_wrapD unwrapWithAESGCM_size split: if_split_asm option.splits)

interpretation dp: key_provider "crypto_ok cr" "derived_KeyProvider cr rnd p"
    "\<lambda>req key w. \<exists>rnd. derived_WrapKey cr rnd p req key = Inr w" for cr rnd p
proof
  show "wd_Provider w = kp_Name (derived_KeyProvider cr rnd p) \<and> wd_KeyID w \<noteq> [] \<and> wd_Ciphertext w \<noteq> []"
    if "\<exists>rnd. derived_WrapKey cr rnd p req key = Inr w" for req key w
    using that by (auto simp: derived_KeyProvider_def elim!: derived_WrapKey_Inr dest!: wrapWithAESGCM_fields)
  show "kp_UnwrapKey (derived_KeyProvider cr rnd p) (req\<lparr>kr_KeyID := wd_KeyID w\<rparr>) w = Inr key"
    if "crypto_ok cr" "\<exists>rnd. derived_WrapKey cr rnd p req key = Inr w" "length key = DataKeySize" for req key w
    using that(2) unwrap_wrap_AESGCM [OF that(1) _ that(3)] wrapWithAESGCM_fields
    by (fastforce simp: derived_UnwrapKey_def derived_KeyProvider_def elim!: derived_WrapKey_Inr)
qed (auto simp: derived_KeyProvider_def derived_GenerateDataKey_def derived_UnwrapKey_def
    dest: generate_and_wrapD unwrapWithAESGCM_size split: if_split_asm option.splits)

interpretation cp: key_provider "crypto_ok cr \<and> ck_keyMD5 p \<noteq> []" "customer_KeyProvider cr rnd p"
    "\<lambda>req key w. \<exists>rnd. customer_WrapKey cr rnd p req key = Inr w" for cr rnd p
proof
  show "wd_Provider w = kp_Name (customer_KeyProvider cr rnd p) \<and> wd_KeyID w \<noteq> [] \<and> wd_Ciphertext w \<noteq> []"
    if "crypto_ok cr \<and> ck_keyMD5 p \<noteq> []" "\<exists>rnd. customer_WrapKey cr rnd p req key = Inr w" for req key w
    using that
    by (auto simp: customer_WrapKey_def customer_KeyProvider_def bind_res_Inr
        dest!: wrapWithAESGCM_fields crypto_okD(7))
  show "kp_UnwrapKey (customer_KeyProvider cr rnd p) (req\<lparr>kr_KeyID := wd_KeyID w\<rparr>) w = Inr key"
    if s: "crypto_ok cr \<and> ck_keyMD5 p \<noteq> []" and w: "\<exists>rnd. customer_WrapKey cr rnd p req key = Inr w"
      and k: "length key = DataKeySize" for req key w
  proof -
    from s have cr: "crypto_ok cr" by simp
    from w obtain rnd salt where salt: "length salt = sha256Size"
      and w: "wrapWithAESGCM cr rnd customerProviderName (cr_base64 cr (ck_keyMD5 p))
        (customer_wrapping_key cr p salt (kr_Context req)) (kr_Context req) key [(''salt'', cr_base64 cr salt)] = Inr w"
      by (auto simp: customer_WrapKey_def bind_res_Inr dest: ReadFull_length)
    from wrapWithAESGCM_fields [OF w] unwrap_wrap_AESGCM [OF cr w k] salt show ?thesis
      by (simp add: customer_KeyProvider_def customer_UnwrapKey_def customer_ValidateKeyReference_def crypto_okD [OF cr])
  qed
qed (auto simp: customer_KeyProvider_def customer_GenerateDataKey_def customer_UnwrapKey_def
    dest: generate_and_wrapD unwrapWithAESGCM_size split: if_split_asm option.splits)

text \<open>
  What is relied on of the service: under the same key and encryption context it decrypts what it
  generated or encrypted.
\<close>

definition kms_ok :: "kms_client \<Rightarrow> bool" where
  "kms_ok client \<longleftrightarrow> (\<forall>kid ectx p blob.
     (kms_Encrypt client kid ectx p = Inr (Some blob) \<longrightarrow> kms_Decrypt client kid ectx blob = Inr (Some p))
     \<and> (kms_GenerateDataKey client kid ectx = Inr (Some (p, blob)) \<longrightarrow> kms_Decrypt client kid ectx blob = Inr (Some p)))"

definition aws_genuine :: "crypto \<Rightarrow> AWSKMSProvider \<Rightarrow> KeyRequest \<Rightarrow> string \<Rightarrow> WrappedDataKey \<Rightarrow> bool" where
  "aws_genuine cr p req key w \<longleftrightarrow> aws_WrapKey cr p req key = Inr w \<or> aws_GenerateDataKey cr p req = Inr (key, w)"

lemma aws_keyID_valid: "aws_keyID p r = Inr kid \<Longrightarrow> kid \<noteq> [] \<and> aws_ValidateKeyReference p kid = None"
  by (auto simp: aws_keyID_def aws_ValidateKeyReference_def Let_def split: if_split_asm option.splits)

definition aws_record :: "string \<Rightarrow> string \<Rightarrow> WrappedDataKey" where
  "aws_record kid blob = \<lparr>wd_Provider = awsKMSProviderName, wd_KeyID = kid, wd_Ciphertext = blob, wd_Metadata = []\<rparr>"

lemma aws_record_simps [simp]:
  "wd_Provider (aws_record kid blob) = awsKMSProviderName" "wd_KeyID (aws_record kid blob) = kid"
  "wd_Ciphertext (aws_record kid blob) = blob"
  by (simp_all add: aws_record_def)

lemma aws_WrapKey_Inr:
  assumes "aws_WrapKey cr p req key = Inr w"
  shows "\<exists>kid ectx blob. aws_keyID p (kr_KeyID req) = Inr kid \<and> length key = DataKeySize \<and> blob \<noteq> []
    \<and> kmsEncryptionContext cr (kr_ClientContext req) (kr_Context req) = Inr ectx \<and> w = aws_record kid blob
    \<and> kms_Encrypt (aws_client p) kid ectx key = Inr (Some blob)"
  using assms unfolding aws_WrapKey_def aws_record_def
  by (auto simp: bind_res_Inr split: option.splits if_split_asm)

lemma aws_GenerateDataKey_Inr:
  assumes "aws_GenerateDataKey cr p req = Inr (key, w)"
  shows "\<exists>kid ectx blob. aws_keyID p (kr_KeyID req) = Inr kid \<and> length key = DataKeySize \<and> blob \<noteq> []
    \<and> kmsEncryptionContext cr (kr_ClientContext req) (kr_Context req) = Inr ectx \<and> w = aws_record kid blob
    \<and> kms_GenerateDataKey (aws_client p) kid ectx = Inr (Some (key, blob))"
proof -
  from assms obtain kid ectx out where k: "aws_keyID p (kr_KeyID req) = Inr kid"
    "kmsEncryptionContext cr (kr_ClientContext req) (kr_Context req) = Inr ectx"
    "kms_GenerateDataKey (aws_client p) kid ectx = Inr out"
    and r: "(case out of None \<Rightarrow> Inl (Wrapped ''invalid AWS KMS data-key response'' ErrInvalidKey)
      | Some (plaintext, blob) \<Rightarrow> if length plaintext \<noteq> DataKeySize \<or> blob = []
          then Inl (Wrapped ''invalid AWS KMS data-key response'' ErrInvalidKey)
          else Inr (plaintext, aws_record kid blob)) = Inr (key, w)"
    unfolding aws_GenerateDataKey_def aws_record_def bind_res_Inr with_msg_Inr by blast
  from r k show ?thesis by (auto split: option.splits if_split_asm)
qed

lemma aws_genuineD:
  assumes "aws_genuine cr p req key w"
  obtains kid ectx blob where "kid \<noteq> []" "aws_ValidateKeyReference p kid = None" "length key = DataKeySize" "blob \<noteq> []"
    "kmsEncryptionContext cr (kr_ClientContext req) (kr_Context req) = Inr ectx" "w = aws_record kid blob"
    "kms_ok (aws_client p) \<Longrightarrow> kms_Decrypt (aws_client p) kid ectx blob = Inr (Some key)"
  using assms aws_WrapKey_Inr [of cr p req key w] aws_GenerateDataKey_Inr [of cr p req key w] aws_keyID_valid
  unfolding aws_genuine_def kms_ok_def by metis

lemma aws_UnwrapKey_size: "aws_UnwrapKey cr p req w = Inr key \<Longrightarrow> length key = DataKeySize"
  by (auto simp: aws_UnwrapKey_def bind_res_Inr split: if_split_asm option.splits)

interpretation ap: key_provider "kms_ok (aws_client p)" "aws_KeyProvider cr p" "aws_genuine cr p" for cr p
proof
  show "wd_Provider w = kp_Name (aws_KeyProvider cr p) \<and> wd_KeyID w \<noteq> [] \<and> wd_Ciphertext w \<noteq> []"
    if "aws_genuine cr p req key w" for req key w
    using that by (rule aws_genuineD) (simp add: aws_KeyProvider_def)
  show "kp_UnwrapKey (aws_KeyProvider cr p) (req\<lparr>kr_KeyID := wd_KeyID w\<rparr>) w = Inr key"
    if "kms_ok (aws_client p)" "aws_genuine cr p req key w" for req key w
    using that(2) by (rule aws_genuineD) (simp add: aws_KeyProvider_def aws_UnwrapKey_def that(1) with_msg_def)
  show "length key = DataKeySize \<and> aws_genuine cr p req key w"
    if "kp_GenerateDataKey (aws_KeyProvider cr p) req = Inr (key, w)" for req key w
  proof -
    from that have g: "aws_genuine cr p req key w" by (simp add: aws_KeyProvider_def aws_genuine_def)
    moreover from g have "length key = DataKeySize" by (rule aws_genuineD)
    ultimately show ?thesis by simp
  qed
  show "length key = DataKeySize" if "kp_UnwrapKey (aws_KeyProvider cr p) req w = Inr key" for req w key
    using that aws_UnwrapKey_size by (simp add: aws_KeyProvider_def)
qed (simp add: aws_KeyProvider_def aws_genuine_def)

end
