(* ===== verification/Encryption_Container.thy ===== *)
theory Encryption_Container
  imports Encryption_Keys "HOL-Library.Word" "HOL-Library.Signed_Division"
begin

text \<open>
  The format of encrypted objects and IAM stores (internal/encryption/container.go): a preamble,
  a header with the wrapped data keys, and chunks sealed under one or two data keys. The writer
  takes the plain text in pieces of any size, the reader answers ranges of it, and rewrapping
  replaces the header only. Sizes are int64 and chunk numbers uint32, with the wrap-around where
  the code computes with them.
\<close>

section \<open>Header\<close>

definition DefaultChunkSize :: nat where
  "DefaultChunkSize = 1024 * 1024"

definition containerVersion :: int where
  "containerVersion = 1"

definition maxHeaderSize :: nat where
  "maxHeaderSize = 64 * 1024"

definition preambleSize :: nat where
  "preambleSize = 12"

definition containerMagic :: string where
  "containerMagic = ''VGWSSE1'' @ [CHR 0x00]"

definition ModeSSES3 :: string where
  "ModeSSES3 = ''SSE-S3''"

definition ModeSSEC :: string where
  "ModeSSEC = ''SSE-C''"

definition ModeSSEKMS :: string where
  "ModeSSEKMS = ''SSE-KMS''"

definition ModeDSSEKMS :: string where
  "ModeDSSEKMS = ''DSSE-KMS''"

definition known_mode :: "string \<Rightarrow> bool" where
  "known_mode mode \<longleftrightarrow> mode = ModeSSES3 \<or> mode = ModeSSEC \<or> mode = ModeSSEKMS \<or> mode = ModeDSSEKMS"

record enc_Identity =
  ei_Bucket :: string
  ei_Key :: string
  ei_VersionID :: string

definition Identity_valid :: "enc_Identity \<Rightarrow> bool" where
  "Identity_valid i \<longleftrightarrow> TrimSpace (ei_Bucket i) \<noteq> [] \<and> ei_Key i \<noteq> []"

record layerManifest =
  lm_WrappedDataKey :: WrappedDataKey
  lm_NoncePrefix :: string
  lm_Context :: string

record containerManifest =
  cm_Version :: int
  cm_Mode :: string
  cm_PlaintextSize :: int
  cm_ChunkSize :: int
  cm_IdentityHash :: string
  cm_PayloadAAD :: string
  cm_Layers :: "layerManifest list"
  cm_HeaderMAC :: string
  cm_BucketKeyEnabled :: bool

text \<open>
  What encoding/json makes of a header and of an identity, and how it decodes a header without
  accepting unknown members or trailing text.
\<close>

record codec =
  cd_Marshal :: "containerManifest \<Rightarrow> string"
  cd_Unmarshal :: "string \<Rightarrow> containerManifest option"
  cd_Identity :: "enc_Identity \<Rightarrow> string"

record LayerRequest =
  lr_Provider :: "KeyProvider option"
  lr_KeyID :: string
  lr_Context :: string

record WriterOptions =
  wo_Identity :: enc_Identity
  wo_Mode :: string
  wo_PlaintextSize :: int
  wo_Layers :: "LayerRequest list"
  wo_BucketKeyEnabled :: bool

record KeyReference =
  kref_Provider :: string
  kref_KeyID :: string

record ContainerInfo =
  ci_FormatVersion :: int
  ci_Mode :: string
  ci_PlaintextSize :: int
  ci_BucketKeyEnabled :: bool
  ci_KeyReferences :: "KeyReference list"

section \<open>Integers in bytes\<close>

definition wrap64 :: "int \<Rightarrow> int" where
  "wrap64 x = sint (word_of_int x :: 64 word)"

text \<open>\<open>binary.BigEndian.PutUint32\<close> and \<open>Uint32\<close>.\<close>

definition PutUint32 :: "32 word \<Rightarrow> string" where
  "PutUint32 w = map (\<lambda>k. char_of (unat w div 256 ^ k)) [3, 2, 1, 0]"

definition Uint32 :: "string \<Rightarrow> 32 word" where
  "Uint32 b = word_of_nat (foldl (\<lambda>n c. n * 256 + of_char c) 0 b)"

definition chunkCount :: "int \<Rightarrow> int \<Rightarrow> int" where
  "chunkCount n chunkSize = (if n = 0 then 0 else wrap64 (wrap64 (n + chunkSize) - 1) sdiv chunkSize)"

text \<open>\<open>int64(^uint64(0) >> 1)\<close> is the largest int64.\<close>

definition MaximumCiphertextSize :: "int \<Rightarrow> int \<Rightarrow> (go_error, int) result" where
  "MaximumCiphertextSize plaintextSize layers =
     (if plaintextSize < 0 \<or> layers < 1 \<or> layers > 2 then Inl ErrInvalidContainer
      else
        let chunks = chunkCount plaintextSize (int DefaultChunkSize);
            overhead = wrap64 (int (preambleSize + maxHeaderSize) + wrap64 (chunks * (int gcmTagSize * layers)))
        in if plaintextSize > wrap64 (2 ^ 63 - 1 - overhead) then Inl ErrInvalidContainer
           else Inr (wrap64 (plaintextSize + overhead)))"

section \<open>Contexts, nonces and authentication codes\<close>

definition marshalIdentity :: "crypto \<Rightarrow> codec \<Rightarrow> enc_Identity \<Rightarrow> string \<times> string" where
  "marshalIdentity cr cd identity = (cd_Identity cd identity, cr_SHA256 cr (cd_Identity cd identity))"

definition layerContext :: "string \<Rightarrow> string \<Rightarrow> nat \<Rightarrow> string \<Rightarrow> string" where
  "layerContext identity mode index additional =
     ''versitygw/object-key/'' @ identity @ [CHR 0x00] @ mode @ [char_of (index mod 256)] @ additional"

definition marshalManifestCore :: "codec \<Rightarrow> containerManifest \<Rightarrow> string" where
  "marshalManifestCore cd manifest = cd_Marshal cd (manifest\<lparr>cm_HeaderMAC := []\<rparr>)"

definition computeHeaderMAC :: "crypto \<Rightarrow> string list \<Rightarrow> string \<Rightarrow> string" where
  "computeHeaderMAC cr keys core = cr_HMAC cr (cr_SHA256 cr (concat keys)) (containerMagic @ core)"

definition chunkNonce :: "string \<Rightarrow> 32 word \<Rightarrow> string" where
  "chunkNonce noncePrefix index = take 8 (noncePrefix @ replicate 8 (CHR 0x00)) @ PutUint32 index"

definition chunkAAD :: "string \<Rightarrow> string \<Rightarrow> 32 word \<Rightarrow> nat \<Rightarrow> string" where
  "chunkAAD payloadAAD identityHash index layer =
     payloadAAD @ identityHash @ PutUint32 index @ PutUint32 (word_of_nat layer)"

section \<open>Writing\<close>

text \<open>
  A destination holds what was written so far and which of the coming writes fail; a write that
  fails adds nothing.
\<close>

record destination =
  d_bytes :: string
  d_fails :: "go_error option list"

definition dest_Write :: "string \<Rightarrow> destination \<Rightarrow> go_error option \<times> destination" where
  "dest_Write p d =
     (case d_fails d of
        Some err # fails \<Rightarrow> (Some err, d\<lparr>d_fails := fails\<rparr>)
      | _ \<Rightarrow> (None, \<lparr>d_bytes = d_bytes d @ p, d_fails = tl (d_fails d)\<rparr>))"

record Writer =
  w_destination :: destination
  w_manifest :: containerManifest
  w_header :: string
  w_dataKeys :: "string list"
  w_buffer :: string
  w_written :: int
  w_chunkIndex :: "32 word"
  w_ciphertextSize :: int
  w_closed :: bool
  w_err :: "go_error option"

text \<open>One data key and one nonce prefix per layer.\<close>

fun generate_layers ::
    "string \<Rightarrow> string \<Rightarrow> nat \<Rightarrow> string \<Rightarrow> LayerRequest list \<Rightarrow> (go_error, (string \<times> layerManifest) list) result" where
  "generate_layers identity mode index rnd [] = Inr []"
| "generate_layers identity mode index rnd (request # requests) =
     (case lr_Provider request of
        None \<Rightarrow> Inl ErrInvalidKey
      | Some provider \<Rightarrow>
          bind_res (with_msg ''generate layer data key: ''
              (kp_GenerateDataKey provider
                 \<lparr>kr_KeyID = lr_KeyID request, kr_Context = layerContext identity mode index (lr_Context request),
                  kr_ClientContext = lr_Context request\<rparr>)) (\<lambda>(key, wrapped).
          bind_res (with_msg ''generate object nonce: '' (ReadFull rnd 8)) (\<lambda>noncePrefix.
          bind_res (generate_layers identity mode (Suc index) (drop 8 rnd) requests) (\<lambda>rest.
          Inr ((key, \<lparr>lm_WrappedDataKey = wrapped, lm_NoncePrefix = noncePrefix, lm_Context = lr_Context request\<rparr>) # rest)))))"

definition preamble_for :: "string \<Rightarrow> string" where
  "preamble_for header = containerMagic @ PutUint32 (word_of_nat (length header))"

definition NewWriter ::
    "crypto \<Rightarrow> codec \<Rightarrow> string \<Rightarrow> destination \<Rightarrow> WriterOptions \<Rightarrow> (go_error, Writer) result" where
  "NewWriter cr cd rnd destination opts =
     (if \<not> Identity_valid (wo_Identity opts) \<or> wo_PlaintextSize opts < 0 \<or> wo_Layers opts = [] \<or> length (wo_Layers opts) > 2 then
        Inl ErrInvalidContainer
      else if \<not> known_mode (wo_Mode opts) then Inl ErrUnsupportedEncryption
      else if wo_Mode opts = ModeDSSEKMS \<and> length (wo_Layers opts) \<noteq> 2 then Inl ErrInvalidContainer
      else if wo_Mode opts \<noteq> ModeDSSEKMS \<and> length (wo_Layers opts) \<noteq> 1 then Inl ErrInvalidContainer
      else
        let (identityBytes, identityHash) = marshalIdentity cr cd (wo_Identity opts) in
        bind_res (with_msg ''generate payload AAD: '' (ReadFull rnd sha256Size)) (\<lambda>payloadAAD.
        bind_res (generate_layers identityBytes (wo_Mode opts) 0 (drop sha256Size rnd) (wo_Layers opts)) (\<lambda>generated.
        let manifest = \<lparr>cm_Version = containerVersion, cm_Mode = wo_Mode opts, cm_PlaintextSize = wo_PlaintextSize opts,
              cm_ChunkSize = int DefaultChunkSize, cm_IdentityHash = identityHash, cm_PayloadAAD = payloadAAD,
              cm_Layers = map snd generated, cm_HeaderMAC = [], cm_BucketKeyEnabled = wo_BucketKeyEnabled opts\<rparr>;
            dataKeys = map fst generated;
            manifest = manifest\<lparr>cm_HeaderMAC := computeHeaderMAC cr dataKeys (marshalManifestCore cd manifest)\<rparr>;
            header = cd_Marshal cd manifest
        in if length header > maxHeaderSize then Inl ErrInvalidContainer
           else
             case dest_Write (preamble_for header) destination of
               (Some err, _) \<Rightarrow> Inl (Wrapped ''write encrypted object preamble: '' err)
             | (None, destination1) \<Rightarrow>
                 (case dest_Write header destination1 of
                    (Some err, _) \<Rightarrow> Inl (Wrapped ''write encrypted object header: '' err)
                  | (None, destination2) \<Rightarrow>
                      Inr \<lparr>w_destination = destination2, w_manifest = manifest, w_header = header, w_dataKeys = dataKeys,
                           w_buffer = [], w_written = 0, w_chunkIndex = 0,
                           w_ciphertextSize = wrap64 (int (preambleSize + length header) + wo_PlaintextSize opts
                             + chunkCount (wo_PlaintextSize opts) (int DefaultChunkSize)
                               * (int gcmTagSize * int (length (wo_Layers opts)))),
                           w_closed = False, w_err = None\<rparr>))))"

text \<open>The layers are applied in order; \<open>seal_layers \<dots> l\<close> is the payload after the first \<open>l\<close>.\<close>

fun seal_layers ::
    "crypto \<Rightarrow> containerManifest \<Rightarrow> string list \<Rightarrow> 32 word \<Rightarrow> nat \<Rightarrow> string \<Rightarrow> (go_error, string) result" where
  "seal_layers cr m keys index 0 payload = Inr payload"
| "seal_layers cr m keys index (Suc l) payload =
     bind_res (seal_layers cr m keys index l payload) (\<lambda>payload.
     bind_res (newGCM (keys ! l)) (\<lambda>aead.
     Inr (cr_Seal cr aead (chunkNonce (lm_NoncePrefix (cm_Layers m ! l)) index)
            (chunkAAD (cm_PayloadAAD m) (cm_IdentityHash m) index l) payload)))"

definition flushChunk :: "crypto \<Rightarrow> Writer \<Rightarrow> go_error option \<times> Writer" where
  "flushChunk cr w =
     (case seal_layers cr (w_manifest w) (w_dataKeys w) (w_chunkIndex w) (length (cm_Layers (w_manifest w))) (w_buffer w) of
        Inl err \<Rightarrow> (Some err, w)
      | Inr payload \<Rightarrow>
          (case dest_Write payload (w_destination w) of
             (Some err, d) \<Rightarrow> (Some (Wrapped ''write encrypted object chunk: '' err), w\<lparr>w_destination := d\<rparr>)
           | (None, d) \<Rightarrow>
               (None, w\<lparr>w_destination := d, w_buffer := [], w_chunkIndex := w_chunkIndex w + 1\<rparr>)))"

text \<open>The loop of \<open>Write\<close>: what is left of the input, the error and the writer.\<close>

partial_function (option) write_loop ::
    "crypto \<Rightarrow> string \<Rightarrow> Writer \<Rightarrow> (string \<times> go_error option \<times> Writer) option" where
  "write_loop cr p w =
     (if p = [] then Some ([], None, w)
      else
        let n = min (DefaultChunkSize - length (w_buffer w)) (length p);
            w1 = w\<lparr>w_buffer := w_buffer w @ take n p, w_written := w_written w + int n\<rparr>
        in if length (w_buffer w1) = DefaultChunkSize then
             (case flushChunk cr w1 of
                (Some err, w2) \<Rightarrow> Some (drop n p, Some err, w2\<lparr>w_err := Some err\<rparr>)
              | (None, w2) \<Rightarrow> write_loop cr (drop n p) w2)
           else write_loop cr (drop n p) w1)"

definition Writer_Write :: "crypto \<Rightarrow> string \<Rightarrow> Writer \<Rightarrow> (int \<times> go_error option \<times> Writer) option" where
  "Writer_Write cr p w =
     (if w_closed w then Some (0, Some (ErrorString ''write to closed encrypted object''), w)
      else if w_err w \<noteq> None then Some (0, w_err w, w)
      else if int (length p) > cm_PlaintextSize (w_manifest w) - w_written w then
        Some (0, Some (Wrapped ''plaintext exceeds declared size'' ErrInvalidContainer), w)
      else
        case write_loop cr p w of
          None \<Rightarrow> None
        | Some (p', err, w') \<Rightarrow> Some (int (length p - length p'), err, w'))"

definition Writer_Close :: "crypto \<Rightarrow> Writer \<Rightarrow> go_error option \<times> Writer" where
  "Writer_Close cr w =
     (if w_closed w then (w_err w, w)
      else
        let finish = (\<lambda>w. w\<lparr>w_dataKeys := [], w_buffer := map (\<lambda>_. CHR 0x00) (w_buffer w)\<rparr>);
            w = w\<lparr>w_closed := True\<rparr>
        in if w_err w \<noteq> None then (w_err w, finish w)
           else if w_written w \<noteq> cm_PlaintextSize (w_manifest w) then
             (Some (Wrapped ''wrote too few plaintext bytes'' ErrInvalidContainer), finish w)
           else if w_buffer w \<noteq> [] then
             (case flushChunk cr w of (err, w') \<Rightarrow> (err, finish (w'\<lparr>w_err := err\<rparr>)))
           else (None, finish w))"

section \<open>Opening\<close>

text \<open>\<open>ReadAt\<close> of a byte source, into a buffer of \<open>n\<close> bytes at \<open>off\<close>; \<open>None\<close> is an error.\<close>

definition ReadAt :: "string \<Rightarrow> int \<Rightarrow> int \<Rightarrow> string option" where
  "ReadAt source off n =
     (if off < 0 \<or> off + n > int (length source) then None else Some (take (nat n) (drop (nat off) source)))"

definition layer_complete :: "layerManifest \<Rightarrow> bool" where
  "layer_complete layer \<longleftrightarrow>
     length (lm_NoncePrefix layer) = 8 \<and> wd_Provider (lm_WrappedDataKey layer) \<noteq> []
     \<and> wd_KeyID (lm_WrappedDataKey layer) \<noteq> [] \<and> wd_Ciphertext (lm_WrappedDataKey layer) \<noteq> []"

definition readContainerManifest ::
    "codec \<Rightarrow> string \<Rightarrow> int \<Rightarrow> (go_error, containerManifest \<times> int) result" where
  "readContainerManifest cd source sourceSize =
     (if sourceSize < int preambleSize then Inl ErrInvalidContainer
      else case ReadAt source 0 (int preambleSize) of
        None \<Rightarrow> Inl (Wrapped ''read preamble'' ErrInvalidContainer)
      | Some preamble \<Rightarrow>
          if take 8 preamble \<noteq> containerMagic then Inl ErrInvalidContainer
          else
            let headerLength = int (unat (Uint32 (drop 8 preamble)))
            in if headerLength \<le> 0 \<or> headerLength > int maxHeaderSize \<or> int preambleSize + headerLength > sourceSize then
                 Inl ErrInvalidContainer
               else case ReadAt source (int preambleSize) headerLength of
                 None \<Rightarrow> Inl (Wrapped ''read header'' ErrInvalidContainer)
               | Some header \<Rightarrow>
                   (case cd_Unmarshal cd header of
                      None \<Rightarrow> Inl (Wrapped ''decode header'' ErrInvalidContainer)
                    | Some manifest \<Rightarrow>
                        if cm_Version manifest \<noteq> containerVersion \<or> cm_ChunkSize manifest \<noteq> int DefaultChunkSize
                           \<or> cm_PlaintextSize manifest < 0 \<or> length (cm_IdentityHash manifest) \<noteq> sha256Size
                           \<or> length (cm_PayloadAAD manifest) \<noteq> sha256Size \<or> cm_Layers manifest = []
                           \<or> length (cm_Layers manifest) > 2 \<or> length (cm_HeaderMAC manifest) \<noteq> sha256Size then
                          Inl ErrInvalidContainer
                        else if \<not> known_mode (cm_Mode manifest) then Inl ErrInvalidContainer
                        else if (cm_Mode manifest = ModeDSSEKMS) \<noteq> (length (cm_Layers manifest) = 2) then
                          Inl ErrInvalidContainer
                        else if \<not> list_all layer_complete (cm_Layers manifest) then Inl ErrInvalidContainer
                        else if sourceSize \<noteq>
                            wrap64 (wrap64 (int preambleSize + headerLength + cm_PlaintextSize manifest)
                              + wrap64 (chunkCount (cm_PlaintextSize manifest) (cm_ChunkSize manifest)
                                  * (int gcmTagSize * int (length (cm_Layers manifest))))) then
                          Inl ErrInvalidContainer
                        else Inr (manifest, headerLength)))"

definition containerInfo :: "containerManifest \<Rightarrow> ContainerInfo" where
  "containerInfo manifest =
     \<lparr>ci_FormatVersion = containerVersion, ci_Mode = cm_Mode manifest, ci_PlaintextSize = cm_PlaintextSize manifest,
      ci_BucketKeyEnabled = cm_BucketKeyEnabled manifest,
      ci_KeyReferences = map (\<lambda>l. \<lparr>kref_Provider = wd_Provider (lm_WrappedDataKey l), kref_KeyID = wd_KeyID (lm_WrappedDataKey l)\<rparr>)
        (cm_Layers manifest)\<rparr>"

definition Inspect :: "codec \<Rightarrow> string \<Rightarrow> int \<Rightarrow> (go_error, ContainerInfo) result" where
  "Inspect cd source sourceSize =
     bind_res (readContainerManifest cd source sourceSize) (\<lambda>(manifest, _). Inr (containerInfo manifest))"

definition IsContainer :: "string \<Rightarrow> bool" where
  "IsContainer source = (case ReadAt source 0 8 of None \<Rightarrow> False | Some magic \<Rightarrow> magic = containerMagic)"

type_synonym ProviderMap = "string \<Rightarrow> KeyProvider option"

record Reader =
  rd_source :: string
  rd_manifest :: containerManifest
  rd_dataKeys :: "string list"
  rd_dataOffset :: int
  rd_sourceSize :: int
  rd_closed :: bool

definition unwrap_request :: "string \<Rightarrow> string \<Rightarrow> nat \<Rightarrow> layerManifest \<Rightarrow> KeyRequest" where
  "unwrap_request identity mode index layer =
     \<lparr>kr_KeyID = wd_KeyID (lm_WrappedDataKey layer), kr_Context = layerContext identity mode index (lm_Context layer),
      kr_ClientContext = lm_Context layer\<rparr>"

fun unwrap_layers ::
    "ProviderMap \<Rightarrow> string \<Rightarrow> string \<Rightarrow> nat \<Rightarrow> layerManifest list \<Rightarrow> (go_error, string list) result" where
  "unwrap_layers providers identity mode index [] = Inr []"
| "unwrap_layers providers identity mode index (layer # layers) =
     (case providers (wd_Provider (lm_WrappedDataKey layer)) of
        None \<Rightarrow> Inl ErrKeyNotFound
      | Some provider \<Rightarrow>
          (case kp_UnwrapKey provider (unwrap_request identity mode index layer) (lm_WrappedDataKey layer) of
             Inl err \<Rightarrow> if wraps err ErrAuthentication then Inl ErrAuthentication else Inl (Wrapped ''unwrap layer: '' err)
           | Inr key \<Rightarrow>
               bind_res (unwrap_layers providers identity mode (Suc index) layers) (\<lambda>keys. Inr (key # keys))))"

definition Open ::
    "crypto \<Rightarrow> codec \<Rightarrow> string \<Rightarrow> int \<Rightarrow> enc_Identity \<Rightarrow> ProviderMap \<Rightarrow> (go_error, Reader) result" where
  "Open cr cd source sourceSize identity providers =
     (if \<not> Identity_valid identity then Inl ErrInvalidContainer
      else
        bind_res (readContainerManifest cd source sourceSize) (\<lambda>(manifest, headerLength).
        let (identityBytes, identityHash) = marshalIdentity cr cd identity in
        if identityHash \<noteq> cm_IdentityHash manifest then Inl ErrIdentityMismatch
        else
          bind_res (unwrap_layers providers identityBytes (cm_Mode manifest) 0 (cm_Layers manifest)) (\<lambda>keys.
          if computeHeaderMAC cr keys (marshalManifestCore cd manifest) \<noteq> cm_HeaderMAC manifest then Inl ErrAuthentication
          else Inr \<lparr>rd_source = source, rd_manifest = manifest, rd_dataKeys = keys,
                    rd_dataOffset = int preambleSize + headerLength, rd_sourceSize = sourceSize, rd_closed = False\<rparr>)))"

section \<open>Reading ranges\<close>

text \<open>The layers are removed in reverse order; \<open>open_layers \<dots> l\<close> removes the first \<open>l\<close>.\<close>

fun open_layers ::
    "crypto \<Rightarrow> containerManifest \<Rightarrow> string list \<Rightarrow> 32 word \<Rightarrow> nat \<Rightarrow> string \<Rightarrow> (go_error, string) result" where
  "open_layers cr m keys index 0 payload = Inr payload"
| "open_layers cr m keys index (Suc l) payload =
     bind_res (newGCM (keys ! l)) (\<lambda>aead.
     case cr_Open cr aead (chunkNonce (lm_NoncePrefix (cm_Layers m ! l)) index)
            (chunkAAD (cm_PayloadAAD m) (cm_IdentityHash m) index l) payload of
       None \<Rightarrow> Inl ErrAuthentication
     | Some plaintext \<Rightarrow> open_layers cr m keys index l plaintext)"

definition readChunk :: "crypto \<Rightarrow> Reader \<Rightarrow> 32 word \<Rightarrow> (go_error, string) result" where
  "readChunk cr r index =
     (let m = rd_manifest r; layers = int (length (cm_Layers m)) in
      if rd_closed r \<or> length (rd_dataKeys r) \<noteq> length (cm_Layers m) then Inl ErrInvalidContainer
      else
        let plainStart = int (unat index) * cm_ChunkSize m
        in if plainStart \<ge> cm_PlaintextSize m then Inl ErrInvalidContainer
           else
             let plainLength = min (cm_ChunkSize m) (cm_PlaintextSize m - plainStart);
                 cipherChunkSize = cm_ChunkSize m + int gcmTagSize * layers;
                 cipherLength = plainLength + int gcmTagSize * layers
             in case ReadAt (rd_source r) (rd_dataOffset r + int (unat index) * cipherChunkSize) cipherLength of
                  None \<Rightarrow> Inl (Wrapped ''read chunk'' ErrInvalidContainer)
                | Some payload \<Rightarrow> open_layers cr m (rd_dataKeys r) index (length (cm_Layers m)) payload)"

record rangeReader =
  rr_container :: Reader
  rr_position :: int
  rr_end :: int
  rr_chunk :: "string option"
  rr_chunkBase :: int
  rr_closed :: bool

definition RangeReader :: "Reader \<Rightarrow> int \<Rightarrow> int \<Rightarrow> (go_error, rangeReader) result" where
  "RangeReader r start len =
     (if rd_closed r \<or> start < 0 \<or> len < 0 \<or> start > cm_PlaintextSize (rd_manifest r)
         \<or> len > cm_PlaintextSize (rd_manifest r) - start then Inl ErrInvalidContainer
      else Inr \<lparr>rr_container = r, rr_position = start, rr_end = start + len, rr_chunk = None, rr_chunkBase = 0,
                rr_closed = False\<rparr>)"

definition EOF :: go_error where
  "EOF = ErrorString ''EOF''"

text \<open>
  \<open>Read\<close> into a buffer of \<open>n\<close> bytes: the bytes, the error and the reader. \<open>cancelled\<close> is the error
  of a context that is done.
\<close>

definition copy_chunk :: "nat \<Rightarrow> string \<Rightarrow> rangeReader \<Rightarrow> (string \<times> go_error option) \<times> rangeReader" where
  "copy_chunk n chunk r =
     (let from = rr_position r - rr_chunkBase r;
          available = min (int (length chunk) - from) (rr_end r - rr_position r);
          out = take (nat (min available (int n))) (drop (nat from) chunk);
          r1 = r\<lparr>rr_position := rr_position r + int (length out), rr_chunk := Some chunk\<rparr>
      in ((out, None),
          if rr_position r1 \<ge> rr_chunkBase r1 + int (length chunk) then r1\<lparr>rr_chunk := None\<rparr> else r1))"

definition rangeReader_Read ::
    "crypto \<Rightarrow> go_error option \<Rightarrow> nat \<Rightarrow> rangeReader \<Rightarrow> (string \<times> go_error option) \<times> rangeReader" where
  "rangeReader_Read cr cancelled n r =
     (if rr_closed r \<or> rr_position r \<ge> rr_end r then (([], Some EOF), r)
      else if n = 0 then (([], None), r)
      else case cancelled of
        Some err \<Rightarrow> (([], Some err), r)
      | None \<Rightarrow>
          let chunkSize = cm_ChunkSize (rd_manifest (rr_container r));
              chunkIndex = rr_position r div chunkSize
          in case rr_chunk r of
               Some chunk \<Rightarrow>
                 if rr_chunkBase r = chunkIndex * chunkSize then copy_chunk n chunk r
                 else
                   (case readChunk cr (rr_container r) (word_of_int chunkIndex) of
                      Inl err \<Rightarrow> (([], Some err), r\<lparr>rr_chunk := Some (map (\<lambda>_. CHR 0x00) chunk)\<rparr>)
                    | Inr plain \<Rightarrow> copy_chunk n plain (r\<lparr>rr_chunkBase := chunkIndex * chunkSize\<rparr>))
             | None \<Rightarrow>
                 (case readChunk cr (rr_container r) (word_of_int chunkIndex) of
                    Inl err \<Rightarrow> (([], Some err), r)
                  | Inr plain \<Rightarrow> copy_chunk n plain (r\<lparr>rr_chunkBase := chunkIndex * chunkSize\<rparr>)))"

definition Reader_Close :: "Reader \<Rightarrow> Reader" where
  "Reader_Close r = (if rd_closed r then r else r\<lparr>rd_closed := True, rd_dataKeys := []\<rparr>)"

definition rangeReader_Close :: "rangeReader \<Rightarrow> rangeReader" where
  "rangeReader_Close r =
     (if rr_closed r then r
      else r\<lparr>rr_closed := True, rr_chunk := None, rr_container := Reader_Close (rr_container r)\<rparr>)"

text \<open>
  \<open>io.ReadAll\<close>: \<open>room k\<close> is the free space of its buffer at the k-th call.
\<close>

partial_function (option) ReadAll ::
    "crypto \<Rightarrow> (nat \<Rightarrow> nat) \<Rightarrow> (nat \<Rightarrow> go_error option) \<Rightarrow> nat \<Rightarrow> rangeReader \<Rightarrow> string
      \<Rightarrow> (string \<times> go_error option \<times> rangeReader) option" where
  "ReadAll cr room cancelled k r acc =
     (case rangeReader_Read cr (cancelled k) (room k) r of
        ((b, Some err), r') \<Rightarrow> Some (acc @ b, if err = EOF then None else Some err, r')
      | ((b, None), r') \<Rightarrow> ReadAll cr room cancelled (Suc k) r' (acc @ b))"

text \<open>The stream is closed at the end, and with it the reader.\<close>

definition ReadRange ::
    "crypto \<Rightarrow> (nat \<Rightarrow> nat) \<Rightarrow> (nat \<Rightarrow> go_error option) \<Rightarrow> Reader \<Rightarrow> int \<Rightarrow> int
      \<Rightarrow> ((go_error, string) result \<times> Reader) option" where
  "ReadRange cr room cancelled r start len =
     (case RangeReader r start len of
        Inl err \<Rightarrow> Some (Inl err, r)
      | Inr stream \<Rightarrow>
          (case ReadAll cr room cancelled 0 stream [] of
             None \<Rightarrow> None
           | Some (b, err, stream') \<Rightarrow>
               Some (case err of None \<Rightarrow> Inr b | Some e \<Rightarrow> Inl e, rr_container (rangeReader_Close stream'))))"

section \<open>Rewrapping\<close>




section \<open>Sizes\<close>

lemma chunk_size_pos [simp]: "0 < DefaultChunkSize" "DefaultChunkSize \<noteq> 0"
  by (simp_all add: DefaultChunkSize_def)

lemma wrap64_eq: "wrap64 x = signed_take_bit 63 x"
  unfolding wrap64_def by (simp only: sint_sbintrunc') simp

lemma wrap64_id: "- (2 ^ 63) \<le> x \<Longrightarrow> x < 2 ^ 63 \<Longrightarrow> wrap64 x = x"
  unfolding wrap64_eq by (rule signed_take_bit_int_eq_self)

lemma wrap64_range: "- (2 ^ 63) \<le> wrap64 x" "wrap64 x < 2 ^ 63"
  unfolding wrap64_eq
  using signed_take_bit_int_greater_eq_minus_exp [of 63 x] signed_take_bit_int_less_exp [of 63 x] by blast+

lemma wrap64_minus:
  assumes "2 ^ 63 \<le> x" "x < 2 ^ 63 + 2 ^ 64"
  shows "wrap64 x = x - 2 ^ 64"
proof -
  have "signed_take_bit 63 (x - 2 ^ 64) = signed_take_bit 63 x"
    by (simp add: signed_take_bit_eq_iff_take_bit_eq take_bit_eq_mod)
  moreover have "signed_take_bit 63 (x - 2 ^ 64) = x - 2 ^ 64"
    by (rule signed_take_bit_int_eq_self) (use assms in simp_all)
  ultimately show ?thesis by (simp add: wrap64_eq)
qed

lemma length_PutUint32 [simp]: "length (PutUint32 w) = 4"
  by (simp add: PutUint32_def)

lemma Uint32_PutUint32 [simp]: "Uint32 (PutUint32 w) = w"
proof -
  define n where "n = unat w"
  have q: "n div 256 ^ 2 = n div 256 div 256" "n div 256 ^ 3 = n div 256 div 256 div 256"
    by (simp_all add: div_mult2_eq [symmetric])
  have "n < 256 ^ 4" using unsigned_less [of w, where ?'a = nat] by (simp add: n_def)
  then have "n div 256 ^ 3 < 256" by (simp add: less_mult_imp_div_less)
  then have top: "n div 256 div 256 div 256 mod 256 = n div 256 div 256 div 256" by (simp only: q mod_less)
  have "foldl (\<lambda>n c. n * 256 + of_char c) 0 (PutUint32 w)
      = ((n div 256 ^ 3 mod 256 * 256 + n div 256 ^ 2 mod 256) * 256 + n div 256 mod 256) * 256 + n mod 256"
    by (simp add: PutUint32_def n_def)
  also have "\<dots> = n" by (simp only: q top div_mult_mod_eq)
  finally show ?thesis by (simp add: Uint32_def n_def)
qed

text \<open>The number of chunks, in unbounded arithmetic.\<close>

definition chunks_of :: "nat \<Rightarrow> nat" where
  "chunks_of n = (n + DefaultChunkSize - 1) div DefaultChunkSize"

lemma chunkCount_exact:
  assumes "int n \<le> 2 ^ 63 - 2 ^ 20"
  shows "chunkCount (int n) (int DefaultChunkSize) = int (chunks_of n)"
proof (cases "n = 0")
  case False
  have "wrap64 (wrap64 (int n + int DefaultChunkSize) - 1) = int (n + DefaultChunkSize - 1)"
  proof (cases "int n = 2 ^ 63 - 2 ^ 20")
    case True
    then have "wrap64 (int n + int DefaultChunkSize) = - (2 ^ 63)"
      using wrap64_minus [of "2 ^ 63"] by (simp add: DefaultChunkSize_def)
    moreover have "wrap64 (- (2 ^ 63) - 1) = 2 ^ 63 - 1" by (simp add: wrap64_def)
    ultimately show ?thesis using True by (simp add: DefaultChunkSize_def of_nat_diff)
  next
    case False
    with assms \<open>n \<noteq> 0\<close> show ?thesis by (simp add: wrap64_id DefaultChunkSize_def of_nat_diff)
  qed
  with False show ?thesis
    by (simp add: chunkCount_def chunks_of_def signed_divide_int_def zdiv_int sgn_if)
qed (simp add: chunkCount_def chunks_of_def DefaultChunkSize_def)

text \<open>Within a chunk of the largest int64 the sum wraps around and the count is negative.\<close>

lemma chunkCount_wraps:
  assumes "2 ^ 63 - 2 ^ 20 < n" "n < 2 ^ 63"
  shows "- (2 ^ 43) \<le> chunkCount n (int DefaultChunkSize)" "chunkCount n (int DefaultChunkSize) < - (2 ^ 42)"
proof -
  have w: "wrap64 (n + int DefaultChunkSize) = n + 2 ^ 20 - 2 ^ 64"
    using wrap64_minus [of "n + 2 ^ 20"] assms by (simp add: DefaultChunkSize_def)
  have "wrap64 (n + 2 ^ 20 - 2 ^ 64 - 1) = n + 2 ^ 20 - 2 ^ 64 - 1"
    by (rule wrap64_id) (use assms in simp_all)
  with w assms have c: "chunkCount n (int DefaultChunkSize) = - ((2 ^ 64 + 1 - 2 ^ 20 - n) div 2 ^ 20)"
    by (simp add: chunkCount_def signed_divide_int_def sgn_if DefaultChunkSize_def)
  have "(2 ^ 64 + 1 - 2 ^ 20 - n) div 2 ^ 20 \<le> 2 ^ 43" "2 ^ 42 < (2 ^ 64 + 1 - 2 ^ 20 - n) div 2 ^ 20"
    using assms by simp_all
  with c show "- (2 ^ 43) \<le> chunkCount n (int DefaultChunkSize)" "chunkCount n (int DefaultChunkSize) < - (2 ^ 42)"
    by simp_all
qed

lemma chunks_of_bound: "int n < 2 ^ 63 \<Longrightarrow> int (chunks_of n) \<le> 2 ^ 43"
  by (simp add: chunks_of_def DefaultChunkSize_def)

text \<open>
  The allocation bound is computed without overflow, or refused: what is returned is the sum in
  unbounded arithmetic of the plain text, the largest header and one tag per chunk and layer.
\<close>

theorem MaximumCiphertextSize_exact:
  assumes "MaximumCiphertextSize (int n) layers = Inr bound" "int n < 2 ^ 63"
  shows "bound = int n + int (preambleSize + maxHeaderSize) + int (chunks_of n) * (int gcmTagSize * layers) \<and> bound < 2 ^ 63"
proof -
  let ?cc = "chunkCount (int n) (int DefaultChunkSize)"
  let ?oh = "65548 + ?cc * (16 * layers)"
  from assms(1) have l: "layers = 1 \<or> layers = 2"
    by (auto simp: MaximumCiphertextSize_def split: if_split_asm)
  consider "int n \<le> 2 ^ 63 - 2 ^ 20" | "2 ^ 63 - 2 ^ 20 < int n" by linarith
  then have cc: "- (2 ^ 43) \<le> ?cc" "?cc \<le> 2 ^ 43" and small: "2 ^ 63 - 2 ^ 20 < int n \<Longrightarrow> ?cc < - (2 ^ 42)"
    using chunkCount_exact [of n] chunks_of_bound [OF assms(2)] chunkCount_wraps [OF _ assms(2)] by fastforce+
  have oh: "wrap64 (65548 + wrap64 (?cc * (16 * layers))) = ?oh"
    using cc l by (auto simp: wrap64_id)
  have le: "int n \<le> wrap64 (2 ^ 63 - 1 - ?oh)" and b: "bound = wrap64 (int n + ?oh)"
    using assms(1) oh l
    by (auto simp: MaximumCiphertextSize_def Let_def preambleSize_def maxHeaderSize_def gcmTagSize_def split: if_split_asm)
  have "\<not> 2 ^ 63 - 2 ^ 20 < int n"
  proof
    assume "2 ^ 63 - 2 ^ 20 < int n"
    with small cc l have "wrap64 (2 ^ 63 - 1 - ?oh) = 2 ^ 63 - 1 - ?oh - 2 ^ 64"
      by (intro wrap64_minus) auto
    with le cc l show False by auto
  qed
  then have exact: "?cc = int (chunks_of n)" by (intro chunkCount_exact) simp
  define oh where "oh = ?oh"
  have "0 \<le> oh" "oh < 2 ^ 60" using exact cc l by (auto simp: oh_def)
  moreover from le b have "int n \<le> wrap64 (2 ^ 63 - 1 - oh)" "bound = wrap64 (int n + oh)" by (simp_all only: oh_def)
  ultimately have "bound = int n + oh" "int n + oh < 2 ^ 63" by (simp_all add: wrap64_id)
  with exact show ?thesis by (simp add: oh_def preambleSize_def maxHeaderSize_def gcmTagSize_def)
qed

section \<open>Sealed chunks\<close>

text \<open>\<open>sealed cr m keys i\<close>: chunk number i of a plain under the first layers.\<close>

fun sealed :: "crypto \<Rightarrow> containerManifest \<Rightarrow> string list \<Rightarrow> 32 word \<Rightarrow> nat \<Rightarrow> string \<Rightarrow> string" where
  "sealed cr m keys index 0 payload = payload"
| "sealed cr m keys index (Suc l) payload =
     cr_Seal cr (keys ! l) (chunkNonce (lm_NoncePrefix (cm_Layers m ! l)) index)
       (chunkAAD (cm_PayloadAAD m) (cm_IdentityHash m) index l) (sealed cr m keys index l payload)"

definition keys_ok :: "containerManifest \<Rightarrow> string list \<Rightarrow> bool" where
  "keys_ok m keys \<longleftrightarrow> length keys = length (cm_Layers m) \<and> list_all (\<lambda>k. length k = DataKeySize) keys"

lemma keys_ok_nth: "keys_ok m keys \<Longrightarrow> l < length (cm_Layers m) \<Longrightarrow> newGCM (keys ! l) = Inr (keys ! l)"
  by (simp add: keys_ok_def newGCM_def list_all_length)

lemma seal_layers_sealed:
  "keys_ok m keys \<Longrightarrow> l \<le> length (cm_Layers m) \<Longrightarrow>
    seal_layers cr m keys index l payload = Inr (sealed cr m keys index l payload)"
  by (induction l) (simp_all add: keys_ok_nth)

lemma length_sealed: "crypto_ok cr \<Longrightarrow> length (sealed cr m keys index l payload) = length payload + gcmTagSize * l"
  by (induction l) (simp_all add: crypto_okD)

lemma open_layers_sealed:
  "crypto_ok cr \<Longrightarrow> keys_ok m keys \<Longrightarrow> l \<le> length (cm_Layers m) \<Longrightarrow>
    open_layers cr m keys index l (sealed cr m keys index l payload) = Inr payload"
  by (induction l) (simp_all add: keys_ok_nth crypto_okD)

definition chunk :: "string \<Rightarrow> nat \<Rightarrow> string" where
  "chunk plain i = take DefaultChunkSize (drop (i * DefaultChunkSize) plain)"

definition sealed_chunk :: "crypto \<Rightarrow> containerManifest \<Rightarrow> string list \<Rightarrow> string \<Rightarrow> nat \<Rightarrow> string" where
  "sealed_chunk cr m keys plain i = sealed cr m keys (word_of_nat i) (length (cm_Layers m)) (chunk plain i)"

definition sealed_chunks :: "crypto \<Rightarrow> containerManifest \<Rightarrow> string list \<Rightarrow> string \<Rightarrow> nat \<Rightarrow> string" where
  "sealed_chunks cr m keys plain n = concat (map (sealed_chunk cr m keys plain) [0..<n])"

lemma sealed_chunks_Suc:
  "sealed_chunks cr m keys plain (Suc n) = sealed_chunks cr m keys plain n @ sealed_chunk cr m keys plain n"
  by (simp add: sealed_chunks_def)

lemma chunk_append: "Suc i * DefaultChunkSize \<le> length plain \<Longrightarrow> chunk (plain @ rest) i = chunk plain i"
  by (simp add: chunk_def)

lemma sealed_chunks_append:
  "n * DefaultChunkSize \<le> length plain \<Longrightarrow> sealed_chunks cr m keys (plain @ rest) n = sealed_chunks cr m keys plain n"
proof -
  assume n: "n * DefaultChunkSize \<le> length plain"
  have "chunk (plain @ rest) i = chunk plain i" if "i < n" for i
    using that n mult_le_mono1 [of "Suc i" n DefaultChunkSize] by (intro chunk_append) linarith
  then have "map (sealed_chunk cr m keys (plain @ rest)) [0..<n] = map (sealed_chunk cr m keys plain) [0..<n]"
    by (intro map_cong) (simp_all add: sealed_chunk_def)
  then show ?thesis by (simp only: sealed_chunks_def)
qed

section \<open>Writing in pieces\<close>

text \<open>A writer after it was given \<open>plain\<close>: whole chunks are out, the rest is in the buffer.\<close>

definition full_chunks :: "string \<Rightarrow> nat" where
  "full_chunks plain = length plain div DefaultChunkSize"

definition after :: "crypto \<Rightarrow> Writer \<Rightarrow> string \<Rightarrow> Writer" where
  "after cr w plain =
     w\<lparr>w_buffer := drop (full_chunks plain * DefaultChunkSize) plain, w_written := int (length plain),
       w_chunkIndex := word_of_nat (full_chunks plain),
       w_destination := \<lparr>d_bytes = d_bytes (w_destination w)
         @ sealed_chunks cr (w_manifest w) (w_dataKeys w) plain (full_chunks plain), d_fails = []\<rparr>\<rparr>"

definition fresh :: "Writer \<Rightarrow> bool" where
  "fresh w \<longleftrightarrow> keys_ok (w_manifest w) (w_dataKeys w) \<and> w_buffer w = [] \<and> w_written w = 0 \<and> w_chunkIndex w = 0
     \<and> d_fails (w_destination w) = [] \<and> \<not> w_closed w \<and> w_err w = None"

lemma after_Nil: "fresh w \<Longrightarrow> after cr w [] = w"
  by (simp add: after_def fresh_def full_chunks_def sealed_chunks_def)

lemma after_buffer: "length (w_buffer (after cr w plain)) = length plain mod DefaultChunkSize"
  by (simp add: after_def full_chunks_def minus_div_mult_eq_mod)

lemma flush_after:
  assumes "fresh w" "length part + length plain mod DefaultChunkSize = DefaultChunkSize"
  shows "flushChunk cr ((after cr w plain)\<lparr>w_buffer := w_buffer (after cr w plain) @ part,
    w_written := w_written (after cr w plain) + int (length part)\<rparr>) = (None, after cr w (plain @ part))"
proof -
  let ?k = "full_chunks plain" and ?C = DefaultChunkSize
  have k: "?k * ?C \<le> length plain" by (simp add: full_chunks_def)
  have len: "length (plain @ part) = Suc ?k * ?C"
    using assms(2) div_mult_mod_eq [of "length plain" ?C] unfolding full_chunks_def mult_Suc length_append by linarith
  then have fc: "full_chunks (plain @ part) = Suc ?k"
    unfolding full_chunks_def by (simp only: div_mult_self_is_m [OF chunk_size_pos(1)])
  have c: "chunk (plain @ part) ?k = drop (?k * ?C) plain @ part"
    using len k by (simp add: chunk_def)
  have d: "drop (Suc ?k * ?C) (plain @ part) = []" by (simp only: drop_all len order_refl)
  show ?thesis
    using assms(1) sealed_chunks_append [OF k] d
    by (simp add: flushChunk_def after_def fresh_def seal_layers_sealed dest_Write_def fc sealed_chunks_Suc
        sealed_chunk_def c add.commute)
qed

lemma buffer_after:
  assumes "length part + length plain mod DefaultChunkSize < DefaultChunkSize"
  shows "(after cr w plain)\<lparr>w_buffer := w_buffer (after cr w plain) @ part,
    w_written := w_written (after cr w plain) + int (length part)\<rparr> = after cr w (plain @ part)"
proof -
  have "(length plain + length part) div DefaultChunkSize = length plain div DefaultChunkSize"
    using assms by (subst div_add1_eq) (simp add: mod_less add.commute)
  then have fc: "full_chunks (plain @ part) = full_chunks plain" by (simp add: full_chunks_def)
  have "full_chunks plain * DefaultChunkSize \<le> length plain" by (simp add: full_chunks_def)
  with sealed_chunks_append [OF this] fc show ?thesis by (simp add: after_def)
qed

lemma write_loop_after:
  assumes "fresh w"
  shows "write_loop cr p (after cr w plain) = Some ([], None, after cr w (plain @ p))"
proof (induction "length p" arbitrary: p plain rule: less_induct)
  case less
  let ?b = "length plain mod DefaultChunkSize"
  let ?n = "min (DefaultChunkSize - length (w_buffer (after cr w plain))) (length p)"
  show ?case
  proof (cases "p = []")
    case True
    then show ?thesis by (simp add: write_loop.simps)
  next
    case False
    have b: "?b < DefaultChunkSize" by simp
    have n: "0 < ?n" "?n \<le> length p" "length (take ?n p) = ?n"
      using False by (simp_all add: after_buffer)
    have "?n \<le> DefaultChunkSize - ?b" by (simp add: after_buffer)
    with b have le: "?n + ?b \<le> DefaultChunkSize" by linarith
    have rest: "write_loop cr (drop ?n p) (after cr w (plain @ take ?n p)) = Some ([], None, after cr w (plain @ p))"
      using less [of "drop ?n p" "plain @ take ?n p"] n(1,2) by simp
    show ?thesis
    proof (cases "?n + ?b = DefaultChunkSize")
      case True
      with n(3) have "flushChunk cr ((after cr w plain)\<lparr>w_buffer := w_buffer (after cr w plain) @ take ?n p,
          w_written := w_written (after cr w plain) + int ?n\<rparr>) = (None, after cr w (plain @ take ?n p))"
        using flush_after [OF assms, of "take ?n p" plain cr] by simp
      with rest True n(3) False show ?thesis
        by (subst write_loop.simps) (simp add: Let_def after_buffer)
    next
      case neq: False
      with le n(3) have "(after cr w plain)\<lparr>w_buffer := w_buffer (after cr w plain) @ take ?n p,
          w_written := w_written (after cr w plain) + int ?n\<rparr> = after cr w (plain @ take ?n p)"
        using buffer_after [of "take ?n p" plain cr w] by simp
      with rest neq n(3) False show ?thesis
        by (subst write_loop.simps) (simp add: Let_def after_buffer)
    qed
  qed
qed

text \<open>A client that writes its pieces in turn and stops at the first error.\<close>

fun write_pieces :: "crypto \<Rightarrow> string list \<Rightarrow> Writer \<Rightarrow> (go_error option \<times> Writer) option" where
  "write_pieces cr [] w = Some (None, w)"
| "write_pieces cr (p # ps) w =
     (case Writer_Write cr p w of
        None \<Rightarrow> None
      | Some (_, Some err, w') \<Rightarrow> Some (Some err, w')
      | Some (_, None, w') \<Rightarrow> write_pieces cr ps w')"

lemma write_pieces_after:
  assumes "fresh w"
  shows "int (length (plain @ concat ps)) \<le> cm_PlaintextSize (w_manifest w) \<Longrightarrow>
    write_pieces cr ps (after cr w plain) = Some (None, after cr w (plain @ concat ps))"
proof (induction ps arbitrary: plain)
  case (Cons p ps)
  have "Writer_Write cr p (after cr w plain) = Some (int (length p), None, after cr w (plain @ p))"
    using Cons.prems assms write_loop_after [OF assms, of cr p plain]
    by (simp add: Writer_Write_def after_def fresh_def)
  with Cons.IH [of "plain @ p"] Cons.prems show ?case by simp
qed simp

lemma chunks_of_full:
  assumes "n mod DefaultChunkSize = 0"
  shows "chunks_of n = n div DefaultChunkSize"
proof -
  let ?C = DefaultChunkSize
  have "n + ?C - 1 = (?C - 1) + n div ?C * ?C" using assms div_mult_mod_eq [of n ?C] by (simp add: DefaultChunkSize_def)
  then have "chunks_of n = n div ?C + (?C - 1) div ?C"
    unfolding chunks_of_def by (simp only: div_mult_self1 [OF chunk_size_pos(2)] add.commute)
  then show ?thesis by (simp add: DefaultChunkSize_def)
qed

lemma chunks_of_partial:
  assumes "n mod DefaultChunkSize \<noteq> 0"
  shows "chunks_of n = Suc (n div DefaultChunkSize)"
proof -
  let ?C = DefaultChunkSize
  have "n + ?C - 1 = (n mod ?C - 1) + Suc (n div ?C) * ?C"
    using assms div_mult_mod_eq [of n ?C] unfolding mult_Suc by linarith
  then have "chunks_of n = Suc (n div ?C) + (n mod ?C - 1) div ?C"
    unfolding chunks_of_def by (simp only: div_mult_self1 [OF chunk_size_pos(2)] add.commute)
  moreover have "(n mod ?C - 1) div ?C = 0" by (simp add: less_imp_diff_less)
  ultimately show ?thesis by simp
qed

lemma chunk_start: "i < chunks_of n \<Longrightarrow> i * DefaultChunkSize < n"
proof (cases "n mod DefaultChunkSize = 0")
  case True
  moreover assume "i < chunks_of n"
  ultimately have "Suc i * DefaultChunkSize \<le> n div DefaultChunkSize * DefaultChunkSize"
    by (intro mult_le_mono1) (simp add: chunks_of_full)
  also have "\<dots> \<le> n" by simp
  finally show ?thesis by (simp add: DefaultChunkSize_def)
next
  case False
  moreover assume "i < chunks_of n"
  ultimately have "i * DefaultChunkSize \<le> n div DefaultChunkSize * DefaultChunkSize"
    by (intro mult_le_mono1) (simp add: chunks_of_partial)
  also have "\<dots> < n" using False div_mult_mod_eq [of n DefaultChunkSize] by linarith
  finally show ?thesis .
qed

text \<open>Closing sends the last chunk, so that all of the text is sealed.\<close>

lemma close_after:
  assumes "fresh w" "cm_PlaintextSize (w_manifest w) = int (length plain)"
  shows "\<exists>w'. Writer_Close cr (after cr w plain) = (None, w')
    \<and> d_bytes (w_destination w') = d_bytes (w_destination w)
        @ sealed_chunks cr (w_manifest w) (w_dataKeys w) plain (chunks_of (length plain))"
proof (cases "length plain mod DefaultChunkSize = 0")
  case True
  with after_buffer [of cr w plain] have "w_buffer (after cr w plain) = []" by simp
  with assms True show ?thesis
    by (simp add: Writer_Close_def after_def fresh_def Let_def chunks_of_full full_chunks_def)
next
  case False
  let ?k = "full_chunks plain"
  have "w_buffer (after cr w plain) \<noteq> []" using False after_buffer [of cr w plain] by auto
  then have b: "drop (?k * DefaultChunkSize) plain \<noteq> []" by (simp add: after_def)
  have "length plain - ?k * DefaultChunkSize \<le> DefaultChunkSize"
    by (simp add: full_chunks_def minus_div_mult_eq_mod less_imp_le)
  then have "chunk plain ?k = drop (?k * DefaultChunkSize) plain" by (simp add: chunk_def)
  with assms b show ?thesis
    by (simp add: Writer_Close_def after_def fresh_def Let_def flushChunk_def seal_layers_sealed dest_Write_def
        chunks_of_partial [OF False] sealed_chunks_Suc sealed_chunk_def full_chunks_def)
qed

section \<open>Reading any range\<close>

text \<open>A reader over a container with this plain text.\<close>

definition reads :: "crypto \<Rightarrow> Reader \<Rightarrow> string \<Rightarrow> bool" where
  "reads cr r plain \<longleftrightarrow> \<not> rd_closed r \<and> keys_ok (rd_manifest r) (rd_dataKeys r)
     \<and> cm_ChunkSize (rd_manifest r) = int DefaultChunkSize \<and> cm_PlaintextSize (rd_manifest r) = int (length plain)
     \<and> (\<exists>front. rd_source r = front @ sealed_chunks cr (rd_manifest r) (rd_dataKeys r) plain (chunks_of (length plain))
          \<and> rd_dataOffset r = int (length front))"

text \<open>Chunk numbers are uint32, which limits the plain text to 2 ^ 52 bytes.\<close>

definition chunk_numbers_fit :: "string \<Rightarrow> bool" where
  "chunk_numbers_fit plain \<longleftrightarrow> length plain \<le> 2 ^ 52"

lemma chunk_number:
  assumes "chunk_numbers_fit plain" "i < chunks_of (length plain)"
  shows "unat (word_of_nat i :: 32 word) = i"
proof -
  have "i * DefaultChunkSize < 2 ^ 52"
    using chunk_start [OF assms(2)] assms(1) by (simp add: chunk_numbers_fit_def)
  then have "i < 2 ^ 32" by (simp add: DefaultChunkSize_def)
  then show ?thesis by (simp add: unat_of_nat)
qed

lemma length_sealed_chunks:
  assumes "crypto_ok cr" "n * DefaultChunkSize \<le> length plain"
  shows "length (sealed_chunks cr m keys plain n) = n * (DefaultChunkSize + gcmTagSize * length (cm_Layers m))"
  using assms(2)
proof (induction n)
  case (Suc n)
  then show ?case
    by (simp add: sealed_chunks_Suc sealed_chunk_def length_sealed [OF assms(1)] chunk_def)
qed (simp add: sealed_chunks_def)

lemma sealed_chunks_at:
  assumes "crypto_ok cr" "i < chunks_of (length plain)"
  shows "take (length (sealed_chunk cr m keys plain i))
      (drop (i * (DefaultChunkSize + gcmTagSize * length (cm_Layers m)))
        (sealed_chunks cr m keys plain (chunks_of (length plain))))
    = sealed_chunk cr m keys plain i"
proof -
  have "[0..<chunks_of (length plain)] = [0..<i] @ i # [Suc i..<chunks_of (length plain)]"
    using upt_add_eq_append [of 0 i "chunks_of (length plain) - i"] assms(2) by (simp add: upt_conv_Cons)
  then have "sealed_chunks cr m keys plain (chunks_of (length plain))
      = sealed_chunks cr m keys plain i @ sealed_chunk cr m keys plain i
        @ concat (map (sealed_chunk cr m keys plain) [Suc i..<chunks_of (length plain)])"
    by (simp add: sealed_chunks_def)
  with length_sealed_chunks [OF assms(1), of i plain m keys] chunk_start [OF assms(2)] show ?thesis by simp
qed

lemma ReadAt_nat: "a + n \<le> length source \<Longrightarrow> ReadAt source (int a) (int n) = Some (take n (drop a source))"
  by (simp add: ReadAt_def)

lemma readChunk_reads:
  assumes "crypto_ok cr" "reads cr r plain" "chunk_numbers_fit plain" "i < chunks_of (length plain)"
  shows "readChunk cr r (word_of_nat i) = Inr (chunk plain i)"
proof -
  let ?m = "rd_manifest r" and ?C = DefaultChunkSize and ?T = "gcmTagSize * length (cm_Layers (rd_manifest r))"
  let ?s = "sealed_chunk cr ?m (rd_dataKeys r) plain i"
  from assms(2) obtain front where r: "\<not> rd_closed r" "keys_ok ?m (rd_dataKeys r)" "cm_ChunkSize ?m = int ?C"
    "cm_PlaintextSize ?m = int (length plain)" "rd_dataOffset r = int (length front)"
    "rd_source r = front @ sealed_chunks cr ?m (rd_dataKeys r) plain (chunks_of (length plain))"
    by (auto simp: reads_def)
  have start: "i * ?C < length plain" by (rule chunk_start [OF assms(4)])
  have len: "length ?s = min ?C (length plain - i * ?C) + ?T"
    by (simp add: sealed_chunk_def length_sealed [OF assms(1)] chunk_def min.commute)
  have at: "take (length ?s) (drop (length front + i * (?C + ?T)) (rd_source r)) = ?s"
    using sealed_chunks_at [OF assms(1,4), of ?m "rd_dataKeys r"] r(6) by simp
  then have "length ?s \<le> length (rd_source r) - (length front + i * (?C + ?T))"
    by (metis length_drop length_take min.cobounded1)
  moreover have "0 < length ?s" using start len by (simp add: DefaultChunkSize_def)
  ultimately have fits: "length front + i * (?C + ?T) + length ?s \<le> length (rd_source r)" by linarith
  have cl: "min (int ?C) (int (length plain) - int i * int ?C) + int ?T = int (length ?s)"
  proof -
    have "int (length plain) - int i * int ?C = int (length plain - i * ?C)"
      using start by (simp add: of_nat_diff less_imp_le)
    then show ?thesis by (simp only: len of_nat_add of_nat_min)
  qed
  have off: "int (length front) + int i * (int ?C + int gcmTagSize * int (length (cm_Layers ?m)))
      = int (length front + i * (?C + ?T))" by simp
  have "int i * int ?C < int (length plain)" using start by (simp flip: of_nat_mult)
  then have "readChunk cr r (word_of_nat i) = (case ReadAt (rd_source r) (int (length front + i * (?C + ?T))) (int (length ?s)) of
      None \<Rightarrow> Inl (Wrapped ''read chunk'' ErrInvalidContainer)
    | Some payload \<Rightarrow> open_layers cr ?m (rd_dataKeys r) (word_of_nat i) (length (cm_Layers ?m)) payload)"
    unfolding readChunk_def Let_def chunk_number [OF assms(3,4)] r(3-5) off of_nat_mult [symmetric] cl [unfolded of_nat_mult, symmetric]
    using r(1,2) by (simp add: keys_ok_def)
  also have "\<dots> = open_layers cr ?m (rd_dataKeys r) (word_of_nat i) (length (cm_Layers ?m)) ?s"
    by (simp only: ReadAt_nat [OF fits] at option.case)
  also have "\<dots> = Inr (chunk plain i)"
    unfolding sealed_chunk_def by (rule open_layers_sealed [OF assms(1) r(2) order_refl])
  finally show ?thesis .
qed

text \<open>A stream inside the plain text, whose current chunk, if it has one, is a chunk of it.\<close>

definition streams :: "crypto \<Rightarrow> Reader \<Rightarrow> string \<Rightarrow> nat \<Rightarrow> nat \<Rightarrow> rangeReader \<Rightarrow> bool" where
  "streams cr r plain pos fin s \<longleftrightarrow> rr_container s = r \<and> rr_position s = int pos \<and> rr_end s = int fin \<and> \<not> rr_closed s
     \<and> pos \<le> fin \<and> fin \<le> length plain
     \<and> (\<forall>c. rr_chunk s = Some c \<longrightarrow> (\<exists>i. rr_chunkBase s = int (i * DefaultChunkSize) \<and> c = chunk plain i))"

lemma copy_chunk_streams:
  assumes "streams cr r plain pos fin s" "pos < fin" "0 < n" "i = pos div DefaultChunkSize"
    and "rr_chunkBase s = int (i * DefaultChunkSize)"
  shows "\<exists>k s'. copy_chunk n (chunk plain i) s = ((take k (drop pos plain), None), s') \<and> 0 < k
    \<and> streams cr r plain (pos + k) fin s'"
proof -
  let ?C = DefaultChunkSize and ?c = "chunk plain i"
  from assms(1) have s: "rr_position s = int pos" "rr_end s = int fin" "fin \<le> length plain" by (simp_all add: streams_def)
  define f where "f = pos - i * ?C"
  have pos: "pos = i * ?C + f" "f < ?C"
    using div_mult_mod_eq [of pos ?C] assms(4) by (simp_all add: f_def minus_div_mult_eq_mod)
  have len: "length ?c = min ?C (length plain - i * ?C)" by (simp add: chunk_def min.commute)
  define k where "k = min (min (length ?c - f) (fin - pos)) n"
  have f: "f < length ?c" using pos assms(2) s(3) len by simp
  have k: "0 < k" "k \<le> length ?c - f" "k \<le> fin - pos" using f assms(2,3) by (simp_all add: k_def)
  have "int (length ?c) - (int pos - int (i * ?C)) = int (length ?c - f)" "int fin - int pos = int (fin - pos)"
    using f assms(2) pos(1) by (simp_all add: of_nat_diff)
  then have e1: "nat (min (min (int (length ?c) - (int pos - int (i * ?C))) (int fin - int pos)) (int n)) = k"
    by (simp only: k_def of_nat_min [symmetric] nat_int)
  have e2: "nat (int pos - int (i * ?C)) = f" using pos(1) by simp
  have e3: "take k (drop f ?c) = take k (drop pos plain)"
    using k(2) pos(1) len by (simp add: chunk_def drop_take add.commute)
  have e4: "length (take k (drop pos plain)) = k" using k(3) s(3) by simp
  define s1 where "s1 = s\<lparr>rr_position := int pos + int k, rr_chunk := Some ?c\<rparr>"
  define s2 where "s2 = (if int pos + int k \<ge> int (i * ?C) + int (length ?c) then s1\<lparr>rr_chunk := None\<rparr> else s1)"
  have "copy_chunk n ?c s = ((take k (drop pos plain), None), s2)"
    unfolding copy_chunk_def Let_def s assms(5) e1 e2 e3 e4 s2_def s1_def by (simp add: assms(5))
  moreover have "streams cr r plain (pos + k) fin s1" "streams cr r plain (pos + k) fin (s1\<lparr>rr_chunk := None\<rparr>)"
    using assms(1,2,5) k(3) by (auto simp: streams_def s1_def)
  ultimately show ?thesis using k(1) by (auto simp: s2_def)
qed

lemma chunk_index: "pos < n \<Longrightarrow> pos div DefaultChunkSize < chunks_of n"
proof (rule ccontr)
  let ?C = DefaultChunkSize
  assume "pos < n" "\<not> pos div ?C < chunks_of n"
  then have "chunks_of n * ?C \<le> pos div ?C * ?C" by (intro mult_le_mono1) simp
  also have "\<dots> \<le> pos" by simp
  finally have "chunks_of n * ?C < n" using \<open>pos < n\<close> by simp
  moreover have "n \<le> chunks_of n * ?C"
  proof (cases "n mod ?C = 0")
    case True
    with div_mult_mod_eq [of n ?C] show ?thesis unfolding chunks_of_full [OF True] by linarith
  next
    case False
    have "n mod ?C < ?C" by simp
    with div_mult_mod_eq [of n ?C] show ?thesis unfolding chunks_of_partial [OF False] mult_Suc by linarith
  qed
  ultimately show False by simp
qed

lemma Read_streams:
  assumes "crypto_ok cr" "reads cr r plain" "chunk_numbers_fit plain"
    and "streams cr r plain pos fin s" "pos < fin" "0 < n"
  shows "\<exists>k s'. rangeReader_Read cr None n s = ((take k (drop pos plain), None), s') \<and> 0 < k
    \<and> streams cr r plain (pos + k) fin s'"
proof -
  let ?i = "pos div DefaultChunkSize" and ?b = "int (pos div DefaultChunkSize * DefaultChunkSize)"
  have s: "rr_container s = r" "rr_position s = int pos" "rr_end s = int fin" "\<not> rr_closed s" "pos < length plain"
    using assms(4,5) by (simp_all add: streams_def)
  have i: "?i < chunks_of (length plain)" by (rule chunk_index [OF s(5)])
  have rd: "readChunk cr r (word_of_int (int pos div int DefaultChunkSize)) = Inr (chunk plain ?i)"
    using readChunk_reads [OF assms(1-3) i] by (simp add: zdiv_int [symmetric])
  have cs: "cm_ChunkSize (rd_manifest r) = int DefaultChunkSize" using assms(2) by (simp add: reads_def)
  have base: "int pos div int DefaultChunkSize * int DefaultChunkSize = ?b" by (simp add: zdiv_int)
  have fresh: "streams cr r plain pos fin (s\<lparr>rr_chunkBase := ?b, rr_chunk := None\<rparr>)"
    using assms(4) by (simp add: streams_def)
  have load: "copy_chunk n (chunk plain ?i) (s\<lparr>rr_chunkBase := ?b\<rparr>)
      = copy_chunk n (chunk plain ?i) (s\<lparr>rr_chunkBase := ?b, rr_chunk := None\<rparr>)"
    by (simp add: copy_chunk_def Let_def)
  show ?thesis
  proof (cases "\<exists>c. rr_chunk s = Some c \<and> rr_chunkBase s = ?b")
    case True
    then obtain c where c: "rr_chunk s = Some c" "rr_chunkBase s = ?b" by blast
    with assms(4) have "c = chunk plain ?i" by (auto simp: streams_def)
    with c copy_chunk_streams [OF assms(4-6) refl c(2)] s assms(5,6) cs base show ?thesis
      by (simp add: rangeReader_Read_def Let_def)
  next
    case False
    then have "rangeReader_Read cr None n s = copy_chunk n (chunk plain ?i) (s\<lparr>rr_chunkBase := ?b\<rparr>)"
      using s assms(5,6) cs base rd by (auto simp: rangeReader_Read_def Let_def split: option.split)
    with copy_chunk_streams [OF fresh assms(5,6) refl] load show ?thesis by simp
  qed
qed

lemma ReadAll_streams:
  assumes "crypto_ok cr" "reads cr r plain" "chunk_numbers_fit plain" "\<forall>k. 0 < room k"
  shows "streams cr r plain pos fin s \<Longrightarrow> \<exists>s'. ReadAll cr room (\<lambda>_. None) k s acc
    = Some (acc @ take (fin - pos) (drop pos plain), None, s') \<and> rr_container s' = r \<and> \<not> rr_closed s'"
proof (induction "fin - pos" arbitrary: pos s k acc rule: less_induct)
  case less
  show ?case
  proof (cases "pos < fin")
    case False
    with less.prems have "rangeReader_Read cr None (room k) s = (([], Some EOF), s)"
      by (simp add: streams_def rangeReader_Read_def)
    with False less.prems show ?thesis by (subst ReadAll.simps) (simp add: streams_def)
  next
    case True
    from Read_streams [OF assms(1-3) less.prems True] assms(4) obtain m s1 where
      rd: "rangeReader_Read cr None (room k) s = ((take m (drop pos plain), None), s1)" and
      m: "0 < m" "streams cr r plain (pos + m) fin s1" by blast
    have "pos + m \<le> fin" using m(2) by (simp add: streams_def)
    then have split: "take (fin - pos) (drop pos plain)
        = take m (drop pos plain) @ take (fin - (pos + m)) (drop (pos + m) plain)"
      using take_add [of m "fin - (pos + m)" "drop pos plain"] by (simp add: add.commute)
    from less.hyps [OF _ m(2), of "Suc k" "acc @ take m (drop pos plain)"] True m(1) rd show ?thesis
      by (subst ReadAll.simps) (simp add: split)
  qed
qed

lemma ReadRange_reads:
  assumes "crypto_ok cr" "reads cr r plain" "chunk_numbers_fit plain" "\<forall>k. 0 < room k" "start + len \<le> length plain"
  shows "ReadRange cr room (\<lambda>_. None) r (int start) (int len) = Some (Inr (take len (drop start plain)), Reader_Close r)"
proof -
  define s where "s = \<lparr>rr_container = r, rr_position = int start, rr_end = int start + int len, rr_chunk = None,
    rr_chunkBase = 0, rr_closed = False\<rparr>"
  have rr: "RangeReader r (int start) (int len) = Inr s"
    using assms(2,5) by (simp add: RangeReader_def reads_def s_def)
  have "streams cr r plain start (start + len) s" using assms(5) by (simp add: streams_def s_def)
  from ReadAll_streams [OF assms(1-4) this, of 0 "[]"] rr show ?thesis
    by (auto simp: ReadRange_def rangeReader_Close_def)
qed

section \<open>Round trip\<close>

lemma generate_layers_reopens:
  assumes "generate_layers identity mode index rnd reqs = Inr gen"
    and "\<forall>r \<in> set reqs. \<forall>kp. lr_Provider r = Some kp \<longrightarrow> provider_ok kp \<and> kp_Name kp \<noteq> [] \<and> providers (kp_Name kp) = Some kp"
  shows "length gen = length reqs \<and> list_all (\<lambda>k. length k = DataKeySize) (map fst gen)
    \<and> list_all layer_complete (map snd gen) \<and> unwrap_layers providers identity mode index (map snd gen) = Inr (map fst gen)"
  using assms
proof (induction reqs arbitrary: index rnd gen)
  case (Cons req reqs)
  from Cons.prems(1) obtain kp key w np rest where g: "lr_Provider req = Some kp"
    "kp_GenerateDataKey kp \<lparr>kr_KeyID = lr_KeyID req, kr_Context = layerContext identity mode index (lr_Context req),
      kr_ClientContext = lr_Context req\<rparr> = Inr (key, w)"
    "ReadFull rnd 8 = Inr np" "generate_layers identity mode (Suc index) (drop 8 rnd) reqs = Inr rest"
    "gen = (key, \<lparr>lm_WrappedDataKey = w, lm_NoncePrefix = np, lm_Context = lr_Context req\<rparr>) # rest"
    by (auto simp: bind_res_Inr split: option.splits)
  from Cons.prems(2) g(1) have kp: "provider_ok kp" "kp_Name kp \<noteq> []" "providers (kp_Name kp) = Some kp" by auto
  from kp(1) g(2) have "reopens kp \<lparr>kr_KeyID = lr_KeyID req, kr_Context = layerContext identity mode index (lr_Context req),
      kr_ClientContext = lr_Context req\<rparr> key w"
    by (simp add: provider_ok_def)
  with kp(2,3) g(5) ReadFull_length [OF g(3)] Cons.IH [OF g(4)] Cons.prems(2) show ?case
    by (auto simp: reopens_def layer_complete_def unwrap_request_def)
qed simp

text \<open>What is relied on of encoding/json: a header decodes to what was encoded, and is not empty.\<close>

definition codec_ok :: "codec \<Rightarrow> containerManifest \<Rightarrow> bool" where
  "codec_ok cd m \<longleftrightarrow> cd_Unmarshal cd (cd_Marshal cd m) = Some m \<and> cd_Marshal cd m \<noteq> []"

text \<open>The providers of a writer are sound and a reader finds them under their names.\<close>

definition providers_for :: "ProviderMap \<Rightarrow> LayerRequest list \<Rightarrow> bool" where
  "providers_for providers reqs \<longleftrightarrow> (\<forall>r \<in> set reqs. \<forall>kp. lr_Provider r = Some kp \<longrightarrow>
     provider_ok kp \<and> kp_Name kp \<noteq> [] \<and> providers (kp_Name kp) = Some kp)"

definition empty_destination :: destination where
  "empty_destination = \<lparr>d_bytes = [], d_fails = []\<rparr>"

text \<open>A well-formed header for an identity and data keys, as a writer makes it and a reader accepts it.\<close>

definition manifest_for ::
    "crypto \<Rightarrow> codec \<Rightarrow> enc_Identity \<Rightarrow> ProviderMap \<Rightarrow> nat \<Rightarrow> containerManifest \<Rightarrow> string list \<Rightarrow> bool" where
  "manifest_for cr cd identity providers n m keys \<longleftrightarrow>
     Identity_valid identity \<and> keys_ok m keys \<and> cm_Version m = containerVersion \<and> cm_ChunkSize m = int DefaultChunkSize
     \<and> cm_PlaintextSize m = int n \<and> cm_IdentityHash m = cr_SHA256 cr (cd_Identity cd identity)
     \<and> length (cm_PayloadAAD m) = sha256Size \<and> cm_Layers m \<noteq> [] \<and> length (cm_Layers m) \<le> 2
     \<and> known_mode (cm_Mode m) \<and> (cm_Mode m = ModeDSSEKMS \<longleftrightarrow> length (cm_Layers m) = 2)
     \<and> list_all layer_complete (cm_Layers m) \<and> cm_HeaderMAC m = computeHeaderMAC cr keys (marshalManifestCore cd m)
     \<and> unwrap_layers providers (cd_Identity cd identity) (cm_Mode m) 0 (cm_Layers m) = Inr keys"

lemma core_ignores_MAC [simp]: "marshalManifestCore cd (m\<lparr>cm_HeaderMAC := mac\<rparr>) = marshalManifestCore cd m"
  by (simp add: marshalManifestCore_def)

lemma NewWriter_Inr:
  assumes "NewWriter cr cd rnd empty_destination opts = Inr w" "providers_for providers (wo_Layers opts)"
    and "wo_PlaintextSize opts = int n"
  shows "manifest_for cr cd (wo_Identity opts) providers n (w_manifest w) (w_dataKeys w) \<and> fresh w
    \<and> w_header w = cd_Marshal cd (w_manifest w) \<and> length (w_header w) \<le> maxHeaderSize
    \<and> w_destination w = \<lparr>d_bytes = preamble_for (w_header w) @ w_header w, d_fails = []\<rparr>
    \<and> length (cm_Layers (w_manifest w)) = length (wo_Layers opts)
    \<and> w_ciphertextSize w = wrap64 (int (preambleSize + length (w_header w)) + int n
        + chunkCount (int n) (int DefaultChunkSize) * (int gcmTagSize * int (length (wo_Layers opts))))"
proof -
  let ?id = "cd_Identity cd (wo_Identity opts)"
  from assms(1) have guards: "Identity_valid (wo_Identity opts)" "wo_Layers opts \<noteq> []" "length (wo_Layers opts) \<le> 2"
    "known_mode (wo_Mode opts)" "wo_Mode opts = ModeDSSEKMS \<longleftrightarrow> length (wo_Layers opts) = 2"
    by (auto simp: NewWriter_def split: if_split_asm)
  from guards(2,3) have one: "length (wo_Layers opts) = 1 \<or> length (wo_Layers opts) = 2"
    by (cases "wo_Layers opts"; cases "tl (wo_Layers opts)") auto
  from guards assms(1,3) obtain aad gen where
    aad: "ReadFull rnd sha256Size = Inr aad" and
    gen: "generate_layers ?id (wo_Mode opts) 0 (drop sha256Size rnd) (wo_Layers opts) = Inr gen"
    by (auto simp: NewWriter_def marshalIdentity_def bind_res_Inr split: if_split_asm)
  from generate_layers_reopens [OF gen assms(2) [unfolded providers_for_def]]
  have g: "length gen = length (wo_Layers opts)" "list_all (\<lambda>k. length k = DataKeySize) (map fst gen)"
    "list_all layer_complete (map snd gen)" "unwrap_layers providers ?id (wo_Mode opts) 0 (map snd gen) = Inr (map fst gen)"
    by blast+
  define m0 where "m0 = \<lparr>cm_Version = containerVersion, cm_Mode = wo_Mode opts, cm_PlaintextSize = int n,
    cm_ChunkSize = int DefaultChunkSize, cm_IdentityHash = cr_SHA256 cr ?id, cm_PayloadAAD = aad,
    cm_Layers = map snd gen, cm_HeaderMAC = [], cm_BucketKeyEnabled = wo_BucketKeyEnabled opts\<rparr>"
  define m where "m = m0\<lparr>cm_HeaderMAC := computeHeaderMAC cr (map fst gen) (marshalManifestCore cd m0)\<rparr>"
  let ?header = "cd_Marshal cd m"
  have "NewWriter cr cd rnd empty_destination opts = (if length ?header > maxHeaderSize then Inl ErrInvalidContainer
    else Inr \<lparr>w_destination = \<lparr>d_bytes = preamble_for ?header @ ?header, d_fails = []\<rparr>, w_manifest = m, w_header = ?header,
      w_dataKeys = map fst gen, w_buffer = [], w_written = 0, w_chunkIndex = 0,
      w_ciphertextSize = wrap64 (int (preambleSize + length ?header) + int n
        + chunkCount (int n) (int DefaultChunkSize) * (int gcmTagSize * int (length (wo_Layers opts)))),
      w_closed = False, w_err = None\<rparr>)"
    using guards one assms(3) unfolding NewWriter_def m_def m0_def
    by (auto simp: marshalIdentity_def Let_def aad gen dest_Write_def empty_destination_def)
  with assms(1) have w: "length ?header \<le> maxHeaderSize"
    "w = \<lparr>w_destination = \<lparr>d_bytes = preamble_for ?header @ ?header, d_fails = []\<rparr>, w_manifest = m, w_header = ?header,
      w_dataKeys = map fst gen, w_buffer = [], w_written = 0, w_chunkIndex = 0,
      w_ciphertextSize = wrap64 (int (preambleSize + length ?header) + int n
        + chunkCount (int n) (int DefaultChunkSize) * (int gcmTagSize * int (length (wo_Layers opts)))),
      w_closed = False, w_err = None\<rparr>" by (simp_all split: if_split_asm)
  have "manifest_for cr cd (wo_Identity opts) providers n m (map fst gen)"
    using guards g ReadFull_length [OF aad] by (auto simp: manifest_for_def m_def m0_def keys_ok_def marshalManifestCore_def)
  with w g show ?thesis by (simp add: fresh_def manifest_for_def m_def m0_def)
qed

lemma length_all_sealed:
  assumes "crypto_ok cr"
  shows "length (sealed_chunks cr m keys plain (chunks_of (length plain)))
    = length plain + chunks_of (length plain) * (gcmTagSize * length (cm_Layers m))"
proof (cases "length plain mod DefaultChunkSize = 0")
  case True
  then have "length plain div DefaultChunkSize * DefaultChunkSize = length plain"
    using div_mult_mod_eq [of "length plain" DefaultChunkSize] by simp
  with length_sealed_chunks [OF assms, of "length plain div DefaultChunkSize" plain m keys] show ?thesis
    by (simp add: chunks_of_full [OF True] add_mult_distrib2)
next
  case False
  let ?k = "length plain div DefaultChunkSize"
  have "length (chunk plain ?k) = length plain mod DefaultChunkSize"
    by (simp add: chunk_def minus_div_mult_eq_mod min.absorb1 less_imp_le)
  with length_sealed_chunks [OF assms, of ?k plain m keys] show ?thesis
    using div_mult_mod_eq [of "length plain" DefaultChunkSize]
    by (simp add: chunks_of_partial [OF False] sealed_chunks_Suc sealed_chunk_def length_sealed [OF assms] add_mult_distrib2)
qed

lemma written_size_fits:
  assumes "int n \<le> 2 ^ 52" "h \<le> maxHeaderSize" "layers \<le> 2"
  shows "int (preambleSize + h) + int n + int (chunks_of n) * (int gcmTagSize * int layers) < 2 ^ 63"
proof -
  have "int (chunks_of n) \<le> 2 ^ 43" using chunks_of_bound [of n] assms(1) by simp
  moreover have "layers = 0 \<or> layers = 1 \<or> layers = 2" using assms(3) by linarith
  ultimately show ?thesis using assms(1,2) by (auto simp: gcmTagSize_def preambleSize_def maxHeaderSize_def)
qed

lemma length_preamble [simp]: "length (preamble_for header) = preambleSize"
  by (simp add: preamble_for_def containerMagic_def preambleSize_def)

lemma read_written_manifest:
  assumes "crypto_ok cr" "manifest_for cr cd identity providers (length plain) m keys" "codec_ok cd m"
    and "length (cd_Marshal cd m) \<le> maxHeaderSize" "chunk_numbers_fit plain"
    and "source = preamble_for (cd_Marshal cd m) @ cd_Marshal cd m @ sealed_chunks cr m keys plain (chunks_of (length plain))"
  shows "readContainerManifest cd source (int (length source)) = Inr (m, int (length (cd_Marshal cd m)))
    \<and> int (length source) = int (preambleSize + length (cd_Marshal cd m)) + int (length plain)
        + int (chunks_of (length plain)) * (int gcmTagSize * int (length (cm_Layers m)))"
proof -
  let ?h = "cd_Marshal cd m" and ?L = "length (cm_Layers m)" and ?c = "chunks_of (length plain)"
  have len: "int (length source) = int (preambleSize + length ?h) + int (length plain) + int ?c * (int gcmTagSize * int ?L)"
    using assms(6) by (simp add: length_all_sealed [OF assms(1)])
  have rd: "ReadAt source 0 (int preambleSize) = Some (preamble_for ?h)"
    using ReadAt_nat [of 0 preambleSize source] assms(6) by simp
  have rh: "ReadAt source (int preambleSize) (int (length ?h)) = Some ?h"
    using ReadAt_nat [of preambleSize "length ?h" source] assms(6) by simp
  have magic: "take 8 (preamble_for ?h) = containerMagic" "drop 8 (preamble_for ?h) = PutUint32 (word_of_nat (length ?h))"
    by (simp_all add: preamble_for_def containerMagic_def)
  have hl: "unat (word_of_nat (length ?h) :: 32 word) = length ?h"
    using assms(4) by (simp add: unat_of_nat maxHeaderSize_def)
  have n: "int (length plain) \<le> 2 ^ 52" "?L \<le> 2" "int (length ?h) \<le> 65536"
    using assms(2,4,5) by (simp_all add: chunk_numbers_fit_def manifest_for_def maxHeaderSize_def)
  have c: "int ?c \<le> 2 ^ 43" using chunks_of_bound [of "length plain"] n(1) by simp
  have "wrap64 (wrap64 (int preambleSize + int (length ?h) + int (length plain))
      + wrap64 (chunkCount (int (length plain)) (int DefaultChunkSize) * (int gcmTagSize * int ?L))) = int (length source)"
  proof -
    have "?L = 0 \<or> ?L = 1 \<or> ?L = 2" using n(2) by linarith
    then have "int ?c * (int gcmTagSize * int ?L) \<le> 2 ^ 48" using c by (auto simp: gcmTagSize_def)
    moreover have "chunkCount (int (length plain)) (int DefaultChunkSize) = int ?c"
      using n(1) by (intro chunkCount_exact) simp
    ultimately show ?thesis using n len by (simp add: wrap64_id preambleSize_def)
  qed
  moreover have "\<not> int (length source) < int preambleSize" "\<not> int preambleSize + int (length ?h) > int (length source)"
    unfolding len by (simp_all add: add_nonneg_nonneg not_less)
  ultimately have "readContainerManifest cd source (int (length source)) = Inr (m, int (length ?h))"
    using assms(2,3,4) rd rh magic hl crypto_okD(3,4) [OF assms(1)]
    by (simp add: readContainerManifest_def Let_def codec_ok_def manifest_for_def computeHeaderMAC_def)
  with len show ?thesis by simp
qed

text \<open>The bytes of a container with this plain text for this identity.\<close>

definition container_of :: "crypto \<Rightarrow> codec \<Rightarrow> enc_Identity \<Rightarrow> ProviderMap \<Rightarrow> string \<Rightarrow> string \<Rightarrow> bool" where
  "container_of cr cd identity providers plain source \<longleftrightarrow>
     (\<exists>m keys. manifest_for cr cd identity providers (length plain) m keys \<and> codec_ok cd m
        \<and> length (cd_Marshal cd m) \<le> maxHeaderSize
        \<and> source = preamble_for (cd_Marshal cd m) @ cd_Marshal cd m @ sealed_chunks cr m keys plain (chunks_of (length plain)))"

lemma Open_container:
  assumes "crypto_ok cr" "container_of cr cd identity providers plain source" "chunk_numbers_fit plain"
  shows "\<exists>r. Open cr cd source (int (length source)) identity providers = Inr r \<and> reads cr r plain"
proof -
  from assms(2) obtain m keys where m: "manifest_for cr cd identity providers (length plain) m keys" "codec_ok cd m"
    "length (cd_Marshal cd m) \<le> maxHeaderSize"
    and src: "source = preamble_for (cd_Marshal cd m) @ cd_Marshal cd m @ sealed_chunks cr m keys plain (chunks_of (length plain))"
    by (auto simp: container_of_def)
  define r where "r = \<lparr>rd_source = source, rd_manifest = m, rd_dataKeys = keys,
    rd_dataOffset = int preambleSize + int (length (cd_Marshal cd m)), rd_sourceSize = int (length source), rd_closed = False\<rparr>"
  have "Open cr cd source (int (length source)) identity providers = Inr r"
    using m(1) conjunct1 [OF read_written_manifest [OF assms(1) m assms(3) src]]
    by (simp add: Open_def marshalIdentity_def manifest_for_def r_def)
  moreover have "reads cr r plain"
    using m(1) src by (auto simp: reads_def manifest_for_def r_def intro!: exI [of _ "preamble_for (cd_Marshal cd m) @ cd_Marshal cd m"])
  ultimately show ?thesis by blast
qed

text \<open>
  C10. Whatever the pieces a text is written in, the writer accepts them and leaves a container that
  opens for the same identity, and every range read from it, with buffers of any size, is that
  range of the text. The size the writer announced is the size of the container.
\<close>

theorem container_roundtrip:
  assumes "crypto_ok cr" "NewWriter cr cd rnd empty_destination opts = Inr w" "codec_ok cd (w_manifest w)"
    and "providers_for providers (wo_Layers opts)" "plain = concat pieces" "wo_PlaintextSize opts = int (length plain)"
    and "chunk_numbers_fit plain"
  shows "\<exists>w1 w2 r. write_pieces cr pieces w = Some (None, w1) \<and> Writer_Close cr w1 = (None, w2)
    \<and> int (length (d_bytes (w_destination w2))) = w_ciphertextSize w
    \<and> Open cr cd (d_bytes (w_destination w2)) (w_ciphertextSize w) (wo_Identity opts) providers = Inr r
    \<and> (\<forall>room start len. (\<forall>k. 0 < room k) \<longrightarrow> start + len \<le> length plain \<longrightarrow>
         ReadRange cr room (\<lambda>_. None) r (int start) (int len) = Some (Inr (take len (drop start plain)), Reader_Close r))"
proof -
  note w = NewWriter_Inr [OF assms(2,4,6)]
  from w have m: "manifest_for cr cd (wo_Identity opts) providers (length plain) (w_manifest w) (w_dataKeys w)" and f: "fresh w"
    and h: "w_header w = cd_Marshal cd (w_manifest w)" "length (cd_Marshal cd (w_manifest w)) \<le> maxHeaderSize"
    and d: "d_bytes (w_destination w) = preamble_for (w_header w) @ w_header w"
    by auto
  from m have n: "cm_PlaintextSize (w_manifest w) = int (length plain)" by (simp add: manifest_for_def)
  have p: "write_pieces cr pieces w = Some (None, after cr w plain)"
    using write_pieces_after [OF f, of "[]" pieces cr] after_Nil [OF f] n assms(5) by simp
  from close_after [OF f n] obtain w2 where c: "Writer_Close cr (after cr w plain) = (None, w2)"
    "d_bytes (w_destination w2) = d_bytes (w_destination w)
      @ sealed_chunks cr (w_manifest w) (w_dataKeys w) plain (chunks_of (length plain))" by blast
  let ?file = "d_bytes (w_destination w2)"
  have bytes: "?file = preamble_for (cd_Marshal cd (w_manifest w)) @ cd_Marshal cd (w_manifest w)
      @ sealed_chunks cr (w_manifest w) (w_dataKeys w) plain (chunks_of (length plain))"
    using c(2) d h(1) by simp
  then have cont: "container_of cr cd (wo_Identity opts) providers plain ?file"
    using m h(2) assms(3) by (auto simp: container_of_def)
  have "int (length plain) \<le> 2 ^ 52" using assms(7) by (simp add: chunk_numbers_fit_def)
  then have cc: "chunkCount (int (length plain)) (int DefaultChunkSize) = int (chunks_of (length plain))"
    by (intro chunkCount_exact) simp
  have len: "int (length ?file) = w_ciphertextSize w"
    using read_written_manifest [OF assms(1) m assms(3) h(2) assms(7) bytes] w cc h(1)
      written_size_fits [OF \<open>int (length plain) \<le> 2 ^ 52\<close> h(2), of "length (cm_Layers (w_manifest w))"] m
    by (simp add: wrap64_id manifest_for_def)
  from Open_container [OF assms(1) cont assms(7)] obtain r where
    r: "Open cr cd ?file (int (length ?file)) (wo_Identity opts) providers = Inr r" "reads cr r plain" by blast
  from p c(1) len r(1) ReadRange_reads [OF assms(1) r(2) assms(7)] show ?thesis by auto
qed

section \<open>Rewrapped containers\<close>

definition providers_sound :: "ProviderMap \<Rightarrow> bool" where
  "providers_sound providers \<longleftrightarrow>
     (\<forall>name kp. providers name = Some kp \<longrightarrow> name \<noteq> [] \<longrightarrow> provider_ok kp \<and> kp_Name kp = name)"

lemma unwrap_layers_length:
  "unwrap_layers providers identity mode index layers = Inr keys \<Longrightarrow> length keys = length layers"
  by (induction layers arbitrary: index keys) (auto simp: bind_res_Inr split: if_split_asm option.splits sum.splits)





section \<open>Accepted headers\<close>

lemma wrap64_add: "wrap64 (wrap64 a + wrap64 b) = wrap64 (a + b)"
  by (simp add: wrap64_def)

lemma manifest_accepted:
  assumes "readContainerManifest cd source n = Inr (m, hl)"
  shows "0 \<le> hl" "hl \<le> int maxHeaderSize" "0 \<le> cm_PlaintextSize m" "cm_ChunkSize m = int DefaultChunkSize"
    "0 < length (cm_Layers m)" "length (cm_Layers m) \<le> 2" "list_all layer_complete (cm_Layers m)"
    "n = wrap64 (int preambleSize + hl + cm_PlaintextSize m
      + chunkCount (cm_PlaintextSize m) (cm_ChunkSize m) * (int gcmTagSize * int (length (cm_Layers m))))"
  using assms
  by (auto simp: readContainerManifest_def Let_def wrap64_add not_le split: if_split_asm option.splits)

text \<open>
  The size check of an accepted header is exact although it is computed in int64: no size a header
  may claim wraps around to the size of a source below 2 ^ 62 bytes.
\<close>

lemma accepted_size:
  assumes "readContainerManifest cd source n = Inr (m, hl)" "0 \<le> n" "n < 2 ^ 62" "cm_PlaintextSize m = int p" "int p < 2 ^ 63"
  shows "n = int preambleSize + hl + int p + int (chunks_of p) * (int gcmTagSize * int (length (cm_Layers m)))"
proof -
  note a = manifest_accepted [OF assms(1)]
  let ?cc = "chunkCount (int p) (int DefaultChunkSize)" and ?L = "length (cm_Layers m)"
  define t where "t = ?cc * (int gcmTagSize * int ?L)"
  have n: "n = wrap64 (int preambleSize + hl + int p + t)" using a(4,8) assms(4) by (simp add: t_def)
  have L: "?L = 1 \<or> ?L = 2" using a(5,6) by linarith
  have h: "0 \<le> hl" "hl \<le> 65536" using a(1,2) by (simp_all add: maxHeaderSize_def)
  have "\<not> 2 ^ 63 - 2 ^ 20 < int p"
  proof
    assume big: "2 ^ 63 - 2 ^ 20 < int p"
    have "- (2 ^ 48) \<le> t" "t < - (2 ^ 45)"
      using chunkCount_wraps [OF big assms(5)] L by (auto simp: t_def gcmTagSize_def)
    with n h big assms(3,5) show False by (simp add: wrap64_id preambleSize_def)
  qed
  then have cc: "?cc = int (chunks_of p)" by (intro chunkCount_exact) simp
  have "0 \<le> t" "t \<le> 2 ^ 48"
    using chunks_of_bound [OF assms(5)] L by (auto simp: t_def cc gcmTagSize_def)
  then have "int preambleSize + hl + int p + t < 2 ^ 63"
    using n h assms(2,5) wrap64_minus [of "int preambleSize + hl + int p + t"]
    by (cases "int preambleSize + hl + int p + t < 2 ^ 63") (simp_all add: preambleSize_def)
  with n h \<open>0 \<le> t\<close> have "n = int preambleSize + hl + int p + t" by (simp add: wrap64_id preambleSize_def)
  then show ?thesis by (simp add: t_def cc)
qed

lemma chunk_end:
  assumes "i < chunks_of p"
  shows "i * (DefaultChunkSize + T) + (min DefaultChunkSize (p - i * DefaultChunkSize) + T) \<le> p + chunks_of p * T"
proof -
  have "i * DefaultChunkSize + min DefaultChunkSize (p - i * DefaultChunkSize) \<le> p"
    using chunk_start [OF assms] by simp
  moreover have "Suc i * T \<le> chunks_of p * T" using assms by (intro mult_le_mono1) simp
  ultimately show ?thesis by (simp add: add_mult_distrib2)
qed

text \<open>
  C12. Every chunk of an opened container lies inside its source, so reading a chunk can only fail in
  its authentication: nothing a header claims makes the reader look beyond the source.
\<close>

theorem accepted_chunks_inside:
  assumes "Open cr cd source (int (length source)) identity providers = Inr r" "int (length source) < 2 ^ 62"
    and "cm_PlaintextSize (rd_manifest r) = int p" "int p < 2 ^ 63" "i < chunks_of p" "i < 2 ^ 32"
  shows "\<exists>payload. readChunk cr r (word_of_nat i)
      = open_layers cr (rd_manifest r) (rd_dataKeys r) (word_of_nat i) (length (cm_Layers (rd_manifest r))) payload
    \<and> length payload = min DefaultChunkSize (p - i * DefaultChunkSize) + gcmTagSize * length (cm_Layers (rd_manifest r))"
proof -
  let ?m = "rd_manifest r" and ?C = DefaultChunkSize
  let ?T = "gcmTagSize * length (cm_Layers (rd_manifest r))"
  from assms(1) obtain hl keys where rd: "readContainerManifest cd source (int (length source)) = Inr (?m, hl)"
    and keys: "unwrap_layers providers (cd_Identity cd identity) (cm_Mode ?m) 0 (cm_Layers ?m) = Inr (rd_dataKeys r)"
    and r: "rd_source r = source" "rd_dataOffset r = int preambleSize + hl" "\<not> rd_closed r"
    by (auto simp: Open_def marshalIdentity_def bind_res_Inr split: if_split_asm)
  note a = manifest_accepted [OF rd]
  have n: "length (rd_dataKeys r) = length (cm_Layers ?m)" by (rule unwrap_layers_length [OF keys])
  define front where "front = preambleSize + nat hl"
  have front: "rd_dataOffset r = int front" using r(2) a(1) by (simp add: front_def)
  have size: "length source = front + (p + chunks_of p * ?T)"
    using accepted_size [OF rd _ assms(2-4)] a(1) by (simp add: front_def flip: of_nat_add of_nat_mult of_nat_eq_iff)
  let ?len = "min ?C (p - i * ?C) + ?T"
  have fits: "front + i * (?C + ?T) + ?len \<le> length source"
    using chunk_end [OF assms(5), of ?T] size by simp
  have start: "i * ?C < p" by (rule chunk_start [OF assms(5)])
  have cl: "min (int ?C) (int p - int i * int ?C) + int gcmTagSize * int (length (cm_Layers ?m)) = int ?len"
    using start by (simp add: of_nat_diff less_imp_le of_nat_min)
  have off: "int front + int i * (int ?C + int gcmTagSize * int (length (cm_Layers ?m))) = int (front + i * (?C + ?T))"
    by simp
  have num: "unat (word_of_nat i :: 32 word) = i" using assms(6) by (simp add: unat_of_nat)
  have "int i * int ?C < int p" using start by (simp flip: of_nat_mult)
  then have "readChunk cr r (word_of_nat i) = (case ReadAt source (int (front + i * (?C + ?T))) (int ?len) of
      None \<Rightarrow> Inl (Wrapped ''read chunk'' ErrInvalidContainer)
    | Some payload \<Rightarrow> open_layers cr ?m (rd_dataKeys r) (word_of_nat i) (length (cm_Layers ?m)) payload)"
    unfolding readChunk_def Let_def num a(4) assms(3) front cl off r(1) using r(3) n by simp
  with ReadAt_nat [OF fits] fits show ?thesis by auto
qed

section \<open>A small container\<close>

text \<open>A cipher that only appends its tag, one local key, and a header that is looked up.\<close>

definition tag_crypto :: crypto where
  "tag_crypto = \<lparr>cr_Seal = \<lambda>k n a p. p @ replicate 16 CHR ''t'', cr_Open = \<lambda>k n a c. Some (take (length c - 16) c),
     cr_SHA256 = \<lambda>x. replicate 32 CHR ''h'', cr_HMAC = \<lambda>k x. replicate 32 CHR ''m'', cr_MD5 = \<lambda>x. replicate 16 CHR ''d'',
     cr_base64 = \<lambda>x. x, cr_unbase64 = Some, cr_parse = \<lambda>x. None\<rparr>"

definition one_key :: KeyProvider where
  "one_key = local_KeyProvider tag_crypto (replicate 44 CHR ''r'')
     \<lparr>lp_active = ''k1'', lp_keys = [(''k1'', replicate 32 CHR ''k'')]\<rparr>"

definition one_provider :: ProviderMap where
  "one_provider name = (if name = localProviderName then Some one_key else None)"

definition small_options :: WriterOptions where
  "small_options = \<lparr>wo_Identity = \<lparr>ei_Bucket = ''b'', ei_Key = ''o'', ei_VersionID = []\<rparr>, wo_Mode = ModeSSES3,
     wo_PlaintextSize = 3, wo_Layers = [\<lparr>lr_Provider = Some one_key, lr_KeyID = [], lr_Context = []\<rparr>],
     wo_BucketKeyEnabled = False\<rparr>"

definition small_codec :: "(string \<Rightarrow> containerManifest option) \<Rightarrow> codec" where
  "small_codec unmarshal = \<lparr>cd_Marshal = \<lambda>m. ''H'', cd_Unmarshal = unmarshal, cd_Identity = ei_Key\<rparr>"

definition small_writer :: "codec \<Rightarrow> (go_error, Writer) result" where
  "small_writer cd = NewWriter tag_crypto cd (replicate 40 CHR ''q'') empty_destination small_options"

definition lookup_codec :: codec where
  "lookup_codec = small_codec (\<lambda>h. case small_writer (small_codec (\<lambda>h. None)) of Inl _ \<Rightarrow> None | Inr w \<Rightarrow> Some (w_manifest w))"

lemma tag_crypto_ok: "crypto_ok tag_crypto"
  by (simp add: crypto_ok_def tag_crypto_def gcmTagSize_def sha256Size_def md5Size_def)

lemma one_key_ok: "provider_ok one_key" "kp_Name one_key = localProviderName" "localProviderName \<noteq> []"
  using lp.ok [OF tag_crypto_ok] by (simp_all add: one_key_def local_KeyProvider_def localProviderName_def)

lemma one_provider_laws: "providers_for one_provider (wo_Layers small_options)" "providers_sound one_provider"
  using one_key_ok by (auto simp: providers_for_def providers_sound_def small_options_def one_provider_def)

lemma small_writer_codec: "small_writer (small_codec f) = small_writer (small_codec g)"
  unfolding small_writer_def NewWriter_def marshalIdentity_def marshalManifestCore_def small_codec_def
  by (simp only: codec.select_convs)

lemma small_writer_starts: "\<exists>w. small_writer lookup_codec = Inr w \<and> codec_ok lookup_codec (w_manifest w)"
proof -
  have "is_ok (generate_layers ''o'' ModeSSES3 0 (replicate 8 CHR ''q'') (wo_Layers small_options))" by code_simp
  then obtain gen where gen: "generate_layers ''o'' ModeSSES3 0 (replicate 8 CHR ''q'') (wo_Layers small_options) = Inr gen"
    by (auto simp: is_ok_iff)
  have guards: "Identity_valid (wo_Identity small_options)" "known_mode ModeSSES3" "ModeSSES3 \<noteq> ModeDSSEKMS" by code_simp+
  have aad: "ReadFull (replicate 40 CHR ''q'') sha256Size = Inr (replicate 32 CHR ''q'')"
    by (simp add: ReadFull_def sha256Size_def take_replicate)
  have opts: "wo_PlaintextSize small_options = 3" "wo_Mode small_options = ModeSSES3" "length (wo_Layers small_options) = 1"
    "wo_Layers small_options \<noteq> []" "ei_Key (wo_Identity small_options) = ''o''"
    "drop sha256Size (replicate 40 CHR ''q'') = replicate 8 CHR ''q''"
    by (simp_all add: small_options_def sha256Size_def drop_replicate)
  have "is_ok (small_writer (small_codec (\<lambda>h. None)))"
    unfolding small_writer_def NewWriter_def
    by (simp add: opts guards aad gen marshalIdentity_def small_codec_def Let_def dest_Write_def empty_destination_def
        maxHeaderSize_def del: drop_replicate take_replicate)
  then obtain w where w: "small_writer (small_codec (\<lambda>h. None)) = Inr w" by (auto simp: is_ok_iff)
  moreover have "small_writer lookup_codec = small_writer (small_codec (\<lambda>h. None))"
    unfolding lookup_codec_def by (rule small_writer_codec)
  moreover have "codec_ok lookup_codec (w_manifest w)"
    unfolding codec_ok_def lookup_codec_def by (simp add: small_codec_def w [unfolded small_codec_def])
  ultimately show ?thesis by simp
qed

theorem container_roundtrip_witness:
  "\<exists>w w1 w2 r. small_writer lookup_codec = Inr w \<and> write_pieces tag_crypto [''ab'', ''c''] w = Some (None, w1)
    \<and> Writer_Close tag_crypto w1 = (None, w2)
    \<and> Open tag_crypto lookup_codec (d_bytes (w_destination w2)) (w_ciphertextSize w) (wo_Identity small_options) one_provider = Inr r
    \<and> ReadRange tag_crypto (\<lambda>_. 512) (\<lambda>_. None) r 1 2 = Some (Inr ''bc'', Reader_Close r)"
proof -
  from small_writer_starts obtain w where w: "small_writer lookup_codec = Inr w" "codec_ok lookup_codec (w_manifest w)" by blast
  have "chunk_numbers_fit ''abc''" by (simp add: chunk_numbers_fit_def)
  from container_roundtrip [OF tag_crypto_ok w(1) [unfolded small_writer_def] w(2) one_provider_laws(1), of "''abc''" "[''ab'', ''c'']"] this
  obtain w1 w2 r where r: "write_pieces tag_crypto [''ab'', ''c''] w = Some (None, w1)" "Writer_Close tag_crypto w1 = (None, w2)"
    "Open tag_crypto lookup_codec (d_bytes (w_destination w2)) (w_ciphertextSize w) (wo_Identity small_options) one_provider = Inr r"
    and rd: "\<forall>room start len. (\<forall>k. 0 < room k) \<longrightarrow> start + len \<le> length ''abc'' \<longrightarrow>
      ReadRange tag_crypto room (\<lambda>_. None) r (int start) (int len) = Some (Inr (take len (drop start ''abc'')), Reader_Close r)"
    by (auto simp: small_options_def)
  from rd [rule_format, of "\<lambda>_. 512" 1 2] have "ReadRange tag_crypto (\<lambda>_. 512) (\<lambda>_. None) r 1 2 = Some (Inr ''bc'', Reader_Close r)"
    by simp
  with w(1) r show ?thesis by blast
qed

theorem MaximumCiphertextSize_exact_witness:
  "65585 = int 5 + int (preambleSize + maxHeaderSize) + int (chunks_of 5) * (int gcmTagSize * 2) \<and> (65585::int) < 2 ^ 63"
proof (rule MaximumCiphertextSize_exact)
  have "chunkCount 5 (int DefaultChunkSize) = 1"
    using chunkCount_exact [of 5] by (simp add: chunks_of_def DefaultChunkSize_def)
  then show "MaximumCiphertextSize (int 5) 2 = Inr 65585"
    by (simp add: MaximumCiphertextSize_def wrap64_id preambleSize_def maxHeaderSize_def gcmTagSize_def)
qed simp

definition small_source :: "Writer \<Rightarrow> string" where
  "small_source w = preamble_for (cd_Marshal lookup_codec (w_manifest w)) @ cd_Marshal lookup_codec (w_manifest w)
     @ sealed_chunks tag_crypto (w_manifest w) (w_dataKeys w) ''abc'' (chunks_of (length ''abc''))"

lemma small_container:
  assumes "small_writer lookup_codec = Inr w" "codec_ok lookup_codec (w_manifest w)"
  shows "container_of tag_crypto lookup_codec (wo_Identity small_options) one_provider ''abc'' (small_source w)"
    "int (length (small_source w)) < 2 ^ 62"
proof -
  have "wo_PlaintextSize small_options = int (length ''abc'')" by (simp add: small_options_def)
  note w = NewWriter_Inr [OF assms(1) [unfolded small_writer_def] one_provider_laws(1) this]
  then show "container_of tag_crypto lookup_codec (wo_Identity small_options) one_provider ''abc'' (small_source w)"
    unfolding container_of_def small_source_def
    by (intro exI [of _ "w_manifest w"] exI [of _ "w_dataKeys w"] conjI assms(2)) auto
  have "chunks_of (length ''abc'') = 1" by (simp add: chunks_of_def DefaultChunkSize_def)
  moreover have "length (cm_Layers (w_manifest w)) = 1" using w by (simp add: small_options_def)
  moreover have "cd_Marshal lookup_codec m = ''H''" for m by (simp add: lookup_codec_def small_codec_def)
  ultimately show "int (length (small_source w)) < 2 ^ 62"
    using length_all_sealed [OF tag_crypto_ok, of "w_manifest w" "w_dataKeys w" "''abc''"]
    by (simp add: small_source_def preambleSize_def gcmTagSize_def)
qed

theorem accepted_chunks_inside_witness:
  "\<exists>w r payload. small_writer lookup_codec = Inr w
    \<and> readChunk tag_crypto r (word_of_nat 0)
      = open_layers tag_crypto (rd_manifest r) (rd_dataKeys r) (word_of_nat 0) (length (cm_Layers (rd_manifest r))) payload
    \<and> length payload = min DefaultChunkSize (3 - 0 * DefaultChunkSize) + gcmTagSize * length (cm_Layers (rd_manifest r))"
proof -
  from small_writer_starts obtain w where w: "small_writer lookup_codec = Inr w" "codec_ok lookup_codec (w_manifest w)" by blast
  note c = small_container [OF w]
  have "chunk_numbers_fit ''abc''" by (simp add: chunk_numbers_fit_def)
  from Open_container [OF tag_crypto_ok c(1) this] obtain r where
    r: "Open tag_crypto lookup_codec (small_source w) (int (length (small_source w))) (wo_Identity small_options) one_provider = Inr r"
    "reads tag_crypto r ''abc''" by blast
  from r(2) have "cm_PlaintextSize (rd_manifest r) = int 3" by (simp add: reads_def)
  from accepted_chunks_inside [OF r(1) c(2) this, of 0] w(1) show ?thesis
    by (auto simp: chunks_of_def DefaultChunkSize_def)
qed






end
