(* ===== verification/Object_Walk.thy ===== *)
theory Object_Walk
  imports S3_Errors
begin

text \<open>
  The directory walk behind the object listings of the POSIX backends (backend/walk.go): one
  page of the keys below a bucket directory, restricted by a prefix, grouped by a delimiter and
  resumed after a marker.

  The file system (package \<open>io/fs\<close>) and the callback \<open>getObj\<close> that reads one object's metadata
  are parameters. The three mutually recursive functions \<open>readDir\<close>, \<open>readDirEntries\<close> and
  \<open>processDir\<close> are the branches of one recursive definition, whose result is \<open>None\<close> when the
  recursion does not end. Wrapped errors name the path without the quotes of \<open>%q\<close>.
\<close>

section \<open>The file system and the state of a walk\<close>

record DirEntry =
  de_Name :: string
  de_IsDir :: bool

text \<open>\<open>fs.ReadDir\<close> and \<open>fs.Stat\<close> on the file system of the bucket.\<close>

record FS =
  fs_ReadDir :: "string \<Rightarrow> (go_error, DirEntry list) result"
  fs_Stat :: "string \<Rightarrow> (go_error, DirEntry) result"

definition fs_ErrNotExist :: go_error where
  "fs_ErrNotExist = ErrorString ''file does not exist''"

definition syscall_ENOTDIR :: go_error where
  "syscall_ENOTDIR = ErrorString ''not a directory''"

definition ErrSkipObj :: go_error where
  "ErrSkipObj = ErrorString ''skip this object''"

text \<open>\<open>errors.Is\<close> for a sentinel value.\<close>

fun errors_Is :: "go_error \<Rightarrow> go_error \<Rightarrow> bool" where
  "errors_Is (Wrapped m e) s = (Wrapped m e = s \<or> errors_Is e s)"
| "errors_Is e s = (e = s)"

text \<open>
  \<open>walkState\<close> is split in two: the fields the walk only reads, and the mutable ones. The context
  is asked for its error many times during a walk; \<open>w_ctxErr n\<close> is its answer to question \<open>n\<close> and
  \<open>polls\<close> counts the questions.
\<close>

record 'o walkParams =
  w_ctxErr :: "nat \<Rightarrow> go_error option"
  w_fileSystem :: FS
  w_prefix :: string
  w_delimiter :: string
  w_marker :: string
  w_max :: int
  w_getObj :: "string \<Rightarrow> DirEntry \<Rightarrow> (go_error, 'o) result"
  w_skipdirs :: "string list"

type_synonym cpMap = "(string \<times> nat) list"

record 'o walkState =
  polls :: nat
  cpmap :: cpMap
  w_objects :: "'o list"
  pastMax :: bool
  newMarker :: string
  w_truncated :: bool
  walkErr :: "go_error option"

record 'o WalkResults =
  CommonPrefixes :: "string list"
  Objects :: "'o list"
  Truncated :: bool
  NextMarker :: string

section \<open>Common prefixes\<close>

text \<open>The Go map from prefixes to their positions, as the list of its entries.\<close>

definition cpMap_Add :: "cpMap \<Rightarrow> string \<Rightarrow> cpMap" where
  "cpMap_Add c key = (if map_of c key = None then c @ [(key, length c)] else c)"

definition cpMap_Len :: "cpMap \<Rightarrow> nat" where
  "cpMap_Len c = length c"

text \<open>The array is allocated with the map's length and each prefix is stored at its position.\<close>

definition CpArray :: "cpMap \<Rightarrow> string list" where
  "CpArray c = fold (\<lambda>(cp, i) a. a[i := cp]) c (replicate (cpMap_Len c) [])"

section \<open>Adding results\<close>

definition addObject :: "'o walkParams \<Rightarrow> 'o \<Rightarrow> string \<Rightarrow> 'o walkState \<Rightarrow> 'o walkState" where
  "addObject w obj path st =
     (let st1 = st\<lparr>w_objects := w_objects st @ [obj]\<rparr>
      in if int (length (w_objects st1)) + int (cpMap_Len (cpmap st1)) \<ge> w_max w
         then st1\<lparr>newMarker := path, pastMax := True\<rparr> else st1)"

definition addCommonPrefix :: "'o walkParams \<Rightarrow> string \<Rightarrow> 'o walkState \<Rightarrow> 'o walkState" where
  "addCommonPrefix w cpref st =
     (let st1 = st\<lparr>cpmap := cpMap_Add (cpmap st) cpref\<rparr>
      in if int (length (w_objects st1)) + int (cpMap_Len (cpmap st1)) \<ge> w_max w
         then st1\<lparr>newMarker := cpref, pastMax := True\<rparr> else st1)"

definition makeFullObjectName :: "string \<Rightarrow> string \<Rightarrow> string" where
  "makeFullObjectName path nm = (if path = ''.'' then nm else path @ ''/'' @ nm)"

definition shouldSkip :: "string \<Rightarrow> 'o walkParams \<Rightarrow> bool" where
  "shouldSkip nm w \<longleftrightarrow> nm \<in> set (w_skipdirs w)"

definition checkAndMaybeAddCommonPrefix ::
  "string \<Rightarrow> 'o walkParams \<Rightarrow> 'o walkState \<Rightarrow> bool \<times> 'o walkState" where
  "checkAndMaybeAddCommonPrefix objectName w st =
     (if w_prefix w \<noteq> [] \<and> \<not> HasPrefix objectName (w_prefix w) then (True, st)
      else if w_delimiter w \<noteq> [] then
        (case Cut (TrimPrefix objectName (w_prefix w)) (w_delimiter w) of
           Some (objectNameBeforeDelimiter, _) \<Rightarrow>
             (let commonPrefix = w_prefix w @ objectNameBeforeDelimiter @ w_delimiter w
              in (True, if commonPrefix > w_marker w then addCommonPrefix w commonPrefix st else st))
         | None \<Rightarrow> (False, st))
      else (False, st))"

definition addContentEntry :: "string \<Rightarrow> DirEntry \<Rightarrow> 'o walkParams \<Rightarrow> 'o walkState \<Rightarrow> 'o walkState" where
  "addContentEntry objectName dirEntry w st =
     (case w_getObj w objectName dirEntry of
        Inl err \<Rightarrow>
          if err = ErrSkipObj then st
          else st\<lparr>walkErr := Some (Wrapped (''file to object '' @ objectName) err)\<rparr>
      | Inr obj \<Rightarrow> addObject w obj objectName st)"

text \<open>The leaf branch shared by \<open>readDirEntries\<close> and \<open>processDir\<close>.\<close>

definition leafEntry :: "string \<Rightarrow> DirEntry \<Rightarrow> 'o walkParams \<Rightarrow> 'o walkState \<Rightarrow> 'o walkState" where
  "leafEntry path e w st =
     (let currentObjectName = makeFullObjectName path (de_Name e)
      in if currentObjectName > w_marker w then
           (case checkAndMaybeAddCommonPrefix currentObjectName w st of
              (False, st1) \<Rightarrow> addContentEntry currentObjectName e w st1
            | (True, st1) \<Rightarrow> st1)
         else st)"

text \<open>
  The part of \<open>processDir\<close> that offers the directory itself. The flag says whether the walk goes
  on to the directory's own entries.
\<close>

definition offerDir :: "string \<Rightarrow> DirEntry \<Rightarrow> 'o walkParams \<Rightarrow> 'o walkState \<Rightarrow> bool \<times> 'o walkState" where
  "offerDir fullObjectName d w st =
     (if fullObjectName > w_marker w then
        (case checkAndMaybeAddCommonPrefix fullObjectName w st of
           (True, st1) \<Rightarrow>
             (\<not> (\<not> HasPrefix (w_prefix w) fullObjectName \<or> pastMax st1), st1)
         | (False, st1) \<Rightarrow>
             (case w_getObj w fullObjectName d of
                Inl err \<Rightarrow>
                  if err = ErrSkipObj then (True, st1)
                  else (False, st1\<lparr>walkErr := Some (Wrapped (''directory to object '' @ fullObjectName) err)\<rparr>)
              | Inr dirobj \<Rightarrow> (True, addObject w dirobj fullObjectName st1)))
      else (HasPrefix fullObjectName (w_marker w) \<or> HasPrefix (w_marker w) fullObjectName, st))"

section \<open>The recursion\<close>

text \<open>
  The calls of the recursion. The Go code passes the slice of entries and an index; here the
  list holds the entries from the index on, and the list returned is what \<open>processDir\<close>'s
  returned index leaves. \<open>ProcessDirSelf\<close> is the part of \<open>processDir\<close> after its loop.
\<close>

datatype walkCall =
    ReadDir string
  | ReadDirEntries string "DirEntry list"
  | ProcessDir string DirEntry "DirEntry list"
  | ProcessDirSelf string DirEntry "DirEntry list"

definition ctx_Err :: "'o walkParams \<Rightarrow> 'o walkState \<Rightarrow> go_error option" where
  "ctx_Err w st = w_ctxErr w (polls st)"

definition polled :: "'o walkState \<Rightarrow> 'o walkState" where
  "polled st = st\<lparr>polls := Suc (polls st)\<rparr>"

partial_function (option) walkRec ::
  "'o walkParams \<Rightarrow> walkCall \<Rightarrow> 'o walkState \<Rightarrow> (DirEntry list \<times> 'o walkState) option" where
  "walkRec w c st =
     (case c of
        ReadDir path \<Rightarrow>
          (case ctx_Err w st of
             Some err \<Rightarrow> Some ([], (polled st)\<lparr>walkErr := Some err\<rparr>)
           | None \<Rightarrow>
               (case fs_ReadDir (w_fileSystem w) path of
                  Inl err \<Rightarrow>
                    if errors_Is err fs_ErrNotExist \<or> errors_Is err syscall_ENOTDIR
                    then Some ([], polled st)
                    else Some ([], (polled st)\<lparr>walkErr := Some (Wrapped (''readdir '' @ path) err)\<rparr>)
                | Inr es \<Rightarrow> walkRec w (ReadDirEntries path es) (polled st)))
      | ReadDirEntries path es \<Rightarrow>
          (case es of
             [] \<Rightarrow> Some ([], st)
           | e # rest \<Rightarrow>
               (case ctx_Err w st of
                  Some err \<Rightarrow> Some (es, (polled st)\<lparr>walkErr := Some err\<rparr>)
                | None \<Rightarrow>
                    if shouldSkip (de_Name e) w then walkRec w (ReadDirEntries path rest) (polled st)
                    else if pastMax st then Some (es, (polled st)\<lparr>w_truncated := True\<rparr>)
                    else if de_IsDir e then
                      Option.bind (walkRec w (ProcessDir path e rest) (polled st))
                        (\<lambda>(rest1, st1). walkRec w (ReadDirEntries path rest1) st1)
                    else walkRec w (ReadDirEntries path rest) (leafEntry path e w (polled st))))
      | ProcessDir path d es \<Rightarrow>
          (case es of
             [] \<Rightarrow> walkRec w (ProcessDirSelf path d []) st
           | e # rest \<Rightarrow>
               (case ctx_Err w st of
                  Some err \<Rightarrow> Some (es, (polled st)\<lparr>walkErr := Some err\<rparr>)
                | None \<Rightarrow>
                    if pastMax st then Some (es, (polled st)\<lparr>w_truncated := True\<rparr>)
                    else if de_Name e < de_Name d @ ''/'' then
                      if shouldSkip (de_Name e) w then walkRec w (ProcessDir path d rest) (polled st)
                      else if de_IsDir e then
                        Option.bind (walkRec w (ProcessDir path e rest) (polled st))
                          (\<lambda>(rest1, st1). walkRec w (ProcessDir path d rest1) st1)
                      else walkRec w (ProcessDir path d rest) (leafEntry path e w (polled st))
                    else walkRec w (ProcessDirSelf path d es) (polled st)))
      | ProcessDirSelf path d es \<Rightarrow>
          if pastMax st then Some (es, st\<lparr>w_truncated := True\<rparr>)
          else
            (case offerDir (makeFullObjectName path (de_Name d) @ ''/'') d w st of
               (descend, st1) \<Rightarrow>
                 if \<not> descend then Some (es, st1)
                 else if pastMax st1 then Some (es, st1\<lparr>w_truncated := True\<rparr>)
                 else Option.bind (walkRec w (ReadDir (makeFullObjectName path (de_Name d))) st1)
                        (\<lambda>(_, st2). Some (es, st2))))"

definition readDir :: "string \<Rightarrow> 'o walkParams \<Rightarrow> 'o walkState \<Rightarrow> 'o walkState option" where
  "readDir path w st = map_option snd (walkRec w (ReadDir path) st)"

definition readDirEntries ::
  "string \<Rightarrow> DirEntry list \<Rightarrow> 'o walkParams \<Rightarrow> 'o walkState \<Rightarrow> 'o walkState option" where
  "readDirEntries path es w st = map_option snd (walkRec w (ReadDirEntries path es) st)"

section \<open>A page\<close>

text \<open>\<open>strings.LastIndex(s, "/")\<close>; \<open>None\<close> stands for -1.\<close>

definition lastSlash :: "string \<Rightarrow> nat option" where
  "lastSlash s =
     (if CHR ''/'' \<in> set s then Some (length s - 1 - length (takeWhile (\<lambda>c. c \<noteq> CHR ''/'') (rev s)))
      else None)"

text \<open>
  \<open>path.Base\<close>: trailing slashes are removed, then everything up to the last slash; an empty path
  gives a dot and a path of slashes one slash.
\<close>

definition path_Base :: "string \<Rightarrow> string" where
  "path_Base p =
     (if p = [] then ''.''
      else let q = rev (dropWhile (\<lambda>c. c = CHR ''/'') (rev p))
           in let b = rev (takeWhile (\<lambda>c. c \<noteq> CHR ''/'') (rev q))
              in if b = [] then ''/'' else b)"

text \<open>The directory and the entries the walk starts from when it can jump into the prefix.\<close>

definition prefixRoot :: "'o walkParams \<Rightarrow> (string \<times> DirEntry list) option" where
  "prefixRoot w =
     (case lastSlash (w_prefix w) of
        Some idx \<Rightarrow>
          if idx > 0 then
            (let prefixDir = take idx (w_prefix w)
             in case fs_ReadDir (w_fileSystem w) prefixDir of
                  Inr es \<Rightarrow> if es \<noteq> [] then Some (prefixDir, es) else None
                | Inl _ \<Rightarrow> None)
          else None
      | None \<Rightarrow> None)"

definition offerRoot :: "string \<Rightarrow> 'o walkParams \<Rightarrow> 'o walkState \<Rightarrow> 'o walkState" where
  "offerRoot rootDir w st =
     (let fullObjectName = rootDir @ ''/''
      in if fullObjectName > w_marker w then
           (case checkAndMaybeAddCommonPrefix fullObjectName w st of
              (True, st1) \<Rightarrow> st1
            | (False, st1) \<Rightarrow>
                (case fs_Stat (w_fileSystem w) rootDir of
                   Inl err \<Rightarrow> st1\<lparr>walkErr := Some (Wrapped (''stat '' @ rootDir) err)\<rparr>
                 | Inr rootInfo \<Rightarrow>
                     (case w_getObj w fullObjectName rootInfo of
                        Inl err \<Rightarrow>
                          if err = ErrSkipObj then st1
                          else st1\<lparr>walkErr := Some (Wrapped (''directory to object '' @ fullObjectName) err)\<rparr>
                      | Inr dirobj \<Rightarrow> addObject w dirobj fullObjectName st1)))
         else st)"

definition quickWalk :: "'o walkParams \<Rightarrow> 'o walkState \<Rightarrow> (go_error, 'o walkState) result option" where
  "quickWalk w st =
     map_option
       (\<lambda>st1. case walkErr st1 of
                Some err \<Rightarrow> Inl err
              | None \<Rightarrow> Inr (if \<not> w_truncated st1 then st1\<lparr>newMarker := []\<rparr> else st1))
       (case prefixRoot w of
          Some (rootDir, rootEntries) \<Rightarrow>
            if \<not> shouldSkip (path_Base rootDir) w then
              (let st1 = offerRoot rootDir w st
               in if walkErr st1 = None then readDirEntries rootDir rootEntries w st1 else Some st1)
            else Some st
        | None \<Rightarrow> readDir ''.'' w st)"

definition initialState :: "'o walkState" where
  "initialState = \<lparr>polls = 0, cpmap = [], w_objects = [], pastMax = False, newMarker = [],
     w_truncated = False, walkErr = None\<rparr>"

definition Walk :: "'o walkParams \<Rightarrow> (go_error, 'o WalkResults) result option" where
  "Walk w =
     (if w_max w = 0 then
        Some (Inr \<lparr>CommonPrefixes = [], Objects = [], Truncated = False, NextMarker = []\<rparr>)
      else
        map_option
          (\<lambda>r. case r of
                 Inl qwErr \<Rightarrow> Inl qwErr
               | Inr st \<Rightarrow> Inr \<lparr>CommonPrefixes = CpArray (cpmap st), Objects = w_objects st,
                                Truncated = w_truncated st, NextMarker = newMarker st\<rparr>)
          (quickWalk w initialState))"

end
