(* ===== verification/Bucket_Tree.thy ===== *)
theory Bucket_Tree
  imports Object_Walk
begin

text \<open>
  The content of a bucket directory as a tree, the keys it holds, and the order in which the walk
  of \<open>Object_Walk\<close> meets them. A directory is read in the order of its names, but a directory's
  keys carry a slash, so that the byte order of the keys differs from the order of the names:
  \<open>a-b\<close> comes before the keys below \<open>a/\<close>. The lemmas here are the order facts on which
  \<open>processDir\<close> rests.
\<close>

section \<open>Byte order and prefixes\<close>

lemma append_less_append [simp]: "p @ x < p @ y \<longleftrightarrow> x < (y :: string)"
  by (induction p) simp_all

lemma prefix_le: "prefix x y \<Longrightarrow> x \<le> (y :: string)"
proof (induction x arbitrary: y)
  case (Cons a x)
  then obtain y' where "y = a # y'" "prefix x y'" by (auto simp: prefix_def)
  with Cons.IH show ?case by simp
qed simp

lemma less_not_prefix: "x < y \<Longrightarrow> \<not> prefix x y \<Longrightarrow> x @ u < y @ (v :: string)"
proof (induction x arbitrary: y)
  case (Cons a x)
  then show ?case by (cases y) auto
qed simp

text \<open>Everything below a prefix lies on the same side of a string the prefix is not a prefix of.\<close>

lemma less_below: "x < y \<Longrightarrow> \<not> prefix x y \<Longrightarrow> prefix x z \<Longrightarrow> z < (y :: string)"
  using less_not_prefix [of x y _ "[]"] by (auto simp: prefix_def)

section \<open>Names of one directory\<close>

text \<open>A name of a directory entry: not empty, not the directory itself, no separator.\<close>

definition okName :: "string \<Rightarrow> bool" where
  "okName n \<longleftrightarrow> n \<noteq> [] \<and> n \<noteq> ''.'' \<and> n \<noteq> ''..'' \<and> CHR ''/'' \<notin> set n"

lemma prefix_slash:
  assumes "CHR ''/'' \<notin> set n" "CHR ''/'' \<notin> set m" "prefix (n @ ''/'' @ x) (m @ ''/'' @ y)"
  shows "n = m \<and> prefix x y"
  using assms
proof (induction n arbitrary: m)
  case Nil
  then show ?case by (cases m) auto
next
  case (Cons a n)
  then show ?case by (cases m) auto
qed

lemma not_prefix_slash: "CHR ''/'' \<notin> set m \<Longrightarrow> \<not> prefix (n @ ''/'' @ x) m"
  by (auto simp: prefix_def)

lemma less_slash_keeps:
  assumes "e < d @ ''/''" "d < e" "CHR ''/'' \<notin> set e"
  shows "e @ x < d @ ''/'' @ y"
proof -
  have "\<not> prefix e (d @ ''/'')"
  proof
    assume p: "prefix e (d @ ''/'')"
    then have "prefix e d" using assms(3) by (auto simp: prefix_append prefix_Cons)
    then have "e \<le> d" by (rule prefix_le)
    with assms(2) show False by simp
  qed
  from less_not_prefix [OF assms(1) this, of x y] show ?thesis by simp
qed

lemma above_slash_keeps:
  assumes "\<not> e < d @ ''/''" "CHR ''/'' \<notin> set e"
  shows "d @ ''/'' @ y < e @ x"
proof -
  have np: "\<not> prefix (d @ ''/'') e" using not_prefix_slash [OF assms(2), of d "[]"] by simp
  then have "d @ ''/'' < e" using assms(1) by (metis not_less_iff_gr_or_eq prefix_order.refl)
  from less_not_prefix [OF this np, of y x] show ?thesis by simp
qed


section \<open>Trees\<close>

text \<open>The content of a bucket directory.\<close>

datatype node =
    File
  | Dir "(string \<times> node) list"

definition dirent :: "string \<times> node \<Rightarrow> DirEntry" where
  "dirent e = \<lparr>de_Name = fst e, de_IsDir = (case snd e of File \<Rightarrow> False | Dir _ \<Rightarrow> True)\<rparr>"

lemma dirent_simps [simp]:
  "de_Name (dirent (n, nd)) = n" "de_IsDir (dirent (n, Dir cs))" "\<not> de_IsDir (dirent (n, File))"
  by (simp_all add: dirent_def)

abbreviation entries_size :: "(string \<times> node) list \<Rightarrow> nat" where
  "entries_size es \<equiv> size_list (size_prod (\<lambda>_. 0) size) es"

lemma entry_size: "(n, nd) \<in> set es \<Longrightarrow> size nd < entries_size es"
  by (induction es) auto

function wfNode :: "node \<Rightarrow> bool" where
  "wfNode File = True"
| "wfNode (Dir es) =
     (sorted_wrt (<) (map fst es) \<and> (\<forall>(n, nd) \<in> set es. okName n \<and> wfNode nd))"
  by pat_completeness auto
termination
  by (relation "measure size") (auto dest: entry_size)

text \<open>The keys below a directory: its files, and its directories with a slash at the end.\<close>

function treeKeys :: "string list \<Rightarrow> string \<Rightarrow> (string \<times> node) list \<Rightarrow> (string \<times> DirEntry) list" where
  "treeKeys skip dirPrefix [] = []"
| "treeKeys skip dirPrefix ((n, File) # es) =
     (if n \<in> set skip then treeKeys skip dirPrefix es else (dirPrefix @ n, dirent (n, File)) # treeKeys skip dirPrefix es)"
| "treeKeys skip dirPrefix ((n, Dir cs) # es) =
     (if n \<in> set skip then treeKeys skip dirPrefix es
      else (dirPrefix @ n @ ''/'', dirent (n, Dir cs)) # treeKeys skip (dirPrefix @ n @ ''/'') cs @ treeKeys skip dirPrefix es)"
  by pat_completeness auto
termination
  by (relation "measure (\<lambda>(_, _, es). entries_size es)") auto

fun nodeAt :: "node \<Rightarrow> string list \<Rightarrow> node option" where
  "nodeAt nd [] = Some nd"
| "nodeAt (Dir es) (c # cs) = (case map_of es c of None \<Rightarrow> None | Some nd \<Rightarrow> nodeAt nd cs)"
| "nodeAt File (c # cs) = None"

definition treeAt :: "node \<Rightarrow> string \<Rightarrow> node option" where
  "treeAt t path = nodeAt t (if path = ''.'' then [] else Split path (CHR ''/''))"

text \<open>
  A file system that serves a tree: \<open>fs.ReadDir\<close> lists a directory's entries in the order of
  their names and fails on everything else, \<open>fs.Stat\<close> describes a directory.
\<close>

definition serves :: "FS \<Rightarrow> node \<Rightarrow> bool" where
  "serves f t \<longleftrightarrow>
     (\<forall>path es. treeAt t path = Some (Dir es) \<longrightarrow>
        fs_ReadDir f path = Inr (map dirent es)
        \<and> fs_Stat f path = Inr \<lparr>de_Name = path_Base path, de_IsDir = True\<rparr>)
     \<and> (\<forall>path. (\<forall>es. treeAt t path \<noteq> Some (Dir es)) \<longrightarrow> \<not> is_ok (fs_ReadDir f path))"

definition dirPrefix :: "string \<Rightarrow> string" where
  "dirPrefix path = (if path = ''.'' then [] else path @ ''/'')"

lemma makeFullObjectName_pre: "makeFullObjectName path n = dirPrefix path @ n"
  by (simp add: makeFullObjectName_def dirPrefix_def)

lemma pre_full: "okName n \<Longrightarrow> dirPrefix (dirPrefix path @ n) = dirPrefix path @ n @ ''/''"
  by (auto simp: dirPrefix_def okName_def append_eq_Cons_conv)

lemma split_go_plain: "d \<notin> set s \<Longrightarrow> split_go d acc s = [rev acc @ s]"
  by (induction s arbitrary: acc) auto

lemma split_go_at_sep: "split_go d acc (s @ d # t) = split_go d acc s @ split_go d [] t"
  by (induction s arbitrary: acc) auto

lemma nodeAt_snoc: "nodeAt t (cs @ [c]) = Option.bind (nodeAt t cs) (\<lambda>nd. nodeAt nd [c])"
  by (induction t cs rule: nodeAt.induct) (auto split: option.splits)

lemma wf_map_of:
  "sorted_wrt (<) (map fst es) \<Longrightarrow> (n, nd) \<in> set es \<Longrightarrow> map_of (es :: (string \<times> node) list) n = Some nd"
  by (simp add: strict_sorted_iff)

lemma treeAt_child:
  assumes "treeAt t path = Some (Dir es)" "wfNode (Dir es)" "(n, nd) \<in> set es"
  shows "treeAt t (dirPrefix path @ n) = Some nd"
proof -
  have n: "okName n" and m: "map_of es n = Some nd" using assms by (auto intro: wf_map_of)
  have s: "Split n (CHR ''/'') = [n]" using n by (simp add: Split_def split_go_plain okName_def)
  show ?thesis
  proof (cases "path = ''.''")
    case True
    with assms(1) n m s show ?thesis by (simp add: treeAt_def dirPrefix_def okName_def)
  next
    case False
    have "Split (path @ ''/'' @ n) (CHR ''/'') = Split path (CHR ''/'') @ [n]"
      using s split_go_at_sep [of "CHR ''/''" "[]" path n] by (simp add: Split_def)
    moreover have "path @ ''/'' @ n \<noteq> ''.''" using n by (auto simp: okName_def append_eq_Cons_conv)
    ultimately show ?thesis using assms(1) False m by (simp add: treeAt_def dirPrefix_def nodeAt_snoc)
  qed
qed

definition okEntries :: "(string \<times> node) list \<Rightarrow> bool" where
  "okEntries es \<longleftrightarrow> sorted_wrt (<) (map fst es) \<and> (\<forall>(n, nd) \<in> set es. okName n \<and> wfNode nd)"

lemma wfNode_Dir: "wfNode (Dir es) \<longleftrightarrow> okEntries es"
  by (simp add: okEntries_def)

declare wfNode.simps(2) [simp del]

lemma okEntries_Cons [simp]:
  "okEntries ((n, nd) # es) \<longleftrightarrow> okName n \<and> wfNode nd \<and> okEntries es \<and> (\<forall>e \<in> set es. n < fst e)"
  by (auto simp: okEntries_def)

lemma okEntries_Nil [simp]: "okEntries []"
  by (simp add: okEntries_def)

lemma okEntries_append: "okEntries (xs @ ys) \<Longrightarrow> okEntries xs \<and> okEntries ys"
  by (auto simp: okEntries_def sorted_wrt_append)

text \<open>Every key starts with the name of an entry.\<close>

definition keyOf :: "string \<Rightarrow> string \<times> node \<Rightarrow> string \<Rightarrow> bool" where
  "keyOf p e k \<longleftrightarrow> (case snd e of File \<Rightarrow> k = p @ fst e | Dir _ \<Rightarrow> prefix (p @ fst e @ ''/'') k)"

lemma keyOf_prefix: "keyOf p e k \<Longrightarrow> prefix p k"
  by (auto simp: keyOf_def prefix_def split: node.splits)

lemma keys_name: "x \<in> set (treeKeys skip p es) \<Longrightarrow> \<exists>e \<in> set es. fst e \<notin> set skip \<and> keyOf p e (fst x)"
proof (induction skip p es rule: treeKeys.induct)
  case (1 skip p)
  then show ?case by simp
next
  case (2 skip p n es)
  show ?case
  proof (cases "x \<in> set (treeKeys skip p es)")
    case True
    with 2 show ?thesis by (cases "n \<in> set skip") auto
  next
    case False
    with 2 have "n \<notin> set skip" "fst x = p @ n" by (auto split: if_splits)
    then show ?thesis by (simp add: keyOf_def)
  qed
next
  case (3 skip p n cs es)
  show ?case
  proof (cases "x \<in> set (treeKeys skip p es)")
    case True
    with 3 show ?thesis by (cases "n \<in> set skip") auto
  next
    case False
    with 3 have n: "n \<notin> set skip" and
      x: "fst x = p @ n @ ''/'' \<or> x \<in> set (treeKeys skip (p @ n @ ''/'') cs)" by (auto split: if_splits)
    from x have "prefix (p @ n @ ''/'') (fst x)"
    proof
      assume "x \<in> set (treeKeys skip (p @ n @ ''/'') cs)"
      from "3.IH"(2) [OF n this] show ?thesis using keyOf_prefix by blast
    qed simp
    with n show ?thesis by (simp add: keyOf_def)
  qed
qed

lemma keys_prefix: "x \<in> set (treeKeys skip p es) \<Longrightarrow> prefix p (fst x)"
  using keys_name keyOf_prefix by blast

section \<open>The order of the walk\<close>

lemma keyOf_unique:
  assumes "okName n" "okName m" "keyOf p (n, nd) k" "keyOf p (m, nd') k"
  shows "n = m"
proof -
  have sl: "CHR ''/'' \<notin> set n" "CHR ''/'' \<notin> set m" using assms by (simp_all add: okName_def)
  show ?thesis
  proof (cases nd; cases nd')
    fix cs cs' assume "nd = Dir cs" "nd' = Dir cs'"
    with assms obtain x y where "n @ ''/'' @ x = m @ ''/'' @ y" by (auto simp: keyOf_def prefix_def)
    with prefix_slash [OF sl, of x y] show ?thesis by simp
  qed (use assms sl in \<open>auto simp: keyOf_def prefix_def\<close>)
qed

lemma okEntriesD: "okEntries es \<Longrightarrow> e \<in> set es \<Longrightarrow> okName (fst e) \<and> wfNode (snd e)"
  by (auto simp: okEntries_def)

lemma keys_other:
  assumes "okEntries ((n, nd) # es)" "x \<in> set (treeKeys skip p es)"
  shows "\<not> keyOf p (n, nd) (fst x)"
proof
  assume k: "keyOf p (n, nd) (fst x)"
  obtain e where e: "e \<in> set es" "keyOf p e (fst x)" using keys_name [OF assms(2)] by blast
  have "n = fst e" using keyOf_unique [of n "fst e" p nd "fst x" "snd e"] assms(1) e k okEntriesD [OF _ e(1)]
    by simp
  with assms(1) e show False by auto
qed

lemma distinct_keys: "okEntries es \<Longrightarrow> distinct (map fst (treeKeys skip p es))"
proof (induction skip p es rule: treeKeys.induct)
  case (2 skip p n es)
  have "fst x \<noteq> p @ n" if "x \<in> set (treeKeys skip p es)" for x
    using keys_other [OF "2.prems" that] by (simp add: keyOf_def)
  then have "p @ n \<notin> fst ` set (treeKeys skip p es)" by (metis imageE)
  with 2 show ?case by (cases "n \<in> set skip") simp_all
next
  case (3 skip p n cs es)
  show ?case
  proof (cases "n \<in> set skip")
    case False
    have a: "\<not> prefix (p @ n @ ''/'') (fst x)" if "x \<in> set (treeKeys skip p es)" for x
      using keys_other [OF "3.prems" that] by (simp add: keyOf_def)
    have b: "prefix (p @ n @ ''/'') (fst x)" "fst x \<noteq> p @ n @ ''/''"
      if x: "x \<in> set (treeKeys skip (p @ n @ ''/'') cs)" for x
    proof -
      show "prefix (p @ n @ ''/'') (fst x)" using keys_prefix [OF x] .
      obtain e where e: "e \<in> set cs" "keyOf (p @ n @ ''/'') e (fst x)" using keys_name [OF x] by blast
      have "okEntries cs" using "3.prems" by (simp add: wfNode_Dir)
      with e okEntriesD [of cs e] show "fst x \<noteq> p @ n @ ''/''"
        by (auto simp: keyOf_def okName_def prefix_def split: node.splits)
    qed
    have c: "distinct (map fst (treeKeys skip (p @ n @ ''/'') cs))" "distinct (map fst (treeKeys skip p es))"
      using "3.prems" "3.IH"(2) [OF False] "3.IH"(3) [OF False] by (simp_all add: wfNode_Dir)
    have "fst ` set (treeKeys skip (p @ n @ ''/'') cs) \<inter> fst ` set (treeKeys skip p es) = {}"
    proof (rule equals0I)
      fix k assume "k \<in> fst ` set (treeKeys skip (p @ n @ ''/'') cs) \<inter> fst ` set (treeKeys skip p es)"
      then obtain x y where "x \<in> set (treeKeys skip (p @ n @ ''/'') cs)" "y \<in> set (treeKeys skip p es)" "fst x = fst y"
        unfolding Int_iff image_iff by metis
      with a [of y] b(1) [of x] show False by simp
    qed
    moreover have "p @ n @ ''/'' \<notin> fst ` set (treeKeys skip (p @ n @ ''/'') cs)" using b(2) by (metis imageE)
    moreover have "p @ n @ ''/'' \<notin> fst ` set (treeKeys skip p es)" using a by (metis imageE prefix_order.refl)
    ultimately show ?thesis using c False by simp
  qed (use 3 in simp)
qed simp

definition walkOrder :: "string list \<Rightarrow> string \<Rightarrow> (string \<times> node) list \<Rightarrow> (string \<times> DirEntry) list" where
  "walkOrder skip p es = sort_key fst (treeKeys skip p es)"

lemma sort_key_append_less:
  assumes "mset zs = mset xs + mset ys" "distinct (map fst zs)"
    and "\<And>x y. x \<in> set xs \<Longrightarrow> y \<in> set ys \<Longrightarrow> fst x < fst y"
  shows "sort_key fst zs = sort_key fst xs @ sort_key fst (ys :: (string \<times> 'b) list)"
proof (rule sort_key_inj_key_eq)
  show "mset zs = mset (sort_key fst xs @ sort_key fst ys)" using assms(1) by simp
  show "inj_on fst (set zs)" using assms(2) by (simp add: distinct_map)
  show "sorted (map fst (sort_key fst xs @ sort_key fst ys))"
    using assms(3) by (force simp: sorted_append)
qed

lemma keys_append: "treeKeys skip p (xs @ ys) = treeKeys skip p xs @ treeKeys skip p ys"
  by (induction skip p xs rule: treeKeys.induct) auto

lemma mset_keys_cong: "mset xs = mset ys \<Longrightarrow> mset (treeKeys skip p xs) = mset (treeKeys skip p ys)"
proof -
  assume m: "mset xs = mset ys"
  have k: "mset (treeKeys skip p es) = sum_mset (image_mset (\<lambda>e. mset (treeKeys skip p [e])) (mset es))" for es
  proof (induction es)
    case (Cons e es)
    then show ?case using keys_append [of skip p "[e]" es] by simp
  qed simp
  show ?thesis using m by (simp add: k [of xs] k [of ys])
qed

text \<open>All keys of the entries \<open>xs\<close> come allBefore all treeKeys of \<open>ys\<close>.\<close>

definition allBefore :: "(string \<times> node) list \<Rightarrow> (string \<times> node) list \<Rightarrow> bool" where
  "allBefore xs ys \<longleftrightarrow>
     (\<forall>a \<in> set xs. \<forall>b \<in> set ys. \<forall>p k k'. keyOf p a k \<longrightarrow> keyOf p b k' \<longrightarrow> k < k')"

lemma before_Cons:
  "allBefore (x # xs) ys \<longleftrightarrow> allBefore [x] ys \<and> allBefore xs ys"
  "allBefore xs (y # ys) \<longleftrightarrow> allBefore xs [y] \<and> allBefore xs ys"
  by (auto simp: allBefore_def)

lemma before_Nil [simp]: "allBefore [] ys" "allBefore xs []"
  by (auto simp: allBefore_def)

lemma before_all: "(\<And>x. x \<in> set xs \<Longrightarrow> allBefore [x] ys) \<Longrightarrow> allBefore xs ys"
  "(\<And>y. y \<in> set ys \<Longrightarrow> allBefore xs [y]) \<Longrightarrow> allBefore xs ys"
  by (auto simp: allBefore_def)

lemma beforeD: "allBefore xs ys \<Longrightarrow> x \<in> set xs \<Longrightarrow> y \<in> set ys \<Longrightarrow> allBefore [x] [y]"
  by (auto simp: allBefore_def)

lemma walkOrder_split:
  assumes "okEntries zs" "mset zs' = mset (xs @ ys)" "mset zs' = mset zs" "allBefore xs ys"
  shows "walkOrder skip p zs' = walkOrder skip p xs @ walkOrder skip p ys"
  unfolding walkOrder_def
proof (rule sort_key_append_less)
  have "mset (treeKeys skip p zs') = mset (treeKeys skip p (xs @ ys))" by (rule mset_keys_cong [OF assms(2)])
  then show "mset (treeKeys skip p zs') = mset (treeKeys skip p xs) + mset (treeKeys skip p ys)" by (simp add: keys_append)
  have "mset (map fst (treeKeys skip p zs')) = mset (map fst (treeKeys skip p zs))"
    using mset_keys_cong [OF assms(3), of skip p] by (simp add: mset_map)
  with distinct_keys [OF assms(1)] show "distinct (map fst (treeKeys skip p zs'))"
    by (metis mset_eq_imp_distinct_iff)
  fix x y assume "x \<in> set (treeKeys skip p xs)" "y \<in> set (treeKeys skip p ys)"
  then show "fst x < fst y" using assms(4) keys_name [of x skip p xs] keys_name [of y skip p ys]
    by (meson allBefore_def)
qed

lemma before_File: "n < fst e \<Longrightarrow> allBefore [(n, File)] [e]"
proof -
  assume n: "n < fst e"
  have "n < fst e @ x" for x using n prefix_le [of "fst e" "fst e @ x"] by simp
  with n show ?thesis by (auto simp: allBefore_def keyOf_def prefix_def split: node.splits)
qed

lemma before_below:
  assumes "fst e < n @ ''/''" "n < fst e" "okName (fst e)"
  shows "allBefore [e] [(n, Dir cs)]"
proof -
  have sl: "CHR ''/'' \<notin> set (fst e)" using assms(3) by (simp add: okName_def)
  have l: "fst e @ x < n @ ''/'' @ y" for x y by (rule less_slash_keeps [OF assms(1,2) sl])
  have "p @ fst e < p @ n @ ''/'' @ y" "p @ fst e @ ''/'' @ x < p @ n @ ''/'' @ y" for p x y
    using l [of "[]" y] l [of "''/'' @ x" y] by simp_all
  then show ?thesis by (cases "snd e") (auto simp: allBefore_def keyOf_def prefix_def)
qed

lemma before_above:
  assumes "\<not> fst e < n @ ''/''" "okName (fst e)"
  shows "allBefore [(n, Dir cs)] [e]"
proof -
  have sl: "CHR ''/'' \<notin> set (fst e)" using assms(2) by (simp add: okName_def)
  have l: "n @ ''/'' @ y < fst e @ x" for x y by (rule above_slash_keeps [OF assms(1) sl])
  have "p @ n @ ''/'' @ y < p @ fst e" "p @ n @ ''/'' @ y < p @ fst e @ ''/'' @ x" for p x y
    using l [of y "[]"] l [of y "''/'' @ x"] by simp_all
  then show ?thesis by (cases "snd e") (auto simp: allBefore_def keyOf_def prefix_def)
qed

lemma before_trans: "allBefore [a] [(n, Dir cs)] \<Longrightarrow> allBefore [(n, Dir cs)] [b] \<Longrightarrow> allBefore [a] [b]"
  unfolding allBefore_def
proof (intro ballI allI impI)
  fix a' b' p k k'
  assume a: "\<forall>a\<in>set [a]. \<forall>b\<in>set [(n, Dir cs)]. \<forall>p k k'. keyOf p a k \<longrightarrow> keyOf p b k' \<longrightarrow> k < k'"
    "\<forall>a\<in>set [(n, Dir cs)]. \<forall>b\<in>set [b]. \<forall>p k k'. keyOf p a k \<longrightarrow> keyOf p b k' \<longrightarrow> k < k'"
    "a' \<in> set [a]" "b' \<in> set [b]" "keyOf p a' k" "keyOf p b' k'"
  have d: "keyOf p (n, Dir cs) (p @ n @ ''/'')" by (simp add: keyOf_def)
  from a d have "k < p @ n @ ''/''" "p @ n @ ''/'' < k'" by auto
  then show "k < k'" by (rule order.strict_trans)
qed

text \<open>The entries that precede a directory although their names follow its name, and the others.\<close>

abbreviation lows :: "string \<Rightarrow> (string \<times> node) list \<Rightarrow> (string \<times> node) list" where
  "lows n es \<equiv> takeWhile (\<lambda>e. fst e < n @ ''/'') es"

abbreviation highs :: "string \<Rightarrow> (string \<times> node) list \<Rightarrow> (string \<times> node) list" where
  "highs n es \<equiv> dropWhile (\<lambda>e. fst e < n @ ''/'') es"

lemma highs_above: "okEntries es \<Longrightarrow> e \<in> set (highs n es) \<Longrightarrow> \<not> fst e < n @ ''/''"
proof (induction es)
  case (Cons a es)
  show ?case
  proof (cases "fst a < n @ ''/''")
    case False
    with Cons.prems have "fst a \<le> fst e" by (cases a) auto
    with False show ?thesis by (meson order.strict_trans1)
  qed (use Cons in \<open>cases a; auto\<close>)
qed simp

lemma before_dir_highs:
  "okEntries es \<Longrightarrow> allBefore [(n, Dir cs)] (highs n es)"
  by (rule before_all(2), rule before_above) (auto dest: highs_above okEntriesD set_dropWhileD)

lemma lows_mem:
  assumes "okEntries ((d, nd) # es)" "e \<in> set (lows n es)"
  shows "e \<in> set es" "fst e < n @ ''/''" "d < fst e" "okName (fst e)"
proof -
  show e: "e \<in> set es" "fst e < n @ ''/''" using set_takeWhileD [OF assms(2)] by simp_all
  show "d < fst e" "okName (fst e)" using assms(1) okEntriesD [of es e] e(1) by simp_all
qed

lemma before_lows_dir:
  assumes "okEntries ((n, Dir cs) # es)"
  shows "allBefore (lows n es) [(n, Dir cs)]"
  by (rule before_all(1), rule before_below) (fact lows_mem [OF assms])+

lemma okEntries_lows:
  assumes "okEntries ((d, nd) # es)"
  shows "okEntries ((d, nd) # lows n es)"
  using assms okEntries_append [of "lows n es" "highs n es"] lows_mem(3) [OF assms] by simp

lemma before_lows_highs:
  assumes "okEntries ((n, Dir cs) # es)"
  shows "allBefore ((n, Dir cs) # lows n es) (highs n es)"
proof -
  have es: "okEntries es" using assms by simp
  have "allBefore [a] [b]" if "a \<in> set (lows n es)" "b \<in> set (highs n es)" for a b
    using beforeD [OF before_lows_dir [OF assms] that(1)] beforeD [OF before_dir_highs [OF es] _ that(2)]
    by (auto intro: before_trans)
  then have "allBefore (lows n es) (highs n es)" by (rule before_all(1) [OF before_all(2)])
  with before_dir_highs [OF es] show ?thesis by (rule before_Cons(1) [THEN iffD2, OF conjI])
qed

lemma takeWhile_weaken:
  "(\<And>x. P x \<Longrightarrow> Q x) \<Longrightarrow> takeWhile Q xs = takeWhile P xs @ takeWhile Q (dropWhile P xs)"
  by (induction xs) auto

lemma dropWhile_weaken:
  "(\<And>x. P x \<Longrightarrow> Q x) \<Longrightarrow> dropWhile Q xs = dropWhile Q (dropWhile P xs)"
  by (induction xs) auto

lemma okEntries_drop: "okEntries es \<Longrightarrow> okEntries (highs n es)"
  using okEntries_append [of "lows n es" "highs n es"] by simp

lemma okEntries_take: "okEntries es \<Longrightarrow> okEntries (lows n es)"
  using okEntries_append [of "lows n es" "highs n es"] by simp

lemma below_slash_trans:
  assumes "e < d @ ''/''" "d < e" "okName e" "x < e @ ''/''"
  shows "x < d @ ''/''"
proof -
  have "e @ ''/'' < d @ ''/''" using less_slash_keeps [of e d "''/''" "[]"] assms by (simp add: okName_def)
  with assms(4) show ?thesis by (rule order.strict_trans)
qed

text \<open>The sorted keys of a directory, in the order in which \<open>readDirEntries\<close> and \<open>processDir\<close> visit them.\<close>

lemma walkOrder_Nil [simp]: "walkOrder skip p [] = []"
  by (simp add: walkOrder_def)

lemma treeKeys_skip: "n \<in> set skip \<Longrightarrow> treeKeys skip p ((n, nd) # es) = treeKeys skip p es"
  by (cases nd) simp_all

lemma walkOrder_skip [simp]: "n \<in> set skip \<Longrightarrow> walkOrder skip p ((n, nd) # es) = walkOrder skip p es"
  by (cases nd) (simp_all add: walkOrder_def)

lemma walkOrder_File:
  assumes "okEntries ((n, File) # es)" "n \<notin> set skip"
  shows "walkOrder skip p ((n, File) # es) = (p @ n, dirent (n, File)) # walkOrder skip p es"
proof -
  have "allBefore [(n, File)] es" by (rule before_all(2), rule before_File) (use assms(1) in simp)
  then have "walkOrder skip p ((n, File) # es) = walkOrder skip p [(n, File)] @ walkOrder skip p es"
    by (intro walkOrder_split [OF assms(1)]) simp_all
  moreover have "walkOrder skip p [(n, File)] = [(p @ n, dirent (n, File))]" using assms(2) by (simp add: walkOrder_def)
  ultimately show ?thesis by simp
qed

lemma walkOrder_Dir:
  assumes "okEntries ((n, Dir cs) # es)"
  shows "walkOrder skip p ((n, Dir cs) # es) = walkOrder skip p ((n, Dir cs) # lows n es) @ walkOrder skip p (highs n es)"
  by (rule walkOrder_split [OF assms _ refl before_lows_highs [OF assms]]) simp

lemma walkOrder_self:
  assumes "wfNode (Dir cs)" "n \<notin> set skip"
  shows "walkOrder skip p [(n, Dir cs)] = (p @ n @ ''/'', dirent (n, Dir cs)) # walkOrder skip (p @ n @ ''/'') cs"
proof -
  have "fst x \<ge> p @ n @ ''/''" if "x \<in> set (treeKeys skip (p @ n @ ''/'') cs)" for x
    using prefix_le [OF keys_prefix [OF that]] .
  then have "insort_key fst (p @ n @ ''/'', dirent (n, Dir cs)) (walkOrder skip (p @ n @ ''/'') cs)
      = (p @ n @ ''/'', dirent (n, Dir cs)) # walkOrder skip (p @ n @ ''/'') cs"
    by (intro insort_is_Cons) (auto simp: walkOrder_def)
  then show ?thesis using assms(2) by (simp add: walkOrder_def)
qed

lemma walkOrder_low_File:
  assumes "okEntries ((d, Dir cs) # (n, File) # es)" "n < d @ ''/''" "n \<notin> set skip"
  shows "walkOrder skip p ((d, Dir cs) # lows d ((n, File) # es)) =
    (p @ n, dirent (n, File)) # walkOrder skip p ((d, Dir cs) # lows d es)"
proof -
  let ?zs = "(d, Dir cs) # (n, File) # lows d es"
  have f: "okEntries ((n, File) # es)" and dn: "d < n" "okName n" using assms(1) by simp_all
  have ok: "okEntries ?zs" using okEntries_lows [OF assms(1), of d] assms(2) by simp
  have "allBefore [(n, File)] [(d, Dir cs)]" using assms(2) dn by (intro before_below) simp_all
  moreover have "allBefore [(n, File)] (lows d es)"
    by (rule before_all(2), rule before_File) (rule lows_mem(3) [OF f])
  ultimately have b: "allBefore [(n, File)] ((d, Dir cs) # lows d es)"
    by (rule before_Cons(2) [THEN iffD2, OF conjI])
  have "walkOrder skip p ?zs = walkOrder skip p [(n, File)] @ walkOrder skip p ((d, Dir cs) # lows d es)"
    by (rule walkOrder_split [OF ok _ refl b]) simp
  moreover have "walkOrder skip p [(n, File)] = [(p @ n, dirent (n, File))]" using assms(3) by (simp add: walkOrder_def)
  ultimately show ?thesis using assms(2) by simp
qed

lemma walkOrder_low_Dir:
  assumes "okEntries ((d, Dir cs) # (n, Dir cs') # es)" "n < d @ ''/''"
  shows "walkOrder skip p ((d, Dir cs) # lows d ((n, Dir cs') # es)) =
    walkOrder skip p ((n, Dir cs') # lows n es) @ walkOrder skip p ((d, Dir cs) # lows d (highs n es))"
proof -
  let ?e = "(n, Dir cs')" and ?d = "(d, Dir cs)"
  have n: "d < n" "okName n" and e: "okEntries (?e # es)" using assms(1) by auto
  have tr: "x < d @ ''/''" if "x < n @ ''/''" for x
    by (rule below_slash_trans [OF assms(2) n that])
  have split: "lows d es = lows n es @ lows d (highs n es)" by (rule takeWhile_weaken) (rule tr)
  have ok: "okEntries (?d # ?e # lows d es)" using okEntries_lows [OF assms(1), of d] assms(2) by simp
  have "allBefore [?e] [?d]" using assms(2) n by (intro before_below) simp_all
  moreover have "allBefore (lows n es) [?d]"
  proof (rule before_all(1), rule before_below)
    fix x assume x: "x \<in> set (lows n es)"
    show "fst x < d @ ''/''" "d < fst x" "okName (fst x)"
      using tr lows_mem(2-4) [OF e x] n(1) by simp_all
  qed
  ultimately have bd: "allBefore (?e # lows n es) [?d]" by (rule before_Cons(1) [THEN iffD2, OF conjI])
  have bh: "allBefore (?e # lows n es) (lows d (highs n es))"
  proof (rule before_all(1) [OF before_all(2)])
    fix x y assume "x \<in> set (?e # lows n es)" "y \<in> set (lows d (highs n es))"
    with beforeD [OF before_lows_highs [OF e]] show "allBefore [x] [y]" by (meson set_takeWhileD)
  qed
  have b: "allBefore (?e # lows n es) (?d # lows d (highs n es))"
    by (rule before_Cons(2) [THEN iffD2, OF conjI, OF bd bh])
  have "walkOrder skip p (?d # ?e # lows d es) = walkOrder skip p (?e # lows n es) @ walkOrder skip p (?d # lows d (highs n es))"
    by (rule walkOrder_split [OF ok _ refl b]) (simp add: split)
  with assms(2) show ?thesis by simp
qed

end
