(* ===== verification/Object_Listing.thy ===== *)
theory Object_Listing
  imports Bucket_Tree
begin

text \<open>
  What the walk of \<open>Object_Walk\<close> returns: the specification of a listing as a list of entries
  computed from the sorted keys of the bucket's tree, the relation between a state of the walk and a
  listing, and the proof that every call of the recursion returns and keeps that relation.
\<close>

section \<open>The listing\<close>

text \<open>
  An entry of a listing is a common prefix or an object with its key. A key that does not follow
  the marker, does not match the prefix, belongs to a common prefix up to the marker, or is not an
  object contributes nothing.
\<close>

type_synonym 'o item = "string + string \<times> 'o"

definition itemName :: "'o item \<Rightarrow> string" where
  "itemName i = (case i of Inl cp \<Rightarrow> cp | Inr (k, _) \<Rightarrow> k)"

definition objectItem :: "'o walkParams \<Rightarrow> string \<Rightarrow> DirEntry \<Rightarrow> 'o item option" where
  "objectItem w k e = (case w_getObj w k e of Inl _ \<Rightarrow> None | Inr obj \<Rightarrow> Some (Inr (k, obj)))"

definition groupOf :: "'o walkParams \<Rightarrow> string \<Rightarrow> string option" where
  "groupOf w k =
     (if w_delimiter w = [] then None
      else map_option (\<lambda>(b, _). w_prefix w @ b @ w_delimiter w) (Cut (TrimPrefix k (w_prefix w)) (w_delimiter w)))"

definition item :: "'o walkParams \<Rightarrow> string \<times> DirEntry \<Rightarrow> 'o item option" where
  "item w x =
     (if \<not> fst x > w_marker w \<or> \<not> prefix (w_prefix w) (fst x) then None
      else case groupOf w (fst x) of
             Some cp \<Rightarrow> if cp > w_marker w then Some (Inl cp) else None
           | None \<Rightarrow> objectItem w (fst x) (snd x))"

text \<open>A common prefix is listed once.\<close>

definition push :: "'o walkParams \<Rightarrow> 'o item list \<Rightarrow> string \<times> DirEntry \<Rightarrow> 'o item list" where
  "push w acc x =
     (case item w x of
        None \<Rightarrow> acc
      | Some (Inl cp) \<Rightarrow> if Inl cp \<in> set acc then acc else acc @ [Inl cp]
      | Some (Inr ko) \<Rightarrow> acc @ [Inr ko])"

definition pushAll :: "'o walkParams \<Rightarrow> 'o item list \<Rightarrow> (string \<times> DirEntry) list \<Rightarrow> 'o item list" where
  "pushAll w acc xs = foldl (push w) acc xs"

definition listing :: "'o walkParams \<Rightarrow> (string \<times> node) list \<Rightarrow> 'o item list" where
  "listing w es = pushAll w [] (walkOrder (w_skipdirs w) [] es)"

lemma pushAll_simps [simp]:
  "pushAll w acc [] = acc" "pushAll w acc (x # xs) = pushAll w (push w acc x) xs"
  "pushAll w acc (xs @ ys) = pushAll w (pushAll w acc xs) ys"
  by (simp_all add: pushAll_def)

lemma push_extends: "\<exists>zs. push w acc x = acc @ zs"
  by (auto simp: push_def split: option.splits sum.splits)

lemma pushAll_extends: "\<exists>zs. pushAll w acc xs = acc @ zs"
proof (induction xs arbitrary: acc)
  case (Cons x xs)
  then show ?case using push_extends [of w acc x] by (metis append_assoc pushAll_simps(2))
qed simp

lemma pushAll_ineffective:
  "(\<And>x. x \<in> set xs \<Longrightarrow> push w acc x = acc) \<Longrightarrow> pushAll w acc xs = acc"
  by (induction xs) simp_all

section \<open>The state of the walk and the listing\<close>

text \<open>
  The state holds the first \<open>max\<close> entries of the list \<open>acc\<close> of all entries met so far. Beyond them it
  only says that there may be more.
\<close>

definition Rep :: "'o walkParams \<Rightarrow> 'o item list \<Rightarrow> 'o walkState \<Rightarrow> bool" where
  "Rep w acc st \<longleftrightarrow>
     cpmap st = zip (lefts (take (nat (w_max w)) acc)) [0..<length (lefts (take (nat (w_max w)) acc))]
     \<and> w_objects st = map snd (rights (take (nat (w_max w)) acc))
     \<and> pastMax st = (nat (w_max w) \<le> length acc)
     \<and> (nat (w_max w) \<le> length acc \<longrightarrow> newMarker st = itemName (acc ! (nat (w_max w) - 1)))
     \<and> (nat (w_max w) < length acc \<longrightarrow> w_truncated st)
     \<and> (w_truncated st \<longrightarrow> nat (w_max w) \<le> length acc)"

lemma Rep_truncated:
  assumes "Rep w acc st" "w_truncated st" "0 < w_max w"
  shows "Rep w (pushAll w acc xs) st"
proof -
  obtain zs where zs: "pushAll w acc xs = acc @ zs" using pushAll_extends by blast
  have l: "nat (w_max w) \<le> length acc" "0 < nat (w_max w)" using assms by (simp_all add: Rep_def)
  then have "nat (w_max w) - 1 < length acc" by linarith
  with l have "take (nat (w_max w)) (acc @ zs) = take (nat (w_max w)) acc"
    "(acc @ zs) ! (nat (w_max w) - 1) = acc ! (nat (w_max w) - 1)"
    by (simp_all add: nth_append)
  with assms(1,2) l show ?thesis by (simp add: Rep_def zs)
qed

lemma Rep_stop: "Rep w acc st \<Longrightarrow> pastMax st \<Longrightarrow> Rep w acc (st\<lparr>w_truncated := True\<rparr>)"
  by (simp add: Rep_def)

lemma Rep_polled [simp]: "Rep w acc (polled st) = Rep w acc st"
  "walkErr (polled st) = walkErr st" "pastMax (polled st) = pastMax st" "w_truncated (polled st) = w_truncated st"
  by (simp_all add: Rep_def polled_def)

lemma Rep_initial: "0 < w_max w \<Longrightarrow> Rep w [] initialState"
  by (simp add: Rep_def initialState_def)

lemma Rep_room:
  assumes "Rep w acc st" "\<not> pastMax st"
  shows "take (nat (w_max w)) acc = acc" "length acc < nat (w_max w)"
  using assms by (simp_all add: Rep_def)

lemma addObject_Rep:
  assumes r: "Rep w acc st" and p: "\<not> pastMax st"
  shows "Rep w (acc @ [Inr (k, obj)]) (addObject w obj k st)"
proof -
  note t = Rep_room [OF r p]
  have l: "length (lefts acc) + length (rights acc) = length acc" by (rule length_lefts_rights)
  have c: "cpmap st = zip (lefts acc) [0..<length (lefts acc)]" "w_objects st = map snd (rights acc)"
    "w_truncated st = False" using r t p by (auto simp: Rep_def)
  have full: "int (length (w_objects st @ [obj])) + int (cpMap_Len (cpmap st)) \<ge> w_max w
      \<longleftrightarrow> nat (w_max w) \<le> length acc + 1"
    using l by (simp add: c cpMap_Len_def) linarith
  show ?thesis
  proof (cases "nat (w_max w) \<le> length acc + 1")
    case True
    then have n: "nat (w_max w) = length acc + 1" using t by simp
    then show ?thesis using c full True by (simp add: Rep_def addObject_def Let_def itemName_def)
  next
    case False
    then show ?thesis using c full p r by (simp add: Rep_def addObject_def Let_def)
  qed
qed

lemma map_of_zip_None:
  "length ys = length xs \<Longrightarrow> map_of (zip xs ys) k = None \<longleftrightarrow> k \<notin> set xs"
  by (simp add: map_of_zip_is_None)

lemma addCommonPrefix_Rep:
  assumes r: "Rep w acc st" and p: "\<not> pastMax st"
  shows "Rep w (if Inl cp \<in> set acc then acc else acc @ [Inl cp]) (addCommonPrefix w cp st)"
proof -
  note t = Rep_room [OF r p]
  have l: "length (lefts acc) + length (rights acc) = length acc" by (rule length_lefts_rights)
  have c: "cpmap st = zip (lefts acc) [0..<length (lefts acc)]" "w_objects st = map snd (rights acc)"
    "w_truncated st = False" using r t p by (auto simp: Rep_def)
  have new: "cpMap_Add (cpmap st) cp =
      (if Inl cp \<in> set acc then cpmap st else zip (lefts acc @ [cp]) [0..<length (lefts acc) + 1])"
    by (simp add: cpMap_Add_def c map_of_zip_None set_lefts)
  show ?thesis
  proof (cases "Inl cp \<in> set acc")
    case True
    have "\<not> int (length (w_objects st)) + int (cpMap_Len (cpmap st)) \<ge> w_max w"
      using l t by (simp add: c cpMap_Len_def)
    with True new r show ?thesis by (simp add: addCommonPrefix_def)
  next
    case False
    have full: "int (length (w_objects st)) + int (cpMap_Len (cpMap_Add (cpmap st) cp)) \<ge> w_max w
      \<longleftrightarrow> nat (w_max w) \<le> length acc + 1"
      using l False by (simp add: new cpMap_Len_def) (simp add: c, linarith)
    show ?thesis
    proof (cases "nat (w_max w) \<le> length acc + 1")
      case True
      then have n: "nat (w_max w) = length acc + 1" using t by simp
      then show ?thesis using c full True False new by (simp add: Rep_def addCommonPrefix_def Let_def itemName_def)
    next
      case small: False
      then show ?thesis using c full False p r new by (simp add: Rep_def addCommonPrefix_def Let_def)
    qed
  qed
qed

section \<open>One key\<close>

lemma check_eq:
  "checkAndMaybeAddCommonPrefix k w st =
     (if \<not> prefix (w_prefix w) k then (True, st)
      else case groupOf w k of
             Some cp \<Rightarrow> (True, if cp > w_marker w then addCommonPrefix w cp st else st)
           | None \<Rightarrow> (False, st))"
  by (auto simp: checkAndMaybeAddCommonPrefix_def groupOf_def Let_def split: option.splits)

lemma addCommonPrefix_walkErr [simp]: "walkErr (addCommonPrefix w cp st) = walkErr st"
  by (simp add: addCommonPrefix_def Let_def)

lemma addObject_walkErr [simp]: "walkErr (addObject w obj k st) = walkErr st"
  by (simp add: addObject_def Let_def)

text \<open>The common part: the key \<open>k\<close> follows the marker and is offered to the two lists.\<close>

lemma check_Rep:
  assumes r: "Rep w acc st" and p: "\<not> pastMax st" and m: "k > w_marker w"
    and c: "checkAndMaybeAddCommonPrefix k w st = (b, st1)"
  shows "walkErr st1 = walkErr st"
    and "b \<Longrightarrow> Rep w (push w acc (k, e)) st1"
    and "\<not> b \<Longrightarrow> st1 = st \<and> item w (k, e) = objectItem w k e"
proof -
  show "walkErr st1 = walkErr st" using c by (auto simp: check_eq split: if_splits option.splits)
  show "Rep w (push w acc (k, e)) st1" if b
  proof (cases "prefix (w_prefix w) k")
    case False
    with c r show ?thesis by (simp add: check_eq push_def item_def)
  next
    case True
    with c \<open>b\<close> obtain cp where cp: "groupOf w k = Some cp"
      "st1 = (if cp > w_marker w then addCommonPrefix w cp st else st)"
      by (auto simp: check_eq split: option.splits)
    show ?thesis
    proof (cases "cp > w_marker w")
      case g: True
      then have "item w (k, e) = Some (Inl cp)" using True m cp(1) by (simp add: item_def)
      then show ?thesis using addCommonPrefix_Rep [OF r p, of cp] cp(2) g by (simp add: push_def)
    next
      case False
      then have "item w (k, e) = None" using True m cp(1) by (simp add: item_def)
      then show ?thesis using r cp(2) False by (simp add: push_def)
    qed
  qed
  show "st1 = st \<and> item w (k, e) = objectItem w k e" if "\<not> b"
    using c that m by (auto simp: check_eq item_def split: if_splits option.splits)
qed

lemma leafEntry_Rep:
  assumes r: "Rep w acc st" and p: "\<not> pastMax st" and ok: "walkErr (leafEntry path e w st) = None"
  shows "Rep w (push w acc (makeFullObjectName path (de_Name e), e)) (leafEntry path e w st)"
proof -
  let ?k = "makeFullObjectName path (de_Name e)"
  obtain b st1 where c: "checkAndMaybeAddCommonPrefix ?k w st = (b, st1)" by force
  show ?thesis
  proof (cases "?k > w_marker w")
    case m: True
    note ch = check_Rep(2,3) [OF r p m c, of e]
    show ?thesis
    proof (cases b)
      case True
      with ch(1) m c show ?thesis by (simp add: leafEntry_def)
    next
      case False
      with ch(2) have st: "st1 = st" "item w (?k, e) = objectItem w ?k e" by simp_all
      have leaf: "leafEntry path e w st = addContentEntry ?k e w st"
        using m c False st(1) by (simp add: leafEntry_def)
      show ?thesis
      proof (cases "w_getObj w ?k e")
        case (Inl err)
        then show ?thesis using leaf st ok r
          by (simp add: addContentEntry_def push_def objectItem_def split: if_splits)
      next
        case (Inr obj)
        then show ?thesis using leaf st addObject_Rep [OF r p, of ?k obj]
          by (simp add: addContentEntry_def push_def objectItem_def)
      qed
    qed
  next
    case False
    then show ?thesis using r by (simp add: leafEntry_def push_def item_def)
  qed
qed

lemma leafEntry_walkErr: "walkErr (leafEntry path e w st) = None \<Longrightarrow> walkErr st = None"
  by (auto simp: leafEntry_def check_eq addContentEntry_def Let_def split: if_splits option.splits sum.splits bool.splits prod.splits)

text \<open>A common prefix of a directory is the common prefix of everything below it.\<close>

lemma Cut_append: "Cut s sep = Some (a, b) \<Longrightarrow> \<exists>b'. Cut (s @ t) sep = Some (a, b')"
proof (induction s arbitrary: a)
  case Nil
  then have "sep = []" "a = []" by (simp_all split: if_splits)
  then show ?case by (cases t) simp_all
next
  case (Cons c s)
  show ?case
  proof (cases "prefix sep (c # s)")
    case True
    then have "prefix sep (c # s @ t)" by (metis append_Cons prefix_prefix)
    with True Cons.prems show ?thesis by simp
  next
    case False
    with Cons.prems obtain a' where a: "a = c # a'" "Cut s sep = Some (a', b)" by auto
    from Cons.IH [OF a(2)] obtain b' where b': "Cut (s @ t) sep = Some (a', b')" by blast
    have "\<not> prefix sep (c # s @ t)"
    proof
      assume p: "prefix sep (c # s @ t)"
      have "length sep \<le> length s" using Cut_Some [OF a(2)] by simp
      with p have "prefix sep (c # s)" by (metis append_Cons le_SucI length_Cons prefix_length_prefix prefixI)
      with False show False ..
    qed
    with b' a(1) show ?thesis by simp
  qed
qed

lemma groupOf_below:
  assumes "groupOf w k = Some cp" "prefix (w_prefix w) k" "prefix k k'"
  shows "groupOf w k' = Some cp"
proof -
  obtain s t where k: "k = w_prefix w @ s" "k' = w_prefix w @ s @ t" using assms(2,3) by (auto simp: prefix_def)
  then obtain a b where "Cut s (w_delimiter w) = Some (a, b)" "w_delimiter w \<noteq> []" "cp = w_prefix w @ a @ w_delimiter w"
    using assms(1) by (auto simp: groupOf_def split: if_splits)
  with Cut_append [of s "w_delimiter w" a b t] show ?thesis by (auto simp: groupOf_def k)
qed

section \<open>One directory\<close>

lemma push_None: "item w x = None \<Longrightarrow> push w acc x = acc"
  by (simp add: push_def)

lemma push_member: "item w x = Some (Inl cp) \<Longrightarrow> Inl cp \<in> set acc \<Longrightarrow> push w acc x = acc"
  by (simp add: push_def)

text \<open>When the directory's key is grouped or filtered, so is everything below it.\<close>

lemma check_below:
  assumes m: "k > w_marker w" and c: "checkAndMaybeAddCommonPrefix k w st = (True, st1)"
    and np: "\<not> prefix k (w_prefix w)" and below: "prefix k (fst x)"
  shows "push w (push w acc (k, e)) x = push w acc (k, e)"
proof (cases "prefix (w_prefix w) k")
  case False
  then have "\<not> prefix (w_prefix w) (fst x)" using np below prefix_same_cases by blast
  then show ?thesis by (intro push_None) (simp add: item_def)
next
  case True
  with c obtain cp where g: "groupOf w k = Some cp" by (auto simp: check_eq split: option.splits)
  have gx: "groupOf w (fst x) = Some cp" by (rule groupOf_below [OF g True below])
  have px: "prefix (w_prefix w) (fst x)" using True below by (rule prefix_order.trans)
  have mx: "w_marker w < fst x" using m prefix_le [OF below] by (rule order.strict_trans2)
  show ?thesis
  proof (cases "cp > w_marker w")
    case h: True
    have "item w (k, e) = Some (Inl cp)" using g True m h by (simp add: item_def)
    then have "Inl cp \<in> set (push w acc (k, e))" by (simp add: push_def)
    moreover have "item w x = Some (Inl cp)" using gx px mx h by (simp add: item_def)
    ultimately show ?thesis by (rule push_member [rotated])
  next
    case False
    then show ?thesis using gx by (intro push_None) (simp add: item_def)
  qed
qed

text \<open>The key of the prefix's own directory has no delimiter left to be grouped by.\<close>

lemma check_ancestor:
  assumes "checkAndMaybeAddCommonPrefix k w st = (True, st1)" "prefix k (w_prefix w)"
  shows "st1 = st"
proof (cases "prefix (w_prefix w) k")
  case True
  with assms(2) have k: "k = w_prefix w" by (rule prefix_order.antisym)
  have "groupOf w k = None" by (simp add: groupOf_def k TrimPrefix_def)
  with assms(1) True show ?thesis by (simp add: check_eq)
qed (use assms in \<open>simp add: check_eq\<close>)

lemma offerDir_walkErr: "offerDir k d w st = (b, st1) \<Longrightarrow> walkErr st1 = None \<Longrightarrow> walkErr st = None"
  by (auto simp: offerDir_def check_eq split: if_splits option.splits sum.splits bool.splits prod.splits)

lemma offerDir_Rep:
  assumes r: "Rep w acc st" and p: "\<not> pastMax st"
    and o: "offerDir k d w st = (b, st1)" and ok: "walkErr st1 = None"
  shows "Rep w (push w acc (k, d)) st1"
    and "\<not> b \<Longrightarrow> prefix k (fst x) \<Longrightarrow> push w (push w acc (k, d)) x = push w acc (k, d)"
proof -
  obtain b' st' where c: "checkAndMaybeAddCommonPrefix k w st = (b', st')" by force
  have "Rep w (push w acc (k, d)) st1 \<and>
    (\<not> b \<longrightarrow> prefix k (fst x) \<longrightarrow> push w (push w acc (k, d)) x = push w acc (k, d))"
  proof (cases "k > w_marker w")
    case m: True
    note ch = check_Rep(2,3) [OF r p m c, of d]
    show ?thesis
    proof (cases b')
      case True
      then have o': "b = (prefix k (w_prefix w) \<and> \<not> pastMax st')" "st1 = st'" using o m c by (auto simp: offerDir_def)
      have "\<not> prefix k (w_prefix w)" if "\<not> b"
        using check_ancestor [OF c [unfolded True [THEN eqTrueI]]] o'(1) that p by auto
      with check_below [OF m c [unfolded True [THEN eqTrueI]], of x] ch(1) [OF True] o'(2) show ?thesis by blast
    next
      case False
      with ch(2) have st: "st' = st" "item w (k, d) = objectItem w k d" by simp_all
      have o': "(b, st1) = (case w_getObj w k d of
          Inl err \<Rightarrow> if err = ErrSkipObj then (True, st)
            else (False, st\<lparr>walkErr := Some (Wrapped (''directory to object '' @ k) err)\<rparr>)
        | Inr dirobj \<Rightarrow> (True, addObject w dirobj k st))"
        using o m c False st(1) by (simp add: offerDir_def)
      show ?thesis
      proof (cases "w_getObj w k d")
        case (Inl err)
        with o' ok have "b" "st1 = st" by (simp_all split: if_splits)
        with Inl st r show ?thesis by (simp add: push_def objectItem_def)
      next
        case (Inr obj)
        with o' have "b" "st1 = addObject w obj k st" by simp_all
        with Inr st addObject_Rep [OF r p, of k obj] show ?thesis by (simp add: push_def objectItem_def)
      qed
    qed
  next
    case m: False
    then have o': "b = (prefix (w_marker w) k \<or> prefix k (w_marker w))" "st1 = st" using o by (auto simp: offerDir_def)
    have i: "item w (k, d) = None" using m by (simp add: item_def)
    have "push w acc x = acc" if "\<not> b" "prefix k (fst x)"
    proof -
      have np: "\<not> prefix k (w_marker w)" using that(1) o'(1) by simp
      have "k < w_marker w" using m np by (metis linorder_neqE prefix_order.refl)
      from less_below [OF this np that(2)] have "\<not> w_marker w < fst x" by simp
      then show ?thesis by (simp add: push_None item_def)
    qed
    with r o'(2) i show ?thesis by (simp add: push_None)
  qed
  then show "Rep w (push w acc (k, d)) st1"
    and "\<not> b \<Longrightarrow> prefix k (fst x) \<Longrightarrow> push w (push w acc (k, d)) x = push w acc (k, d)" by blast+
qed

section \<open>The recursion\<close>

text \<open>
  The calls of the recursion on entries of the tree. For each call: the call of the model, its
  entries, the keys it visits and the entries it leaves to its caller, and a size that decreases
  along the recursion.
\<close>

datatype treeCall =
    TReadDir string "(string \<times> node) list"
  | TEntries string "(string \<times> node) list"
  | TProcess string string "(string \<times> node) list" "(string \<times> node) list"
  | TSelf string string "(string \<times> node) list" "(string \<times> node) list"

fun callOf :: "treeCall \<Rightarrow> walkCall" where
  "callOf (TReadDir path es) = ReadDir path"
| "callOf (TEntries path es) = ReadDirEntries path (map dirent es)"
| "callOf (TProcess path n cs es) = ProcessDir path (dirent (n, Dir cs)) (map dirent es)"
| "callOf (TSelf path n cs es) = ProcessDirSelf path (dirent (n, Dir cs)) (map dirent es)"

fun entriesOf :: "treeCall \<Rightarrow> (string \<times> node) list" where
  "entriesOf (TReadDir path es) = es"
| "entriesOf (TEntries path es) = es"
| "entriesOf (TProcess path n cs es) = es"
| "entriesOf (TSelf path n cs es) = es"

fun visitedKeys :: "string list \<Rightarrow> treeCall \<Rightarrow> (string \<times> DirEntry) list" where
  "visitedKeys skip (TReadDir path es) = walkOrder skip (dirPrefix path) es"
| "visitedKeys skip (TEntries path es) = walkOrder skip (dirPrefix path) es"
| "visitedKeys skip (TProcess path n cs es) = walkOrder skip (dirPrefix path) ((n, Dir cs) # lows n es)"
| "visitedKeys skip (TSelf path n cs es) = walkOrder skip (dirPrefix path) [(n, Dir cs)]"

fun leftEntries :: "treeCall \<Rightarrow> (string \<times> node) list" where
  "leftEntries (TReadDir path es) = []"
| "leftEntries (TEntries path es) = []"
| "leftEntries (TProcess path n cs es) = highs n es"
| "leftEntries (TSelf path n cs es) = es"

fun callSize :: "treeCall \<Rightarrow> nat" where
  "callSize (TReadDir path es) = 4 * entries_size es + 3"
| "callSize (TEntries path es) = 4 * entries_size es + 2"
| "callSize (TProcess path n cs es) = 4 * entries_size ((n, Dir cs) # es) + 1"
| "callSize (TSelf path n cs es) = 4 * entries_size [(n, Dir cs)]"

definition inTree :: "node \<Rightarrow> string \<Rightarrow> (string \<times> node) list \<Rightarrow> bool" where
  "inTree t path es \<longleftrightarrow> okEntries es \<and> (\<forall>(n, nd) \<in> set es. treeAt t (dirPrefix path @ n) = Some nd)"

fun callInTree :: "string list \<Rightarrow> node \<Rightarrow> treeCall \<Rightarrow> bool" where
  "callInTree skip t (TReadDir path es) \<longleftrightarrow> treeAt t path = Some (Dir es) \<and> okEntries es"
| "callInTree skip t (TEntries path es) \<longleftrightarrow> inTree t path es"
| "callInTree skip t (TProcess path n cs es) \<longleftrightarrow> inTree t path ((n, Dir cs) # es) \<and> n \<notin> set skip"
| "callInTree skip t (TSelf path n cs es) \<longleftrightarrow> inTree t path [(n, Dir cs)] \<and> n \<notin> set skip"

lemma inTree_Cons: "inTree t path ((n, nd) # es) \<longleftrightarrow>
    okEntries ((n, nd) # es) \<and> treeAt t (dirPrefix path @ n) = Some nd \<and> inTree t path es"
  by (auto simp: inTree_def)

lemma inTree_suffix:
  assumes "inTree t path es" "suffix es' es"
  shows "inTree t path es'"
proof -
  obtain zs where zs: "es = zs @ es'" using assms(2) by (auto simp: suffix_def)
  have "okEntries es'" using okEntries_append [of zs es'] assms(1) by (simp add: inTree_def zs)
  then show ?thesis using assms(1) by (simp add: inTree_def zs)
qed

lemma inTree_ok: "inTree t path es \<Longrightarrow> okEntries es"
  by (simp add: inTree_def)

lemma inTree_Cons_suffix:
  "inTree t path (e # es) \<Longrightarrow> suffix es' es \<Longrightarrow> inTree t path (e # es')"
  using inTree_suffix [of t path es es'] by (cases e) (auto simp: inTree_Cons dest: set_mono_suffix inTree_ok)

lemma entries_size_suffix: "suffix es' es \<Longrightarrow> entries_size es' \<le> entries_size es"
  by (auto simp: suffix_def size_list_conv_sum_list)

text \<open>
  A walk that nothing disturbs: the context is not cancelled and \<open>getObj\<close> fails for no other
  reason than that there is no object. Such a walk ends without an error.
\<close>

definition quiet :: "'o walkParams \<Rightarrow> bool" where
  "quiet w \<longleftrightarrow> (\<forall>n. w_ctxErr w n = None) \<and> (\<forall>k e err. w_getObj w k e = Inl err \<longrightarrow> err = ErrSkipObj)"

lemma quiet_ctx: "ctx_Err w st = Some err \<Longrightarrow> \<not> quiet w"
  by (auto simp: quiet_def ctx_Err_def)

lemma quiet_leafEntry:
  assumes "quiet w" "walkErr st = None"
  shows "walkErr (leafEntry path e w st) = None"
  using assms
  by (auto simp: quiet_def leafEntry_def check_eq addContentEntry_def Let_def split: option.splits sum.splits bool.splits prod.splits)

lemma quiet_offerDir:
  assumes "quiet w" "walkErr st = None" "offerDir k d w st = (b, st1)"
  shows "walkErr st1 = None"
  using assms
  by (auto simp: quiet_def offerDir_def check_eq split: if_splits option.splits sum.splits bool.splits prod.splits)

text \<open>What a call achieves from \<open>st\<close> when it ends in \<open>st'\<close> and leaves \<open>rest\<close>.\<close>

definition outcome ::
  "'o walkParams \<Rightarrow> treeCall \<Rightarrow> 'o walkState \<Rightarrow> (string \<times> node) list \<Rightarrow> 'o walkState \<Rightarrow> bool" where
  "outcome w g st rest st' \<longleftrightarrow>
     suffix rest (entriesOf g) \<and> (quiet w \<longrightarrow> walkErr st = None \<longrightarrow> walkErr st' = None)
     \<and> (walkErr st' = None \<longrightarrow> walkErr st = None \<and>
          (\<forall>acc. Rep w acc st \<longrightarrow>
             (w_truncated st \<longrightarrow> Rep w acc st' \<and> w_truncated st')
             \<and> Rep w (pushAll w acc (visitedKeys (w_skipdirs w) g)) st'
             \<and> (w_truncated st' \<or> rest = leftEntries g)))"

definition achieves :: "'o walkParams \<Rightarrow> treeCall \<Rightarrow> bool" where
  "achieves w g \<longleftrightarrow>
     (\<forall>st. \<exists>rest st'. walkRec w (callOf g) st = Some (map dirent rest, st') \<and> outcome w g st rest st')"

lemma outcome_suffix: "outcome w g st rest st' \<Longrightarrow> suffix rest (entriesOf g)"
  by (simp add: outcome_def)

lemma outcome_err: "suffix rest (entriesOf g) \<Longrightarrow> walkErr st' \<noteq> None \<Longrightarrow> \<not> quiet w \<Longrightarrow> outcome w g st rest st'"
  unfolding outcome_def by blast

text \<open>The walk stops because the page is full.\<close>

lemma outcome_stop:
  assumes "0 < w_max w" "pastMax st" "suffix rest (entriesOf g)"
  shows "outcome w g st rest (st\<lparr>w_truncated := True\<rparr>)"
proof -
  have "Rep w acc (st\<lparr>w_truncated := True\<rparr>) \<and> Rep w (pushAll w acc xs) (st\<lparr>w_truncated := True\<rparr>)"
    if "Rep w acc st" for acc xs
    using Rep_truncated [OF Rep_stop [OF that assms(2)] _ assms(1)] Rep_stop [OF that assms(2)] by simp
  then show ?thesis using assms(3) by (simp add: outcome_def)
qed

text \<open>Two calls in sequence, the second on the entries the first leaves.\<close>

lemma outcome_seq:
  assumes o1: "outcome w g1 st rest1 st1" and o2: "outcome w (G rest1) st1 rest2 st2"
    and K: "visitedKeys (w_skipdirs w) g = visitedKeys (w_skipdirs w) g1 @ visitedKeys (w_skipdirs w) (G (leftEntries g1))"
    and R: "leftEntries g = leftEntries (G (leftEntries g1))"
    and s: "suffix rest2 (entriesOf g)" and m: "0 < w_max w"
  shows "outcome w g st rest2 st2"
proof -
  let ?K = "visitedKeys (w_skipdirs w)"
  have "walkErr st = None \<and> (w_truncated st \<longrightarrow> Rep w acc st2 \<and> w_truncated st2)
      \<and> Rep w (pushAll w acc (?K g)) st2 \<and> (w_truncated st2 \<or> rest2 = leftEntries g)"
    if e: "walkErr st2 = None" and r: "Rep w acc st" for acc
  proof -
    have e1: "walkErr st1 = None" using o2 e by (simp add: outcome_def)
    let ?a = "pushAll w acc (?K g1)"
    have 1: "walkErr st = None" "w_truncated st \<Longrightarrow> Rep w acc st1 \<and> w_truncated st1" "Rep w ?a st1"
      "w_truncated st1 \<or> rest1 = leftEntries g1" using o1 e1 r by (simp_all add: outcome_def)
    have 2: "w_truncated st1 \<Longrightarrow> Rep w a st2 \<and> w_truncated st2" "Rep w (pushAll w a (?K (G rest1))) st2"
      "w_truncated st2 \<or> rest2 = leftEntries (G rest1)" if "Rep w a st1" for a
      using o2 e that by (simp_all add: outcome_def)
    show ?thesis
    proof (cases "w_truncated st1")
      case True
      have "Rep w (pushAll w acc (?K g)) st2" "w_truncated st2"
        using 2(1) [OF 1(3) True] Rep_truncated [of w ?a st2, OF _ _ m] by (simp_all add: K)
      with 1(1,2) 2(1) show ?thesis by blast
    next
      case False
      then have "rest1 = leftEntries g1" "\<not> w_truncated st" using 1(2,4) by auto
      with 2(2,3) [OF 1(3)] 1(1) show ?thesis by (simp add: K R)
    qed
  qed
  moreover have "walkErr st = None" if "walkErr st2 = None" using o1 o2 that by (simp add: outcome_def)
  moreover have "walkErr st2 = None" if "quiet w" "walkErr st = None" using o1 o2 that by (simp add: outcome_def)
  ultimately show ?thesis using s by (simp add: outcome_def)
qed

text \<open>Keys offered before a call.\<close>

lemma outcome_step:
  assumes o: "outcome w g' st1 rest st2" and p: "\<not> pastMax st"
    and e: "walkErr st1 = None \<Longrightarrow> walkErr st = None"
    and q: "quiet w \<Longrightarrow> walkErr st = None \<Longrightarrow> walkErr st1 = None"
    and r: "\<And>acc. walkErr st1 = None \<Longrightarrow> Rep w acc st \<Longrightarrow> Rep w (push w acc x) st1"
    and K: "visitedKeys (w_skipdirs w) g = x # visitedKeys (w_skipdirs w) g'"
    and R: "leftEntries g = leftEntries g'" and s: "suffix rest (entriesOf g)"
  shows "outcome w g st rest st2"
proof -
  have t: "\<not> w_truncated st" if "Rep w acc st" for acc using that p by (auto simp: Rep_def)
  have "walkErr st = None \<and> (w_truncated st \<longrightarrow> Rep w acc st2 \<and> w_truncated st2)
      \<and> Rep w (pushAll w acc (visitedKeys (w_skipdirs w) g)) st2 \<and> (w_truncated st2 \<or> rest = leftEntries g)"
    if e2: "walkErr st2 = None" and ra: "Rep w acc st" for acc
  proof -
    have e1: "walkErr st1 = None" using o e2 by (simp add: outcome_def)
    with o e2 r [OF e1 ra] have "Rep w (pushAll w (push w acc x) (visitedKeys (w_skipdirs w) g')) st2"
      "w_truncated st2 \<or> rest = leftEntries g'" unfolding outcome_def by blast+
    with e [OF e1] t [OF ra] show ?thesis by (simp add: K R)
  qed
  moreover have "walkErr st = None" if "walkErr st2 = None" using o e that by (simp add: outcome_def)
  moreover have "walkErr st2 = None" if "quiet w" "walkErr st = None" using o q that by (simp add: outcome_def)
  ultimately show ?thesis using s by (simp add: outcome_def)
qed

text \<open>The equations of the recursion, one per call.\<close>

lemma walkRec_ReadDir:
  "walkRec w (ReadDir path) st =
     (case ctx_Err w st of
        Some err \<Rightarrow> Some ([], (polled st)\<lparr>walkErr := Some err\<rparr>)
      | None \<Rightarrow>
          (case fs_ReadDir (w_fileSystem w) path of
             Inl err \<Rightarrow>
               if errors_Is err fs_ErrNotExist \<or> errors_Is err syscall_ENOTDIR then Some ([], polled st)
               else Some ([], (polled st)\<lparr>walkErr := Some (Wrapped (''readdir '' @ path) err)\<rparr>)
           | Inr es \<Rightarrow> walkRec w (ReadDirEntries path es) (polled st)))"
  by (subst walkRec.simps) (simp only: walkCall.case)

lemma walkRec_Entries_Nil: "walkRec w (ReadDirEntries path []) st = Some ([], st)"
  by (subst walkRec.simps) (simp only: walkCall.case list.case)

lemma walkRec_Entries:
  "walkRec w (ReadDirEntries path (e # rest)) st =
     (case ctx_Err w st of
        Some err \<Rightarrow> Some (e # rest, (polled st)\<lparr>walkErr := Some err\<rparr>)
      | None \<Rightarrow>
          if shouldSkip (de_Name e) w then walkRec w (ReadDirEntries path rest) (polled st)
          else if pastMax st then Some (e # rest, (polled st)\<lparr>w_truncated := True\<rparr>)
          else if de_IsDir e then
            Option.bind (walkRec w (ProcessDir path e rest) (polled st))
              (\<lambda>(rest1, st1). walkRec w (ReadDirEntries path rest1) st1)
          else walkRec w (ReadDirEntries path rest) (leafEntry path e w (polled st)))"
  by (subst walkRec.simps) (simp only: walkCall.case list.case)

lemma walkRec_Process_Nil: "walkRec w (ProcessDir path d []) st = walkRec w (ProcessDirSelf path d []) st"
  by (subst walkRec.simps) (simp only: walkCall.case list.case)

lemma walkRec_Process:
  "walkRec w (ProcessDir path d (e # rest)) st =
     (case ctx_Err w st of
        Some err \<Rightarrow> Some (e # rest, (polled st)\<lparr>walkErr := Some err\<rparr>)
      | None \<Rightarrow>
          if pastMax st then Some (e # rest, (polled st)\<lparr>w_truncated := True\<rparr>)
          else if de_Name e < de_Name d @ ''/'' then
            if shouldSkip (de_Name e) w then walkRec w (ProcessDir path d rest) (polled st)
            else if de_IsDir e then
              Option.bind (walkRec w (ProcessDir path e rest) (polled st))
                (\<lambda>(rest1, st1). walkRec w (ProcessDir path d rest1) st1)
            else walkRec w (ProcessDir path d rest) (leafEntry path e w (polled st))
          else walkRec w (ProcessDirSelf path d (e # rest)) (polled st))"
  by (subst walkRec.simps) (simp only: walkCall.case list.case)

lemma walkRec_Self:
  "walkRec w (ProcessDirSelf path d es) st =
     (if pastMax st then Some (es, st\<lparr>w_truncated := True\<rparr>)
      else (case offerDir (makeFullObjectName path (de_Name d) @ ''/'') d w st of
              (descend, st1) \<Rightarrow>
                if \<not> descend then Some (es, st1)
                else if pastMax st1 then Some (es, st1\<lparr>w_truncated := True\<rparr>)
                else Option.bind (walkRec w (ReadDir (makeFullObjectName path (de_Name d))) st1)
                       (\<lambda>(_, st2). Some (es, st2))))"
  by (subst walkRec.simps) (simp only: walkCall.case)

text \<open>The hypotheses of the step lemmas: a page of positive size over a file system that serves the tree.\<close>

definition walking :: "'o walkParams \<Rightarrow> node \<Rightarrow> bool" where
  "walking w t \<longleftrightarrow> 0 < w_max w \<and> serves (w_fileSystem w) t"

definition smallerAchieve :: "'o walkParams \<Rightarrow> node \<Rightarrow> treeCall \<Rightarrow> bool" where
  "smallerAchieve w t g \<longleftrightarrow>
     (\<forall>g'. callSize g' < callSize g \<longrightarrow> callInTree (w_skipdirs w) t g' \<longrightarrow> achieves w g')"

lemma smallerD:
  assumes "smallerAchieve w t g" "callInTree (w_skipdirs w) t g'" "callSize g' < callSize g"
  obtains rest st' where "walkRec w (callOf g') st = Some (map dirent rest, st')" "outcome w g' st rest st'"
  using assms unfolding smallerAchieve_def achieves_def by blast

text \<open>A call that only delegates.\<close>

lemma outcome_same:
  assumes "outcome w g' (polled st) rest st'" "visitedKeys (w_skipdirs w) g = visitedKeys (w_skipdirs w) g'"
    "leftEntries g = leftEntries g'" "suffix rest (entriesOf g)"
  shows "outcome w g st rest st'"
  using assms by (simp add: outcome_def)

lemma achievesI:
  "(\<And>st. \<exists>rest st'. walkRec w (callOf g) st = Some (map dirent rest, st') \<and> outcome w g st rest st') \<Longrightarrow>
    achieves w g"
  by (simp add: achieves_def)

lemma inTree_children:
  assumes "treeAt t path = Some (Dir es)" "okEntries es"
  shows "inTree t path es"
  using assms treeAt_child [OF assms(1)] by (auto simp: inTree_def wfNode_Dir)

lemma ReadDir_achieves:
  assumes w: "walking w t" and g: "callInTree (w_skipdirs w) t (TReadDir path es)"
    and IH: "smallerAchieve w t (TReadDir path es)"
  shows "achieves w (TReadDir path es)"
proof (rule achievesI)
  fix st
  have rd: "fs_ReadDir (w_fileSystem w) path = Inr (map dirent es)"
    using w g by (simp add: walking_def serves_def)
  show "\<exists>rest st'. walkRec w (callOf (TReadDir path es)) st = Some (map dirent rest, st')
      \<and> outcome w (TReadDir path es) st rest st'"
  proof (cases "ctx_Err w st")
    case None
    have t: "callInTree (w_skipdirs w) t (TEntries path es)" using g inTree_children by simp
    obtain rest st' where r: "walkRec w (callOf (TEntries path es)) (polled st) = Some (map dirent rest, st')"
      "outcome w (TEntries path es) (polled st) rest st'" by (rule smallerD [OF IH t]) simp_all
    have "outcome w (TReadDir path es) st rest st'"
      by (rule outcome_same [OF r(2)]) (use outcome_suffix [OF r(2)] in simp_all)
    with r(1) None rd show ?thesis by (auto simp: walkRec_ReadDir)
  next
    case (Some err)
    have "outcome w (TReadDir path es) st [] ((polled st)\<lparr>walkErr := Some err\<rparr>)" by (rule outcome_err) (use quiet_ctx [OF Some] in simp_all)
    with Some show ?thesis by (auto simp: walkRec_ReadDir intro!: exI [of _ "[]"])
  qed
qed

text \<open>One entry that is not skipped, met before the page is full.\<close>

lemma leaf_outcome:
  assumes o: "outcome w g' (leafEntry path (dirent (n, File)) w (polled st)) rest st'" and p: "\<not> pastMax st"
    and K: "visitedKeys (w_skipdirs w) g = (dirPrefix path @ n, dirent (n, File)) # visitedKeys (w_skipdirs w) g'"
    and R: "leftEntries g = leftEntries g'" and s: "suffix rest (entriesOf g)"
  shows "outcome w g st rest st'"
proof (rule outcome_step [OF o p _ _ _ K R s])
  show "walkErr (leafEntry path (dirent (n, File)) w (polled st)) = None" if "quiet w" "walkErr st = None"
    using quiet_leafEntry [OF that(1), of "polled st"] that(2) by simp
  let ?st1 = "leafEntry path (dirent (n, File)) w (polled st)"
  assume e: "walkErr ?st1 = None"
  show "walkErr st = None" using leafEntry_walkErr [OF e] by simp
  show "Rep w (push w acc (dirPrefix path @ n, dirent (n, File))) ?st1" if "Rep w acc st" for acc
    using leafEntry_Rep [OF _ _ e, of acc] that p by (simp add: makeFullObjectName_pre)
qed

lemma Entries_entry:
  assumes w: "walking w t" and ok: "okEntries ((n, nd) # es)" and t: "inTree t path es"
    and smaller: "smallerAchieve w t (TEntries path ((n, nd) # es))"
    and c: "ctx_Err w st = None" and n: "n \<notin> set (w_skipdirs w)" and p: "\<not> pastMax st"
    and tn: "treeAt t (dirPrefix path @ n) = Some nd"
  shows "\<exists>rest st'. walkRec w (callOf (TEntries path ((n, nd) # es))) st = Some (map dirent rest, st')
      \<and> outcome w (TEntries path ((n, nd) # es)) st rest st'"
proof (cases nd)
  case File
  obtain rest st' where r:
    "walkRec w (callOf (TEntries path es)) (leafEntry path (dirent (n, File)) w (polled st)) = Some (map dirent rest, st')"
    "outcome w (TEntries path es) (leafEntry path (dirent (n, File)) w (polled st)) rest st'"
    by (rule smallerD [OF smaller, of "TEntries path es"]) (use t in simp_all)
  have "outcome w (TEntries path ((n, nd) # es)) st rest st'"
    by (rule leaf_outcome [OF r(2) p])
      (use outcome_suffix [OF r(2)] walkOrder_File [of n es "w_skipdirs w"] ok n in \<open>simp_all add: File suffix_ConsI\<close>)
  with r(1) c n p File show ?thesis by (auto simp: walkRec_Entries shouldSkip_def)
next
  case (Dir cs)
  let ?g1 = "TProcess path n cs es"
  have t1: "callInTree (w_skipdirs w) t ?g1" using ok t n tn by (simp add: inTree_Cons Dir)
  obtain rest1 st1 where r1: "walkRec w (callOf ?g1) (polled st) = Some (map dirent rest1, st1)"
    "outcome w ?g1 (polled st) rest1 st1"
    by (rule smallerD [OF smaller t1]) (simp add: Dir)
  have s1: "suffix rest1 es" using outcome_suffix [OF r1(2)] by simp
  have t2: "callInTree (w_skipdirs w) t (TEntries path rest1)" using inTree_suffix [OF t s1] by simp
  obtain rest2 st2 where r2: "walkRec w (callOf (TEntries path rest1)) st1 = Some (map dirent rest2, st2)"
    "outcome w (TEntries path rest1) st1 rest2 st2"
    by (rule smallerD [OF smaller t2]) (use entries_size_suffix [OF s1] in simp)
  have s2: "suffix rest2 ((n, nd) # es)"
    using outcome_suffix [OF r2(2)] s1 by (simp add: suffix_ConsI suffix_order.trans)
  have "outcome w (TEntries path ((n, nd) # es)) (polled st) rest2 st2"
    by (rule outcome_seq [OF r1(2), of "TEntries path"])
      (use r2(2) s2 w ok in \<open>simp_all add: walking_def Dir walkOrder_Dir [of n cs es]\<close>)
  then have "outcome w (TEntries path ((n, nd) # es)) st rest2 st2"
    by (rule outcome_same) (use s2 in simp_all)
  with r1(1) r2(1) c n p Dir show ?thesis by (auto simp: walkRec_Entries shouldSkip_def)
qed

lemma Entries_achieves:
  assumes w: "walking w t" and g: "callInTree (w_skipdirs w) t (TEntries path es)"
    and IH: "smallerAchieve w t (TEntries path es)"
  shows "achieves w (TEntries path es)"
proof (rule achievesI)
  fix st
  have m: "0 < w_max w" using w by (simp add: walking_def)
  show "\<exists>rest st'. walkRec w (callOf (TEntries path es)) st = Some (map dirent rest, st')
      \<and> outcome w (TEntries path es) st rest st'"
  proof (cases es)
    case Nil
    have "outcome w (TEntries path es) st [] st"
      by (simp add: outcome_def Nil)
    then show ?thesis by (auto simp: Nil walkRec_Entries_Nil intro!: exI [of _ "[]"])
  next
    case (Cons e es')
    obtain n nd where e: "e = (n, nd)" by (cases e)
    have ok: "okEntries ((n, nd) # es')" and t': "inTree t path es'"
      using g by (simp_all add: Cons e inTree_Cons)
    have smaller: "smallerAchieve w t (TEntries path ((n, nd) # es'))" using IH by (simp add: Cons e)
    show ?thesis
    proof (cases "ctx_Err w st")
      case (Some err)
      have "outcome w (TEntries path es) st es ((polled st)\<lparr>walkErr := Some err\<rparr>)" by (rule outcome_err) (use quiet_ctx [OF Some] in simp_all)
      with Some show ?thesis by (auto simp: Cons walkRec_Entries intro!: exI [of _ es])
    next
      case None
      consider "n \<in> set (w_skipdirs w)" | "n \<notin> set (w_skipdirs w)" "pastMax st"
        | "n \<notin> set (w_skipdirs w)" "\<not> pastMax st" by blast
      then show ?thesis
      proof cases
        case 1
        obtain rest st' where r: "walkRec w (callOf (TEntries path es')) (polled st) = Some (map dirent rest, st')"
          "outcome w (TEntries path es') (polled st) rest st'"
          by (rule smallerD [OF smaller, of "TEntries path es'"]) (use t' in simp_all)
        have "outcome w (TEntries path es) st rest st'"
          by (rule outcome_same [OF r(2)]) (use outcome_suffix [OF r(2)] 1 in \<open>simp_all add: Cons e suffix_ConsI\<close>)
        with r(1) None 1 show ?thesis by (auto simp: Cons e walkRec_Entries shouldSkip_def)
      next
        case 2
        have "outcome w (TEntries path es) (polled st) es ((polled st)\<lparr>w_truncated := True\<rparr>)"
          by (rule outcome_stop [OF m]) (use 2 in simp_all)
        then have "outcome w (TEntries path es) st es ((polled st)\<lparr>w_truncated := True\<rparr>)"
          by (rule outcome_same) simp_all
        with None 2 show ?thesis by (auto simp: Cons e walkRec_Entries shouldSkip_def intro!: exI [of _ es])
      next
        case 3
        show ?thesis
          unfolding Cons e
          by (rule Entries_entry [OF w ok t' smaller None 3]) (use g in \<open>simp add: Cons e inTree_Cons\<close>)
      qed
    qed
  qed
qed

lemma outcomeI:
  assumes "suffix rest (entriesOf g)" "walkErr st' = None \<Longrightarrow> walkErr st = None" "\<not> pastMax st"
    and "quiet w \<Longrightarrow> walkErr st = None \<Longrightarrow> walkErr st' = None"
    and "\<And>acc. walkErr st' = None \<Longrightarrow> Rep w acc st \<Longrightarrow>
      Rep w (pushAll w acc (visitedKeys (w_skipdirs w) g)) st' \<and> (w_truncated st' \<or> rest = leftEntries g)"
  shows "outcome w g st rest st'"
proof -
  have "\<not> w_truncated st" if "Rep w acc st" for acc using that assms(3) by (auto simp: Rep_def)
  with assms show ?thesis unfolding outcome_def by blast
qed

text \<open>A directory whose own key is offered before its entries are read.\<close>

lemma outcome_descend:
  assumes o: "outcome w g' st1 rest' st2" and p: "\<not> pastMax st"
    and e: "walkErr st1 = None \<Longrightarrow> walkErr st = None"
    and q: "quiet w \<Longrightarrow> walkErr st = None \<Longrightarrow> walkErr st1 = None"
    and r: "\<And>acc. walkErr st1 = None \<Longrightarrow> Rep w acc st \<Longrightarrow> Rep w (push w acc x) st1"
    and K: "visitedKeys (w_skipdirs w) g = x # visitedKeys (w_skipdirs w) g'"
    and R: "leftEntries g = rest" and s: "suffix rest (entriesOf g)"
  shows "outcome w g st rest st2"
proof (rule outcomeI [OF s _ p])
  show "walkErr st2 = None" if "quiet w" "walkErr st = None" using o q that by (simp add: outcome_def)
  assume e2: "walkErr st2 = None"
  then have e1: "walkErr st1 = None" using o by (simp add: outcome_def)
  then show "walkErr st = None" by (rule e)
  fix acc assume "Rep w acc st"
  from r [OF e1 this] show "Rep w (pushAll w acc (visitedKeys (w_skipdirs w) g)) st2 \<and> (w_truncated st2 \<or> rest = leftEntries g)"
    using o e2 by (simp add: outcome_def K R)
qed

text \<open>A directory that is not entered.\<close>

lemma offerDir_outcome:
  assumes o: "offerDir k d w st = (False, st1)" and p: "\<not> pastMax st"
    and K: "visitedKeys (w_skipdirs w) g = (k, d) # xs" and xs: "\<And>x. x \<in> set xs \<Longrightarrow> prefix k (fst x)"
    and R: "leftEntries g = rest" and s: "suffix rest (entriesOf g)"
  shows "outcome w g st rest st1"
proof (rule outcomeI [OF s _ p])
  show "walkErr st1 = None" if "quiet w" "walkErr st = None" using quiet_offerDir [OF that o] .
  assume e: "walkErr st1 = None"
  show "walkErr st = None" by (rule offerDir_walkErr [OF o e])
  fix acc assume r: "Rep w acc st"
  have "pushAll w (push w acc (k, d)) xs = push w acc (k, d)"
    by (rule pushAll_ineffective, rule offerDir_Rep(2) [OF r p o e]) (use xs in simp_all)
  with offerDir_Rep(1) [OF r p o e]
  show "Rep w (pushAll w acc (visitedKeys (w_skipdirs w) g)) st1 \<and> (w_truncated st1 \<or> rest = leftEntries g)"
    by (simp add: K R)
qed

lemma offerDir_descend:
  assumes o: "offerDir k d w st = (b, st1)" and g': "outcome w g' st1 rest' st2" and p: "\<not> pastMax st"
    and K: "visitedKeys (w_skipdirs w) g = (k, d) # visitedKeys (w_skipdirs w) g'"
    and R: "leftEntries g = rest" and s: "suffix rest (entriesOf g)"
  shows "outcome w g st rest st2"
proof (rule outcome_descend [OF g' p _ _ _ K R s])
  show "walkErr st = None" if "walkErr st1 = None" using offerDir_walkErr [OF o that] .
  show "walkErr st1 = None" if "quiet w" "walkErr st = None" using quiet_offerDir [OF that o] .
  show "Rep w (push w acc (k, d)) st1" if "walkErr st1 = None" "Rep w acc st" for acc
    using offerDir_Rep(1) [OF that(2) p o that(1)] .
qed

lemma Self_achieves:
  assumes w: "walking w t" and g: "callInTree (w_skipdirs w) t (TSelf path n cs es)"
    and IH: "smallerAchieve w t (TSelf path n cs es)"
  shows "achieves w (TSelf path n cs es)"
proof (rule achievesI)
  fix st
  let ?g = "TSelf path n cs es" and ?d = "dirent (n, Dir cs)" and ?full = "dirPrefix path @ n"
  have m: "0 < w_max w" using w by (simp add: walking_def)
  have n: "okName n" "n \<notin> set (w_skipdirs w)" "wfNode (Dir cs)" "treeAt t ?full = Some (Dir cs)"
    using g by (simp_all add: inTree_Cons)
  have K: "visitedKeys (w_skipdirs w) ?g = (?full @ ''/'', ?d) # visitedKeys (w_skipdirs w) (TReadDir ?full cs)"
    using walkOrder_self [OF n(3,2)] pre_full [OF n(1), of path] by simp
  obtain b st1 where o: "offerDir (?full @ ''/'') ?d w st = (b, st1)" by force
  have rs: "walkRec w (callOf ?g) st = (if pastMax st then Some (map dirent es, st\<lparr>w_truncated := True\<rparr>)
      else if \<not> b then Some (map dirent es, st1)
      else if pastMax st1 then Some (map dirent es, st1\<lparr>w_truncated := True\<rparr>)
      else Option.bind (walkRec w (ReadDir ?full) st1) (\<lambda>(_, st2). Some (map dirent es, st2)))"
    using o by (simp add: walkRec_Self makeFullObjectName_pre)
  consider "pastMax st" | "\<not> pastMax st" "\<not> b" | "\<not> pastMax st" "b" "pastMax st1"
    | "\<not> pastMax st" "b" "\<not> pastMax st1" by blast
  then show "\<exists>rest st'. walkRec w (callOf ?g) st = Some (map dirent rest, st') \<and> outcome w ?g st rest st'"
  proof cases
    case 1
    have "outcome w ?g st es (st\<lparr>w_truncated := True\<rparr>)" by (rule outcome_stop [OF m 1]) simp
    with 1 rs show ?thesis by (intro exI conjI) simp_all
  next
    case 2
    have "outcome w ?g st es st1"
      by (rule offerDir_outcome [OF _ 2(1) K]) (use o 2 keys_prefix pre_full [OF n(1), of path] in \<open>auto simp: walkOrder_def\<close>)
    with 2 rs show ?thesis by (intro exI conjI) simp_all
  next
    case 3
    have "outcome w (TReadDir ?full cs) st1 [] (st1\<lparr>w_truncated := True\<rparr>)" by (rule outcome_stop [OF m 3(3)]) simp
    then have "outcome w ?g st es (st1\<lparr>w_truncated := True\<rparr>)" by (rule offerDir_descend [OF o _ 3(1) K]) simp_all
    with 3 rs show ?thesis by (intro exI conjI) simp_all
  next
    case 4
    have t1: "callInTree (w_skipdirs w) t (TReadDir ?full cs)" using n by (simp add: wfNode_Dir)
    obtain rest st' where r: "walkRec w (callOf (TReadDir ?full cs)) st1 = Some (map dirent rest, st')"
      "outcome w (TReadDir ?full cs) st1 rest st'" by (rule smallerD [OF IH t1]) simp
    have "outcome w ?g st es st'" by (rule offerDir_descend [OF o r(2) 4(1) K]) simp_all
    with 4 rs r(1) show ?thesis by (intro exI conjI) simp_all
  qed
qed

lemma Process_low:
  assumes w: "walking w t" and g: "callInTree (w_skipdirs w) t (TProcess path d cs ((n, nd) # es))"
    and smaller: "smallerAchieve w t (TProcess path d cs ((n, nd) # es))"
    and c: "ctx_Err w st = None" and p: "\<not> pastMax st" and low: "n < d @ ''/''"
    and n: "n \<notin> set (w_skipdirs w)"
  shows "\<exists>rest st'. walkRec w (callOf (TProcess path d cs ((n, nd) # es))) st = Some (map dirent rest, st')
      \<and> outcome w (TProcess path d cs ((n, nd) # es)) st rest st'"
proof -
  let ?g = "TProcess path d cs ((n, nd) # es)"
  have all: "inTree t path ((d, Dir cs) # (n, nd) # es)" and dn: "d \<notin> set (w_skipdirs w)" using g by simp_all
  have ok: "okEntries ((d, Dir cs) # (n, nd) # es)" using all by (rule inTree_ok)
  have t: "inTree t path ((n, nd) # es)" using inTree_suffix [OF all, of "(n, nd) # es"] by (simp add: suffix_ConsI)
  have td: "inTree t path ((d, Dir cs) # es)" using inTree_Cons_suffix [OF all, of es] by (simp add: suffix_ConsI)
  show ?thesis
  proof (cases nd)
    case File
    have t1: "callInTree (w_skipdirs w) t (TProcess path d cs es)" using td dn by simp
    obtain rest st' where r:
      "walkRec w (callOf (TProcess path d cs es)) (leafEntry path (dirent (n, File)) w (polled st)) = Some (map dirent rest, st')"
      "outcome w (TProcess path d cs es) (leafEntry path (dirent (n, File)) w (polled st)) rest st'"
      by (rule smallerD [OF smaller t1]) simp
    have "outcome w ?g st rest st'"
      by (rule leaf_outcome [OF r(2) p])
        (use outcome_suffix [OF r(2)] walkOrder_low_File [of d cs n es "w_skipdirs w"] ok n low in \<open>simp_all add: File suffix_ConsI\<close>)
    with r(1) c n p low File show ?thesis by (auto simp: walkRec_Process shouldSkip_def)
  next
    case (Dir cs')
    let ?g1 = "TProcess path n cs' es"
    have t1: "callInTree (w_skipdirs w) t ?g1" using t n by (simp add: Dir)
    obtain rest1 st1 where r1: "walkRec w (callOf ?g1) (polled st) = Some (map dirent rest1, st1)"
      "outcome w ?g1 (polled st) rest1 st1"
      by (rule smallerD [OF smaller t1]) (simp add: Dir)
    have s1: "suffix rest1 es" using outcome_suffix [OF r1(2)] by simp
    have t2: "callInTree (w_skipdirs w) t (TProcess path d cs rest1)" using inTree_Cons_suffix [OF td s1] dn by simp
    obtain rest2 st2 where r2: "walkRec w (callOf (TProcess path d cs rest1)) st1 = Some (map dirent rest2, st2)"
      "outcome w (TProcess path d cs rest1) st1 rest2 st2"
      by (rule smallerD [OF smaller t2]) (use entries_size_suffix [OF s1] in simp)
    have s2: "suffix rest2 ((n, nd) # es)"
      using outcome_suffix [OF r2(2)] s1 by (simp add: suffix_ConsI suffix_order.trans)
    have tr: "x < d @ ''/''" if "x < n @ ''/''" for x by (rule below_slash_trans [OF low _ _ that]) (use ok in simp_all)
    have hi: "highs d ((n, nd) # es) = highs d (highs n es)"
      using low dropWhile_weaken [of "\<lambda>e. fst e < n @ ''/''" "\<lambda>e. fst e < d @ ''/''" es] tr by simp
    have lo: "walkOrder skip q ((d, Dir cs) # lows d ((n, nd) # es)) =
        walkOrder skip q ((n, Dir cs') # lows n es) @ walkOrder skip q ((d, Dir cs) # lows d (highs n es))" for skip q
      unfolding Dir by (rule walkOrder_low_Dir) (use ok low in \<open>simp_all add: Dir\<close>)
    have "outcome w ?g (polled st) rest2 st2"
      by (rule outcome_seq [OF r1(2), of "TProcess path d cs"])
        (simp_all only: r2(2) s2 visitedKeys.simps leftEntries.simps entriesOf.simps lo hi w [unfolded walking_def])
    then have "outcome w ?g st rest2 st2" by (rule outcome_same) (use s2 in simp_all)
    with r1(1) r2(1) c n p low Dir show ?thesis by (auto simp: walkRec_Process shouldSkip_def)
  qed
qed

lemma Process_achieves:
  assumes w: "walking w t" and g: "callInTree (w_skipdirs w) t (TProcess path d cs es)"
    and IH: "smallerAchieve w t (TProcess path d cs es)"
  shows "achieves w (TProcess path d cs es)"
proof (rule achievesI)
  fix st
  let ?g = "TProcess path d cs es"
  have m: "0 < w_max w" using w by (simp add: walking_def)
  have all: "inTree t path ((d, Dir cs) # es)" and dn: "d \<notin> set (w_skipdirs w)" using g by simp_all
  have ts: "callInTree (w_skipdirs w) t (TSelf path d cs es)" using all dn by (simp add: inTree_Cons) (simp add: inTree_def)
  have self: "\<exists>rest st'. walkRec w (callOf (TSelf path d cs es)) st1 = Some (map dirent rest, st') \<and> outcome w (TSelf path d cs es) st1 rest st'" for st1
    by (rule smallerD [OF IH ts, of st1]) auto
  show "\<exists>rest st'. walkRec w (callOf ?g) st = Some (map dirent rest, st') \<and> outcome w ?g st rest st'"
  proof (cases es)
    case Nil
    with self [of st] show ?thesis by (simp add: walkRec_Process_Nil outcome_def)
  next
    case (Cons e es')
    obtain n nd where e: "e = (n, nd)" by (cases e)
    show ?thesis
    proof (cases "ctx_Err w st")
      case (Some err)
      have "outcome w ?g st es ((polled st)\<lparr>walkErr := Some err\<rparr>)" by (rule outcome_err) (use quiet_ctx [OF Some] in simp_all)
      with Some show ?thesis by (auto simp: Cons walkRec_Process intro!: exI [of _ es])
    next
      case None
      consider "pastMax st" | "\<not> pastMax st" "n < d @ ''/''" "n \<in> set (w_skipdirs w)"
        | "\<not> pastMax st" "n < d @ ''/''" "n \<notin> set (w_skipdirs w)" | "\<not> pastMax st" "\<not> n < d @ ''/''" by blast
      then show ?thesis
      proof cases
        case 1
        have "outcome w ?g (polled st) es ((polled st)\<lparr>w_truncated := True\<rparr>)" by (rule outcome_stop [OF m]) (use 1 in simp_all)
        then have "outcome w ?g st es ((polled st)\<lparr>w_truncated := True\<rparr>)" by (rule outcome_same) simp_all
        with None 1 show ?thesis by (auto simp: Cons walkRec_Process intro!: exI [of _ es])
      next
        case 2
        have td: "inTree t path ((d, Dir cs) # es')" using inTree_Cons_suffix [OF all, of es'] by (simp add: suffix_ConsI Cons)
        then have t1: "callInTree (w_skipdirs w) t (TProcess path d cs es')" using dn by simp
        obtain rest st' where r: "walkRec w (callOf (TProcess path d cs es')) (polled st) = Some (map dirent rest, st')"
          "outcome w (TProcess path d cs es') (polled st) rest st'" by (rule smallerD [OF IH t1]) (simp add: Cons)
        have "outcome w ?g st rest st'"
          by (rule outcome_same [OF r(2)]) (use outcome_suffix [OF r(2)] 2 in \<open>simp_all add: Cons e suffix_ConsI walkOrder_def dn treeKeys_skip\<close>)
        with r(1) None 2 show ?thesis by (auto simp: Cons e walkRec_Process shouldSkip_def)
      next
        case 3
        show ?thesis unfolding Cons e
          by (rule Process_low [OF w _ _ None]) (use 3 g IH in \<open>simp_all add: Cons e\<close>)
      next
        case 4
        obtain rest st' where r: "walkRec w (callOf (TSelf path d cs es)) (polled st) = Some (map dirent rest, st')"
          "outcome w (TSelf path d cs es) (polled st) rest st'" using self by blast
        have "outcome w ?g st rest st'"
          by (rule outcome_same [OF r(2)]) (use outcome_suffix [OF r(2)] 4 in \<open>simp_all add: Cons e\<close>)
        with r(1) None 4 show ?thesis by (auto simp: Cons e walkRec_Process)
      qed
    qed
  qed
qed

theorem walk_achieves:
  assumes w: "walking w t"
  shows "callInTree (w_skipdirs w) t g \<Longrightarrow> achieves w g"
proof (induction "callSize g" arbitrary: g rule: less_induct)
  case less
  then have IH: "smallerAchieve w t g" unfolding smallerAchieve_def by blast
  show ?case
    by (cases g) (use less.prems IH ReadDir_achieves [OF w] Entries_achieves [OF w] Process_achieves [OF w] Self_achieves [OF w] in blast)+
qed

end
