(* ===== verification/Listing_Pages.thy ===== *)
theory Listing_Pages
  imports Object_Listing
begin

text \<open>
  The properties of \<open>Walk\<close>: the jump into the prefix's directory sees the same keys, one call returns
  one page of the listing, and the markers lead through all pages. \<open>treeFS\<close> is the file system
  that serves a given tree.
\<close>

section \<open>Jumping into the prefix\<close>

definition pathOf :: "string list \<Rightarrow> string" where
  "pathOf cs = concat (map (\<lambda>c. c @ ''/'') cs)"

lemma pathOf_simps [simp]: "pathOf [] = []" "pathOf (c # cs) = c @ ''/'' @ pathOf cs"
  "pathOf (xs @ ys) = pathOf xs @ pathOf ys"
  by (simp_all add: pathOf_def)

lemma split_go_concat: "concat (map (\<lambda>c. c @ [d]) (split_go d acc s)) = rev acc @ s @ [d]"
  by (induction d acc s rule: split_go.induct) simp_all

lemma pathOf_Split: "pathOf (Split s CHR ''/'') = s @ ''/''"
  by (simp add: pathOf_def Split_def split_go_concat)

lemma split_go_nonempty: "split_go d acc s \<noteq> []"
  by (induction d acc s rule: split_go.induct) simp_all

lemma Split_snoc: "CHR ''/'' \<notin> set s \<Longrightarrow> Split (p @ ''/'' @ s) CHR ''/'' = Split p CHR ''/'' @ [s]"
  by (simp add: Split_def split_go_at_sep split_go_plain)

lemma map_of_okEntries:
  assumes "okEntries es" "map_of es c = Some nd"
  shows "okName c" "wfNode nd"
  using okEntriesD [OF assms(1) map_of_SomeD [OF assms(2)]] by simp_all

lemma nodeAt_ok: "nodeAt t cs = Some nd \<Longrightarrow> wfNode t \<Longrightarrow> wfNode nd \<and> (\<forall>c \<in> set cs. okName c)"
proof (induction t cs rule: nodeAt.induct)
  case (2 es c cs)
  then obtain nd' where m: "map_of es c = Some nd'" by (auto split: option.splits)
  have "okEntries es" using 2(3) by (simp add: wfNode_Dir)
  note mo = map_of_okEntries [OF this m]
  with 2 m show ?case by simp
qed simp_all

text \<open>The keys below one directory, among all keys.\<close>

lemma filter_other:
  assumes "okEntries es" "okName c" "c \<notin> fst ` set es"
  shows "filter (\<lambda>x. prefix (q @ c @ ''/'') (fst x)) (treeKeys skip q es) = []"
proof -
  have "\<not> prefix (q @ c @ ''/'') (fst x)" if x: "x \<in> set (treeKeys skip q es)" for x
  proof
    assume p: "prefix (q @ c @ ''/'') (fst x)"
    obtain e where e: "e \<in> set es" "keyOf q e (fst x)" using keys_name [OF x] by blast
    have "keyOf q (c, Dir []) (fst x)" using p by (simp add: keyOf_def)
    then have "c = fst e" using keyOf_unique [of c "fst e" q "Dir []" "fst x" "snd e"] e assms(2) okEntriesD [OF assms(1) e(1)]
      by simp
    with e(1) assms(3) show False by simp
  qed
  then show ?thesis by simp
qed

lemma filter_child:
  assumes "okEntries es" "map_of es c = Some (Dir ds)" "c \<notin> set skip"
  shows "filter (\<lambda>x. prefix (q @ c @ ''/'') (fst x)) (treeKeys skip q es) =
    (q @ c @ ''/'', dirent (c, Dir ds)) # treeKeys skip (q @ c @ ''/'') ds"
  using assms
proof (induction es)
  case (Cons e es)
  obtain n nd where e: "e = (n, nd)" by (cases e)
  have ok: "okEntries es" "okName n" using Cons.prems(1) by (simp_all add: e)
  have c: "okName c" using map_of_okEntries(1) [OF Cons.prems(1,2)] .
  have app: "treeKeys skip q ((n, nd) # es) = treeKeys skip q [(n, nd)] @ treeKeys skip q es"
    using keys_append [of skip q "[(n, nd)]" es] by simp
  show ?case
  proof (cases "n = c")
    case True
    have nd: "nd = Dir ds" using Cons.prems(2) True by (simp add: e)
    have "c \<notin> fst ` set es" using Cons.prems(1) True by (auto simp: e)
    note rest = filter_other [OF ok(1) c this, of q skip]
    have "prefix (q @ c @ ''/'') (fst x)" if "x \<in> set (treeKeys skip (q @ c @ ''/'') ds)" for x
      using keys_prefix [OF that] .
    then have "filter (\<lambda>x. prefix (q @ c @ ''/'') (fst x)) (treeKeys skip (q @ c @ ''/'') ds) = treeKeys skip (q @ c @ ''/'') ds"
      by simp
    with rest Cons.prems(3) True nd show ?thesis by (simp add: e)
  next
    case False
    have "okEntries [(n, nd)]" using Cons.prems(1) by (simp add: e)
    from filter_other [OF this c, of q skip] False
    have "filter (\<lambda>x. prefix (q @ c @ ''/'') (fst x)) (treeKeys skip q [(n, nd)]) = []" by simp
    moreover have "map_of es c = Some (Dir ds)" using Cons.prems(2) False by (simp add: e)
    ultimately show ?thesis using Cons.IH [OF ok(1) _ Cons.prems(3)] by (simp only: e app filter_append append_Nil)
  qed
qed simp

lemma filter_path:
  assumes "nodeAt (Dir es) cs = Some (Dir ds)" "cs \<noteq> []" "okEntries es" "\<forall>c \<in> set cs. c \<notin> set skip"
  shows "filter (\<lambda>x. prefix (q @ pathOf cs) (fst x)) (treeKeys skip q es) =
    (q @ pathOf cs, dirent (last cs, Dir ds)) # treeKeys skip (q @ pathOf cs) ds"
  using assms
proof (induction cs arbitrary: es q)
  case (Cons c cs)
  obtain nd where m: "map_of es c = Some nd" "nodeAt nd cs = Some (Dir ds)" using Cons.prems(1) by (auto split: option.splits)
  show ?case
  proof (cases "cs = []")
    case True
    with m Cons.prems filter_child [of es c ds skip q] show ?thesis by simp
  next
    case False
    then obtain es' where nd: "nd = Dir es'" using m(2) by (cases nd; cases cs) auto
    have es': "okEntries es'" using map_of_okEntries(2) [OF Cons.prems(3) m(1)] by (simp add: nd wfNode_Dir)
    let ?q = "q @ c @ ''/''" and ?t = "q @ c @ ''/'' @ pathOf cs"
    obtain c' cs' where cs: "cs = c' # cs'" using False by (cases cs) auto
    have split: "filter (\<lambda>x. prefix ?t (fst x)) xs = filter (\<lambda>x. prefix ?t (fst x)) (filter (\<lambda>x. prefix ?q (fst x)) xs)"
      for xs :: "(string \<times> DirEntry) list"
    proof -
      have "prefix ?q (fst x) \<and> prefix ?t (fst x) \<longleftrightarrow> prefix ?t (fst x)" for x :: "string \<times> DirEntry"
        using prefix_order.trans [of ?q ?t "fst x"] by auto
      then show ?thesis by simp
    qed
    have nt: "\<not> prefix ?t ?q" by (simp add: cs)
    have "filter (\<lambda>x. prefix ?t (fst x)) (treeKeys skip q es) = filter (\<lambda>x. prefix ?t (fst x)) (treeKeys skip ?q es')"
      using filter_child [OF Cons.prems(3), of c es' skip q] m(1) Cons.prems(4) nt by (subst split) (simp add: nd)
    also have "\<dots> = (?t, dirent (last cs, Dir ds)) # treeKeys skip ?t ds"
      using Cons.IH [of es' ?q] m(2) False es' Cons.prems(4) by (simp add: nd)
    finally show ?thesis using False by simp
  qed
qed simp

lemma walkOrder_path:
  assumes "nodeAt (Dir es) cs = Some (Dir ds)" "cs \<noteq> []" "okEntries es" "\<forall>c \<in> set cs. c \<notin> set skip"
  shows "filter (\<lambda>x. prefix (pathOf cs) (fst x)) (walkOrder skip [] es) =
    (pathOf cs, dirent (last cs, Dir ds)) # walkOrder skip (pathOf cs) ds"
proof -
  let ?k = "(pathOf cs, dirent (last cs, Dir ds))"
  have "filter (\<lambda>x. prefix (pathOf cs) (fst x)) (walkOrder skip [] es) = sort_key fst (?k # treeKeys skip (pathOf cs) ds)"
    using filter_path [OF assms, of "[]"] by (simp add: walkOrder_def filter_sort)
  moreover have "insort_key fst ?k (walkOrder skip (pathOf cs) ds) = ?k # walkOrder skip (pathOf cs) ds"
    by (rule insort_is_Cons) (auto simp: walkOrder_def dest: keys_prefix prefix_le)
  ultimately show ?thesis by (simp add: walkOrder_def)
qed

lemma lastSlash_Some:
  assumes "lastSlash s = Some i"
  shows "\<exists>r. s = take i s @ ''/'' @ r \<and> CHR ''/'' \<notin> set r"
proof -
  let ?P = "\<lambda>c. c \<noteq> CHR ''/''"
  have m: "CHR ''/'' \<in> set s" and i: "i = length s - 1 - length (takeWhile ?P (rev s))"
    using assms by (auto simp: lastSlash_def split: if_splits)
  obtain a r where s: "s = a @ CHR ''/'' # r" "CHR ''/'' \<notin> set r" using split_list_last [OF m] by blast
  have "takeWhile ?P (rev r @ CHR ''/'' # rev a) = rev r"
    using s(2) by (subst takeWhile_append2) auto
  then have "i = length a" by (simp add: i s(1))
  with s show ?thesis by simp
qed

lemma path_Base_last:
  assumes "okName c" "p = [] \<or> (\<exists>q. p = q @ ''/'')"
  shows "path_Base (p @ c) = c"
proof -
  have sl: "CHR ''/'' \<notin> set (rev c)" and ne: "c \<noteq> []" using assms(1) by (simp_all add: okName_def)
  obtain x cs where rc: "rev c = x # cs" using ne by (cases "rev c") auto
  have "dropWhile (\<lambda>c. c = CHR ''/'') (rev (p @ c)) = rev (p @ c)" using sl rc by auto
  moreover have "takeWhile (\<lambda>c. c \<noteq> CHR ''/'') (rev c @ rev p) = rev c"
  proof (cases "p = []")
    case False
    then obtain q where "p = q @ ''/''" using assms(2) by blast
    then show ?thesis using sl by (subst takeWhile_append2) auto
  qed (use sl in \<open>auto simp: takeWhile_eq_all_conv\<close>)
  ultimately show ?thesis using ne by (simp add: path_Base_def Let_def)
qed

text \<open>
  A prefix whose directories are neither the dot nor hidden ones: the walk may start at the
  prefix's directory.
\<close>

definition plainPrefix :: "'o walkParams \<Rightarrow> bool" where
  "plainPrefix w \<longleftrightarrow>
     (\<forall>c \<in> set (butlast (Split (w_prefix w) CHR ''/'')). c \<noteq> ''.'' \<and> c \<notin> set (w_skipdirs w))"

lemma prefixRoot_keys:
  assumes sv: "serves (w_fileSystem w) (Dir es)" and ok: "okEntries es" and pl: "plainPrefix w"
    and pr: "prefixRoot w = Some (pd, des)"
  obtains c ds where "des = map dirent ds" "treeAt (Dir es) pd = Some (Dir ds)" "okEntries ds" "pd \<noteq> ''.''"
    "path_Base pd = c" "c \<notin> set (w_skipdirs w)" "prefix (pd @ ''/'') (w_prefix w)"
    "filter (\<lambda>x. prefix (pd @ ''/'') (fst x)) (walkOrder (w_skipdirs w) [] es) =
      (pd @ ''/'', dirent (c, Dir ds)) # walkOrder (w_skipdirs w) (pd @ ''/'') ds"
proof -
  obtain i where i: "lastSlash (w_prefix w) = Some i" "i > 0" "pd = take i (w_prefix w)"
    "fs_ReadDir (w_fileSystem w) pd = Inr des"
    using pr by (auto simp: prefixRoot_def Let_def split: option.splits if_splits sum.splits)
  obtain r where r: "w_prefix w = pd @ ''/'' @ r" "CHR ''/'' \<notin> set r" using lastSlash_Some [OF i(1)] i(3) by auto
  obtain ds where ds: "treeAt (Dir es) pd = Some (Dir ds)"
    using sv i(4) unfolding serves_def is_ok_iff by blast
  then have des: "des = map dirent ds" using sv i(4) by (simp add: serves_def)
  let ?cs = "Split pd CHR ''/''"
  have cs: "\<forall>c \<in> set ?cs. c \<noteq> ''.'' \<and> c \<notin> set (w_skipdirs w)"
    using pl Split_snoc [OF r(2), of pd] by (simp add: plainPrefix_def r(1))
  have ne: "?cs \<noteq> []" by (simp add: Split_def split_go_nonempty)
  have dot: "pd \<noteq> ''.''" using cs by (auto simp: Split_def)
  then have nd: "nodeAt (Dir es) ?cs = Some (Dir ds)" using ds by (simp add: treeAt_def)
  have wf: "wfNode (Dir ds)" "\<forall>c \<in> set ?cs. okName c" using nodeAt_ok [OF nd] ok by (simp_all add: wfNode_Dir)
  have "pathOf (butlast ?cs @ [last ?cs]) = pd @ ''/''" using ne pathOf_Split [of pd] by simp
  then have pd: "pd = pathOf (butlast ?cs) @ last ?cs" by simp
  have "pathOf xs = [] \<or> (\<exists>q. pathOf xs = q @ ''/'')" for xs by (cases xs rule: rev_cases) simp_all
  then have base: "path_Base pd = last ?cs" using path_Base_last [of "last ?cs"] wf(2) ne pd by (metis last_in_set)
  have "filter (\<lambda>x. prefix (pd @ ''/'') (fst x)) (walkOrder (w_skipdirs w) [] es) =
      (pd @ ''/'', dirent (last ?cs, Dir ds)) # walkOrder (w_skipdirs w) (pd @ ''/'') ds"
    using walkOrder_path [OF nd ne ok] cs by (simp add: pathOf_Split)
  with that [of ds "last ?cs"] des ds wf(1) dot base cs ne r(1) show thesis by (simp add: wfNode_Dir)
qed

text \<open>Keys without the prefix do not matter.\<close>

lemma pushAll_filter:
  assumes "\<And>x. \<not> P x \<Longrightarrow> \<not> prefix (w_prefix w) (fst x)"
  shows "pushAll w acc (filter P xs) = pushAll w acc xs"
proof (induction xs arbitrary: acc)
  case (Cons x xs)
  have "push w acc x = acc" if "\<not> P x" using assms [OF that] by (simp add: push_None item_def)
  with Cons show ?case by simp
qed simp

lemma offerRoot_Rep:
  assumes r: "Rep w acc st" and p: "\<not> pastMax st" and ok: "walkErr (offerRoot rootDir w st) = None"
    and d: "fs_Stat (w_fileSystem w) rootDir = Inr d"
  shows "walkErr st = None \<and> Rep w (push w acc (rootDir @ ''/'', d)) (offerRoot rootDir w st)"
proof -
  let ?k = "rootDir @ ''/''"
  obtain b st1 where c: "checkAndMaybeAddCommonPrefix ?k w st = (b, st1)" by force
  show ?thesis
  proof (cases "?k > w_marker w")
    case m: True
    note ch = check_Rep [OF r p m c]
    show ?thesis
    proof (cases b)
      case True
      with ch(2) m c ok ch(1) show ?thesis by (simp add: offerRoot_def Let_def)
    next
      case False
      with ch(3) [of d] have st: "st1 = st" "item w (?k, d) = objectItem w ?k d" by simp_all
      show ?thesis
      proof (cases "w_getObj w ?k d")
        case (Inl err)
        then show ?thesis using m c d False st ok r
          by (simp add: offerRoot_def Let_def push_def objectItem_def split: if_splits)
      next
        case (Inr obj)
        then show ?thesis using m c d False st ok addObject_Rep [OF r p, of ?k obj]
          by (simp add: offerRoot_def Let_def push_def objectItem_def)
      qed
    qed
  next
    case False
    then show ?thesis using r ok by (simp add: offerRoot_def Let_def push_def item_def)
  qed
qed

lemma quiet_offerRoot:
  assumes "quiet w" "walkErr st = None" "fs_Stat (w_fileSystem w) rootDir = Inr d"
  shows "walkErr (offerRoot rootDir w st) = None"
  using assms
  by (auto simp: quiet_def offerRoot_def check_eq Let_def split: option.splits sum.splits bool.splits prod.splits)

text \<open>Both ways to start the walk end in a state that holds the first entries of the listing.\<close>

definition endsWith :: "'o walkParams \<Rightarrow> (string \<times> node) list \<Rightarrow> 'o walkState option \<Rightarrow> bool" where
  "endsWith w es r \<longleftrightarrow> (\<exists>st. r = Some st \<and> (walkErr st = None \<longrightarrow> Rep w (listing w es) st)
     \<and> (quiet w \<longrightarrow> walkErr st = None))"

lemma rootWalk:
  assumes w: "walking w (Dir es)" and ok: "okEntries es"
  shows "endsWith w es (readDir ''.'' w initialState)"
proof -
  have t: "callInTree (w_skipdirs w) (Dir es) (TReadDir ''.'' es)" using ok by (simp add: treeAt_def)
  have "0 < w_max w" using w by (simp add: walking_def)
  note r0 = Rep_initial [OF this]
  obtain rest st where r: "walkRec w (ReadDir ''.'') initialState = Some (map dirent rest, st)"
    "outcome w (TReadDir ''.'' es) initialState rest st"
    using walk_achieves [OF w t] unfolding achieves_def callOf.simps by blast
  have "Rep w (listing w es) st" if "walkErr st = None"
    using r(2) that r0 by (simp add: outcome_def listing_def dirPrefix_def)
  moreover have "walkErr st = None" if "quiet w" using r(2) that by (simp add: outcome_def initialState_def)
  ultimately show ?thesis using r(1) by (simp add: endsWith_def readDir_def)
qed

lemma prefixWalk:
  assumes w: "walking w (Dir es)" and ok: "okEntries es" and pl: "plainPrefix w"
    and pr: "prefixRoot w = Some (pd, des)"
  shows "\<not> shouldSkip (path_Base pd) w"
    and "endsWith w es (let st1 = offerRoot pd w initialState
      in if walkErr st1 = None then readDirEntries pd des w st1 else Some st1)"
proof -
  have sv: "serves (w_fileSystem w) (Dir es)" and m: "0 < w_max w" using w by (simp_all add: walking_def)
  obtain c ds where c: "des = map dirent ds" "treeAt (Dir es) pd = Some (Dir ds)" "okEntries ds" "pd \<noteq> ''.''"
    "path_Base pd = c" "c \<notin> set (w_skipdirs w)" "prefix (pd @ ''/'') (w_prefix w)"
    "filter (\<lambda>x. prefix (pd @ ''/'') (fst x)) (walkOrder (w_skipdirs w) [] es) =
      (pd @ ''/'', dirent (c, Dir ds)) # walkOrder (w_skipdirs w) (pd @ ''/'') ds"
    by (rule prefixRoot_keys [OF sv ok pl pr])
  show "\<not> shouldSkip (path_Base pd) w" using c(5,6) by (simp add: shouldSkip_def)
  let ?st1 = "offerRoot pd w initialState"
  have stat: "fs_Stat (w_fileSystem w) pd = Inr (dirent (c, Dir ds))"
    using sv c(2,5) by (simp add: serves_def dirent_def)
  have "pushAll w [] (filter (\<lambda>x. prefix (pd @ ''/'') (fst x)) (walkOrder (w_skipdirs w) [] es)) = listing w es"
    unfolding listing_def by (rule pushAll_filter) (use prefix_order.trans [OF c(7)] in blast)
  then have l: "listing w es = pushAll w (push w [] (pd @ ''/'', dirent (c, Dir ds))) (walkOrder (w_skipdirs w) (pd @ ''/'') ds)"
    by (simp add: c(8))
  show "endsWith w es (let st1 = ?st1 in if walkErr st1 = None then readDirEntries pd des w st1 else Some st1)"
  proof (cases "walkErr ?st1 = None")
    case True
    have r1: "Rep w (push w [] (pd @ ''/'', dirent (c, Dir ds))) ?st1"
      using offerRoot_Rep [OF Rep_initial [OF m] _ True stat] by (simp add: initialState_def)
    have t: "callInTree (w_skipdirs w) (Dir es) (TEntries pd ds)" using inTree_children [OF c(2,3)] by simp
    obtain rest st where r: "walkRec w (ReadDirEntries pd des) ?st1 = Some (map dirent rest, st)"
      "outcome w (TEntries pd ds) ?st1 rest st"
      using walk_achieves [OF w t] unfolding achieves_def callOf.simps c(1) by blast
    have "Rep w (listing w es) st" if "walkErr st = None"
      using r(2) that r1 c(4) by (simp add: outcome_def l dirPrefix_def)
    moreover have "walkErr st = None" if "quiet w" using r(2) that True by (simp add: outcome_def)
    ultimately show ?thesis using r(1) True by (simp add: endsWith_def readDirEntries_def Let_def)
  next
    case False
    then have "\<not> quiet w" using quiet_offerRoot [OF _ _ stat, of initialState] by (auto simp: initialState_def)
    with False show ?thesis by (auto simp: endsWith_def Let_def)
  qed
qed

section \<open>One page\<close>

lemma fold_update_zip:
  "length L = length a \<Longrightarrow> fold (\<lambda>(cp, i) a. a[i := cp]) (zip (take n L) [0..<n]) a = take n L @ drop n a"
  if "n \<le> length L" for L :: "string list"
  using that
proof (induction n)
  case (Suc n)
  then have n: "n < length L" by simp
  have "fold (\<lambda>(cp, i) a. a[i := cp]) (zip (take (Suc n) L) [0..<Suc n]) a = (take n L @ drop n a)[n := L ! n]"
    using Suc n by (simp add: take_Suc_conv_app_nth)
  also have "\<dots> = take (Suc n) L @ drop (Suc n) a"
    using n Suc.prems by (simp add: list_update_append take_Suc_conv_app_nth Cons_nth_drop_Suc [symmetric])
  finally show ?case .
qed simp

lemma CpArray_zip: "CpArray (zip L [0..<length L]) = L"
  using fold_update_zip [of "length L" L "replicate (length L) []"]
  by (simp add: CpArray_def cpMap_Len_def)

text \<open>The page of a listing: its first \<open>max\<close> entries.\<close>

definition isPage :: "nat \<Rightarrow> 'o item list \<Rightarrow> 'o WalkResults \<Rightarrow> bool" where
  "isPage n its p \<longleftrightarrow>
     CommonPrefixes p = lefts (take n its) \<and> Objects p = map snd (rights (take n its))
     \<and> (n < length its \<longrightarrow> Truncated p) \<and> (Truncated p \<longrightarrow> n \<le> length its)
     \<and> NextMarker p = (if Truncated p then itemName (its ! (n - 1)) else [])"

definition walkEnd :: "'o walkState \<Rightarrow> (go_error, 'o walkState) result" where
  "walkEnd st =
     (case walkErr st of
        Some err \<Rightarrow> Inl err
      | None \<Rightarrow> Inr (if \<not> w_truncated st then st\<lparr>newMarker := []\<rparr> else st))"

definition walkStart :: "'o walkParams \<Rightarrow> 'o walkState \<Rightarrow> 'o walkState option" where
  "walkStart w st =
     (case prefixRoot w of
        Some (rootDir, rootEntries) \<Rightarrow>
          if \<not> shouldSkip (path_Base rootDir) w then
            (let st1 = offerRoot rootDir w st
             in if walkErr st1 = None then readDirEntries rootDir rootEntries w st1 else Some st1)
          else Some st
      | None \<Rightarrow> readDir ''.'' w st)"

lemma quickWalk_parts: "quickWalk w st = map_option walkEnd (walkStart w st)"
  unfolding quickWalk_def walkStart_def walkEnd_def ..

lemma walkStart_ends:
  assumes w: "walking w (Dir es)" and ok: "okEntries es" and pl: "plainPrefix w"
  shows "endsWith w es (walkStart w initialState)"
proof (cases "prefixRoot w")
  case None
  then show ?thesis using rootWalk [OF w ok] by (simp add: walkStart_def)
next
  case (Some r)
  obtain pd des where r: "r = (pd, des)" by (cases r)
  note pw = prefixWalk [OF w ok pl Some [unfolded r]]
  show ?thesis unfolding walkStart_def Some r option.case prod.case if_P [OF pw(1)] by (rule pw(2))
qed

lemma Rep_isPage:
  assumes r: "Rep w its st"
  defines "st' \<equiv> if \<not> w_truncated st then st\<lparr>newMarker := []\<rparr> else st"
  shows "isPage (nat (w_max w)) its \<lparr>CommonPrefixes = CpArray (cpmap st'), Objects = w_objects st',
      Truncated = w_truncated st', NextMarker = newMarker st'\<rparr>"
proof -
  let ?n = "nat (w_max w)"
  have c: "CpArray (cpmap st) = lefts (take ?n its)" using r by (simp only: Rep_def CpArray_zip)
  have o: "w_objects st = map snd (rights (take ?n its))" using r by (simp only: Rep_def)
  have t: "?n < length its \<Longrightarrow> w_truncated st" "w_truncated st \<Longrightarrow> ?n \<le> length its" using r unfolding Rep_def by blast+
  have n: "newMarker st = itemName (its ! (?n - 1))" if "w_truncated st" using r t(2) [OF that] unfolding Rep_def by blast
  show ?thesis using c o t n unfolding isPage_def st'_def by (cases "w_truncated st") auto
qed

lemma Walk_ends:
  assumes w: "walking w (Dir es)" and ok: "okEntries es" and pl: "plainPrefix w"
  shows "\<exists>r. Walk w = Some r \<and> (quiet w \<longrightarrow> is_ok r)
    \<and> (\<forall>p. r = Inr p \<longrightarrow> isPage (nat (w_max w)) (listing w es) p)"
proof -
  obtain st where q: "walkStart w initialState = Some st" and r: "walkErr st = None \<longrightarrow> Rep w (listing w es) st"
    and qu: "quiet w \<longrightarrow> walkErr st = None"
    using walkStart_ends [OF assms] unfolding endsWith_def by (elim exE conjE) (rule that)
  have m: "w_max w \<noteq> 0" using w by (simp add: walking_def)
  show ?thesis
  proof (cases "walkErr st")
    case None
    have fin: ?thesis if "Walk w = Some (Inr p)" "isPage (nat (w_max w)) (listing w es) p" for p
      using that by simp
    show ?thesis
    proof (rule fin)
      show "Walk w = Some (Inr (let st' = if \<not> w_truncated st then st\<lparr>newMarker := []\<rparr> else st in
          \<lparr>CommonPrefixes = CpArray (cpmap st'), Objects = w_objects st', Truncated = w_truncated st', NextMarker = newMarker st'\<rparr>))"
        by (simp only: Walk_def m if_False quickWalk_parts q option.map walkEnd_def None option.case sum.case Let_def)
      show "isPage (nat (w_max w)) (listing w es) (let st' = if \<not> w_truncated st then st\<lparr>newMarker := []\<rparr> else st in
          \<lparr>CommonPrefixes = CpArray (cpmap st'), Objects = w_objects st', Truncated = w_truncated st', NextMarker = newMarker st'\<rparr>)"
        unfolding Let_def by (rule Rep_isPage) (use r None in simp)
    qed
  next
    case (Some err)
    have "Walk w = Some (Inl err)"
      by (simp only: Walk_def m if_False quickWalk_parts q option.map walkEnd_def Some option.case sum.case)
    with Some qu show ?thesis by simp
  qed
qed

section \<open>The names of a listing\<close>

lemma Cut_shortest: "Cut s sep = Some (a, b) \<Longrightarrow> Cut (a @ sep) sep = Some (a, [])"
proof (induction s arbitrary: a)
  case Nil
  then show ?case by (simp split: if_splits)
next
  case (Cons c s)
  show ?case
  proof (cases "prefix sep (c # s)")
    case True
    with Cons.prems have "a = []" by simp
    then show ?thesis by (cases sep) simp_all
  next
    case False
    with Cons.prems obtain a' where a: "a = c # a'" "Cut s sep = Some (a', b)" by auto
    have "c # s = (c # a' @ sep) @ b" using Cut_Some [OF a(2)] by simp
    then have "\<not> prefix sep (c # a' @ sep)" using False by (metis prefix_prefix)
    with a Cons.IH show ?thesis by simp
  qed
qed

lemma groupOf_prefix:
  assumes "groupOf w k = Some cp" "prefix (w_prefix w) k"
  shows "prefix cp k" "groupOf w cp = Some cp" "prefix (w_prefix w) cp"
proof -
  obtain s where k: "k = w_prefix w @ s" using assms(2) by (auto simp: prefix_def)
  obtain a b where c: "Cut s (w_delimiter w) = Some (a, b)" "w_delimiter w \<noteq> []" "cp = w_prefix w @ a @ w_delimiter w"
    using assms(1) k by (auto simp: groupOf_def split: if_splits)
  show "prefix cp k" using Cut_Some [OF c(1)] by (simp add: c(3) k)
  show "groupOf w cp = Some cp" using Cut_shortest [OF c(1)] c(2,3) by (simp add: groupOf_def)
  show "prefix (w_prefix w) cp" by (simp add: c(3))
qed

lemma groupOf_above:
  assumes "groupOf w k = Some cp" "prefix (w_prefix w) k" "prefix cp k'"
  shows "groupOf w k' = Some cp"
  using groupOf_below [OF groupOf_prefix(2,3) assms(3)] assms(1,2) by blast

text \<open>Later keys give later names or the same common prefix.\<close>

lemma item_cases:
  assumes "item w x = Some i"
  obtains cp where "i = Inl cp" "groupOf w (fst x) = Some cp" "prefix (w_prefix w) (fst x)"
  | obj where "i = Inr (fst x, obj)" "groupOf w (fst x) = None" "prefix (w_prefix w) (fst x)"
  using assms by (auto simp: item_def objectItem_def split: if_splits option.splits sum.splits)

lemma item_order:
  assumes x: "item w x = Some i" and y: "item w y = Some j" and less: "fst x < fst y"
  shows "itemName i < itemName j \<or> (i = j \<and> (\<exists>cp. i = Inl cp))"
  using x
proof (cases rule: item_cases)
  case 1: (1 cp)
  have p: "prefix cp (fst x)" using groupOf_prefix(1) [OF 1(2,3)] .
  from y show ?thesis
  proof (cases rule: item_cases)
    case 2: (1 cq)
    have q: "prefix cq (fst y)" using groupOf_prefix(1) [OF 2(2,3)] .
    have "\<not> cq < cp"
    proof
      assume l: "cq < cp"
      have "\<not> prefix cq cp"
      proof
        assume "prefix cq cp"
        then have "prefix cq (fst x)" using p by (rule prefix_order.trans)
        from groupOf_above [OF 2(2,3) this] 1(2) l show False by simp
      qed
      from less_not_prefix [OF l this] p q have "fst y < fst x" by (auto simp: prefix_def)
      with less show False by simp
    qed
    then show ?thesis using 1(1) 2(1) by (auto simp: itemName_def)
  next
    case 2: (2 obj)
    have "cp < fst y" using prefix_le [OF p] less by (rule order.strict_trans1)
    then show ?thesis using 1(1) 2(1) by (simp add: itemName_def)
  qed
next
  case 1: (2 obj)
  from y show ?thesis
  proof (cases rule: item_cases)
    case 2: (1 cq)
    have q: "prefix cq (fst y)" using groupOf_prefix(1) [OF 2(2,3)] .
    have np: "\<not> prefix cq (fst x)" using groupOf_above [OF 2(2,3)] 1(2) by fastforce
    have "\<not> cq < fst x" using less_below [OF _ np q] less by (meson order.asym)
    moreover have "cq \<noteq> fst x" using np by auto
    ultimately show ?thesis using 1(1) 2(1) by (simp add: itemName_def)
  next
    case 2: (2 obj)
    then show ?thesis using 1(1) less by (simp add: itemName_def)
  qed
qed

lemma pushAll_sorted:
  assumes "sorted_wrt (<) (map fst xs)" "sorted_wrt (<) (map itemName acc)"
    "\<And>i. i \<in> set acc \<Longrightarrow> \<exists>y. item w y = Some i \<and> (\<forall>x \<in> set xs. fst y < fst x)"
  shows "sorted_wrt (<) (map itemName (pushAll w acc xs))"
  using assms
proof (induction xs arbitrary: acc)
  case (Cons x xs)
  have xs: "sorted_wrt (<) (map fst xs)" "\<And>y. y \<in> set xs \<Longrightarrow> fst x < fst y" using Cons.prems(1) by simp_all
  have old: "\<exists>y. item w y = Some i \<and> (\<forall>x \<in> set xs. fst y < fst x)" if "i \<in> set acc" for i
    using Cons.prems(3) [OF that] by auto
  have "sorted_wrt (<) (map itemName (pushAll w (push w acc x) xs))"
  proof (cases "push w acc x = acc")
    case True
    then show ?thesis using Cons.IH [OF xs(1) Cons.prems(2) old] by simp
  next
    case False
    then obtain i where i: "item w x = Some i" "push w acc x = acc @ [i]" "\<And>cp. i = Inl cp \<Longrightarrow> i \<notin> set acc"
      by (auto simp: push_def split: option.splits sum.splits if_splits)
    have "itemName j < itemName i" if j: "j \<in> set acc" for j
    proof -
      obtain y where "item w y = Some j" "fst y < fst x" using Cons.prems(3) [OF j] by auto
      from item_order [OF this(1) i(1) this(2)] i(3) j show ?thesis by auto
    qed
    then have s: "sorted_wrt (<) (map itemName (acc @ [i]))" using Cons.prems(2) by (simp add: sorted_wrt_append)
    have "\<exists>y. item w y = Some j \<and> (\<forall>x \<in> set xs. fst y < fst x)" if "j \<in> set (acc @ [i])" for j
    proof (cases "j = i")
      case True
      then show ?thesis using i(1) xs(2) by (intro exI [of _ x]) simp
    next
      case False
      then show ?thesis using that old by simp
    qed
    from Cons.IH [OF xs(1) s this] i(2) show ?thesis by simp
  qed
  then show ?case by simp
qed simp

lemma walkOrder_sorted: "okEntries es \<Longrightarrow> sorted_wrt (<) (map fst (walkOrder skip p es))"
  using distinct_keys [of es skip p] by (simp add: walkOrder_def strict_sorted_iff distinct_map)

lemma listing_sorted: "okEntries es \<Longrightarrow> sorted_wrt (<) (map itemName (listing w es))"
  unfolding listing_def by (rule pushAll_sorted) (simp_all add: walkOrder_sorted)

section \<open>Markers\<close>

lemma item_marker:
  assumes "w_marker w \<le> m"
  shows "item (w\<lparr>w_marker := m\<rparr>) x = (case item w x of None \<Rightarrow> None | Some i \<Rightarrow> if m < itemName i then Some i else None)"
proof -
  have g: "groupOf (w\<lparr>w_marker := m\<rparr>) k = groupOf w k" for k by (simp add: groupOf_def)
  have o: "objectItem (w\<lparr>w_marker := m\<rparr>) k e = objectItem w k e" for k e by (simp add: objectItem_def)
  have le: "w_marker w < z" if "m < z" for z using assms that by (rule order.strict_trans1)
  show ?thesis
  proof (cases "prefix (w_prefix w) (fst x)")
    case p: True
    show ?thesis
    proof (cases "groupOf w (fst x)")
      case None
      then show ?thesis using le [of "fst x"]
        by (auto simp: item_def g o objectItem_def itemName_def split: sum.splits)
    next
      case (Some cp)
      have "m < fst x" if "m < cp" using that prefix_le [OF groupOf_prefix(1) [OF Some p]] by (rule order.strict_trans2)
      moreover have "w_marker w < fst x" if "w_marker w < cp"
        using that prefix_le [OF groupOf_prefix(1) [OF Some p]] by (rule order.strict_trans2)
      ultimately show ?thesis using le [of cp] Some by (auto simp: item_def g itemName_def)
    qed
  qed (simp add: item_def)
qed

lemma push_marker:
  assumes "w_marker w \<le> m"
  shows "push (w\<lparr>w_marker := m\<rparr>) (filter (\<lambda>i. m < itemName i) acc) x = filter (\<lambda>i. m < itemName i) (push w acc x)"
  by (auto simp: push_def item_marker [OF assms] split: option.splits sum.splits)

lemma listing_marker:
  assumes "w_marker w \<le> m"
  shows "listing (w\<lparr>w_marker := m\<rparr>) es = filter (\<lambda>i. m < itemName i) (listing w es)"
proof -
  have "pushAll (w\<lparr>w_marker := m\<rparr>) (filter (\<lambda>i. m < itemName i) acc) xs = filter (\<lambda>i. m < itemName i) (pushAll w acc xs)"
    for acc xs by (induction xs arbitrary: acc) (simp_all add: push_marker [OF assms])
  from this [of "[]"] show ?thesis by (simp add: listing_def)
qed

lemma listing_above: "i \<in> set (listing w es) \<Longrightarrow> w_marker w < itemName i"
proof -
  have "w_marker w < itemName j" if "item w x = Some j" for x j
    using that by (auto simp: item_def objectItem_def itemName_def split: if_splits option.splits sum.splits)
  then have push_above: "\<forall>i \<in> set (push w acc x). w_marker w < itemName i" if "\<forall>i \<in> set acc. w_marker w < itemName i" for acc x
    using that by (auto simp: push_def split: option.splits sum.splits)
  have "\<forall>i \<in> set (pushAll w acc xs). w_marker w < itemName i" if "\<forall>i \<in> set acc. w_marker w < itemName i" for acc xs
    using that
  proof (induction xs arbitrary: acc)
    case (Cons x xs)
    from Cons.IH [OF push_above [OF Cons.prems]] show ?case by simp
  qed simp
  from this [of "[]"] show "i \<in> set (listing w es) \<Longrightarrow> w_marker w < itemName i" by (simp add: listing_def)
qed

lemma sorted_filter_drop:
  fixes f :: "'a \<Rightarrow> 'b :: linorder"
  assumes "sorted_wrt (<) (map f xs)" "0 < n" "n \<le> length xs"
  shows "filter (\<lambda>x. f (xs ! (n - 1)) < f x) xs = drop n xs"
proof -
  have nth: "f (xs ! i) < f (xs ! j)" if "i < j" "j < length xs" for i j
    using sorted_wrt_nth_less [OF assms(1), of i j] that by simp
  have "\<not> f (xs ! (n - 1)) < f x" if x: "x \<in> set (take n xs)" for x
  proof -
    obtain i where i: "i < n" "x = xs ! i" using x assms(3) by (auto simp: in_set_conv_nth)
    then have "i = n - 1 \<or> i < n - 1" by linarith
    moreover have "f x < f (xs ! (n - 1))" if "i < n - 1" unfolding i(2) by (rule nth [OF that]) (use assms(2,3) in linarith)
    ultimately show ?thesis using i(2) by (auto dest: order.asym)
  qed
  moreover have "f (xs ! (n - 1)) < f x" if x: "x \<in> set (drop n xs)" for x
  proof -
    obtain i where "i < length xs - n" "x = xs ! (n + i)" using x by (auto simp: in_set_conv_nth)
    then show ?thesis using nth [of "n - 1" "n + i"] assms(2) by simp
  qed
  ultimately have "filter (\<lambda>x. f (xs ! (n - 1)) < f x) (take n xs @ drop n xs) = drop n xs"
    unfolding filter_append by simp
  then show ?thesis by simp
qed

text \<open>The listing after the marker of a page is the rest of the listing.\<close>

lemma listing_next:
  assumes ok: "okEntries es" and n: "0 < n" "n \<le> length (listing w es)"
  shows "listing (w\<lparr>w_marker := itemName (listing w es ! (n - 1))\<rparr>) es = drop n (listing w es)"
proof -
  have "n - 1 < length (listing w es)" using n by linarith
  then have "w_marker w \<le> itemName (listing w es ! (n - 1))" 
    using listing_above [OF nth_mem [of "n - 1" "listing w es"]] by simp
  from listing_marker [OF this] sorted_filter_drop [OF listing_sorted [OF ok] n] show ?thesis by simp
qed

section \<open>Following the markers\<close>

text \<open>
  A client that asks for page after page with the marker of the last one, at most \<open>n\<close> times;
  \<open>None\<close> when it meets an error or has asked \<open>n\<close> times.
\<close>

fun followMarkers :: "nat \<Rightarrow> 'o walkParams \<Rightarrow> (string list \<times> 'o list) option" where
  "followMarkers 0 w = None"
| "followMarkers (Suc n) w =
     (case Walk w of
        Some (Inr p) \<Rightarrow>
          if Truncated p then
            map_option (\<lambda>(cps, objs). (CommonPrefixes p @ cps, Objects p @ objs))
              (followMarkers n (w\<lparr>w_marker := NextMarker p\<rparr>))
          else Some (CommonPrefixes p, Objects p)
      | _ \<Rightarrow> None)"

lemma marker_irrelevant:
  "walking (w\<lparr>w_marker := m\<rparr>) t = walking w t" "plainPrefix (w\<lparr>w_marker := m\<rparr>) = plainPrefix w"
  "quiet (w\<lparr>w_marker := m\<rparr>) = quiet w"
  by (simp_all add: walking_def plainPrefix_def quiet_def)

lemma followMarkers_listing:
  assumes "walking w (Dir es)" "okEntries es" "plainPrefix w" "quiet w" "length (listing w es) < n"
  shows "followMarkers n w = Some (lefts (listing w es), map snd (rights (listing w es)))"
  using assms
proof (induction n arbitrary: w)
  case (Suc n)
  let ?M = "nat (w_max w)" and ?its = "listing w es"
  obtain p where p: "Walk w = Some (Inr p)" "isPage ?M ?its p"
    using Walk_ends [OF Suc.prems(1-3)] Suc.prems(4) by (auto simp: is_ok_iff)
  have M: "0 < ?M" using Suc.prems(1) by (simp add: walking_def)
  show ?case
  proof (cases "Truncated p")
    case True
    then have l: "?M \<le> length ?its" "NextMarker p = itemName (?its ! (?M - 1))" using p(2) by (simp_all add: isPage_def)
    have rest: "listing (w\<lparr>w_marker := NextMarker p\<rparr>) es = drop ?M ?its"
      using listing_next [OF Suc.prems(2) M l(1)] by (simp only: l(2))
    have "followMarkers n (w\<lparr>w_marker := NextMarker p\<rparr>) = Some (lefts (drop ?M ?its), map snd (rights (drop ?M ?its)))"
      using Suc.IH [of "w\<lparr>w_marker := NextMarker p\<rparr>"] Suc.prems M l(1) by (simp add: marker_irrelevant rest)
    moreover have "lefts (take ?M ?its) @ lefts (drop ?M ?its) = lefts ?its" "rights (take ?M ?its) @ rights (drop ?M ?its) = rights ?its"
      by (simp_all flip: lefts_rights_append)
    ultimately show ?thesis using p True by (simp add: isPage_def flip: map_append)
  next
    case False
    then have "take ?M ?its = ?its" using p(2) by (auto simp: isPage_def)
    then show ?thesis using p False by (simp add: isPage_def)
  qed
qed simp

section \<open>The file system of a tree\<close>

lemmas walkRec_eval [code] =
  walkRec_ReadDir walkRec_Entries_Nil walkRec_Entries walkRec_Process_Nil walkRec_Process walkRec_Self

definition treeFS :: "node \<Rightarrow> FS" where
  "treeFS t = \<lparr>
     fs_ReadDir = (\<lambda>path. case treeAt t path of Some (Dir es) \<Rightarrow> Inr (map dirent es) | _ \<Rightarrow> Inl fs_ErrNotExist),
     fs_Stat = (\<lambda>path. case treeAt t path of
        None \<Rightarrow> Inl fs_ErrNotExist
      | Some nd \<Rightarrow> Inr (dirent (path_Base path, nd)))\<rparr>"

lemma serves_treeFS: "serves (treeFS t) t"
  by (auto simp: serves_def treeFS_def dirent_def split: option.splits node.splits)

text \<open>A bucket with a file \<open>a-b\<close>, a file \<open>x\<close> in the directory \<open>a\<close>, and the gateway's own directory.\<close>

definition demoEntries :: "(string \<times> node) list" where
  "demoEntries =
     [(''.sgwtmp'', Dir [(''multipart'', Dir [(''part'', File)])]), (''a'', Dir [(''x'', File)]), (''a-b'', File)]"

definition demoWalk :: "string \<Rightarrow> string \<Rightarrow> int \<Rightarrow> string walkParams" where
  "demoWalk pfx delim mx = \<lparr>w_ctxErr = (\<lambda>_. None), w_fileSystem = treeFS (Dir demoEntries), w_prefix = pfx,
     w_delimiter = delim, w_marker = [], w_max = mx,
     w_getObj = (\<lambda>k e. if de_IsDir e then Inl ErrSkipObj else Inr k), w_skipdirs = [''.sgwtmp'']\<rparr>"

lemma demo_ok: "okEntries demoEntries"
  by code_simp

lemma demo_listing: "listing (demoWalk [] ''/'' 1) demoEntries = [Inr (''a-b'', ''a-b''), Inl ''a/'']"
  by code_simp

lemma demo_quiet: "quiet (demoWalk p d m)"
  by (simp add: quiet_def demoWalk_def)

lemma demo_walking: "0 < m \<Longrightarrow> walking (demoWalk p d m) (Dir demoEntries)"
  by (simp add: walking_def demoWalk_def serves_treeFS)

lemma demo_plain: "plainPrefix (demoWalk [] d m)"
  by (simp add: plainPrefix_def demoWalk_def Split_def)

section \<open>Properties\<close>

text \<open>
  C8. Over a file system that serves a tree of named files and directories, and for a prefix that does not
  run through a hidden directory, \<open>Walk\<close> always returns. It returns no error unless the context is
  cancelled or \<open>getObj\<close> fails. What it returns is one page of the listing: the first \<open>max\<close> entries, in
  byte order of the keys although directories are read in the order of their names, each common prefix
  once; the page is not marked as truncated only if nothing is left, and the marker is the last entry.
\<close>

theorem Walk_page:
  assumes "serves (w_fileSystem w) (Dir es)" "okEntries es" "0 < w_max w" "plainPrefix w"
  shows "\<exists>r. Walk w = Some r \<and> (quiet w \<longrightarrow> is_ok r)
    \<and> (\<forall>p. r = Inr p \<longrightarrow> isPage (nat (w_max w)) (listing w es) p)"
  using Walk_ends [of w es] assms by (simp add: walking_def)

theorem Walk_page_witness:
  "\<exists>p. Walk (demoWalk [] ''/'' 1) = Some (Inr p) \<and> CommonPrefixes p = [] \<and> Objects p = [''a-b'']
    \<and> Truncated p \<and> NextMarker p = ''a-b''"
proof -
  let ?w = "demoWalk [] ''/'' 1"
  have m: "w_max ?w = 1" "w_fileSystem ?w = treeFS (Dir demoEntries)" by (simp_all add: demoWalk_def)
  obtain p where "Walk ?w = Some (Inr p)" "isPage 1 (listing ?w demoEntries) p"
    using Walk_page [of ?w demoEntries] serves_treeFS demo_ok demo_plain demo_quiet
    by (auto simp: m is_ok_iff)
  then show ?thesis by (simp add: demo_listing isPage_def itemName_def)
qed

text \<open>
  C9. Asking for page after page with the marker of the last page returns every entry of the listing, each
  exactly once and in order, and ends after at most one request more than there are entries.
\<close>

theorem pages_complete:
  assumes "serves (w_fileSystem w) (Dir es)" "okEntries es" "0 < w_max w" "plainPrefix w" "quiet w"
    and "length (listing w es) < n"
  shows "followMarkers n w = Some (lefts (listing w es), map snd (rights (listing w es)))
    \<and> sorted_wrt (<) (map itemName (listing w es))"
  using followMarkers_listing [of w es n] listing_sorted assms by (simp add: walking_def)

theorem pages_complete_witness:
  "followMarkers 3 (demoWalk [] ''/'' 1) = Some ([''a/''], [''a-b''])"
proof -
  let ?w = "demoWalk [] ''/'' 1"
  have m: "w_max ?w = 1" "w_fileSystem ?w = treeFS (Dir demoEntries)" by (simp_all add: demoWalk_def)
  show ?thesis
    using pages_complete [of ?w demoEntries 3] serves_treeFS demo_ok demo_plain demo_quiet
    by (simp add: m demo_listing)
qed


end
