(* ===== verification/Spec2Isabelle.thy ===== *)
theory Spec2Isabelle
  imports Object_Lock Bucket_CORS Post_Policy Lifecycle_Coordinator Multipart_Lister Copy_Source
    Standalone_IAM IAM_Store Encryption_Container Listing_Pages
begin

text \<open>
  This library models versitygw, an S3 gateway written in Go, from the code that decides who
  may do what to which object, the code the storage backends share and the IAM service beside
  the gateway. Names of definitions are the names of the code; where Go has a method \<open>T.m\<close>, the definition is \<open>T_m\<close> or \<open>m\<close>.

  \<^bold>\<open>Conventions.\<close> A Go struct is a record, an error is a value of \<open>go_error\<close>, a pointer that
  may be nil is an option, a function with an error result returns \<open>(go_error, 'a) result\<close>, a
  panic is the error \<open>NilPointer\<close>. A Go map whose iteration order can be observed is a list in one
  iteration order, and theorems quantify over that list. Strings are byte strings with the ASCII
  part of the case mappings. Instants are nanoseconds as integers; the clock is a parameter. Bytes
  that only encoding/json reads are given as the syntax tree \<open>json\<close> (or \<open>None\<close>, not JSON at all),
  XML bodies as the decoded structure. What the Go library parses (floats, dates, addresses) is
  the record \<open>cond_host\<close>, the storage backend the record \<open>backend\<close>, an identity-policy
  service the function \<open>PolicyEvaluator\<close>.

  \<^bold>\<open>Theories.\<close>
  \<^item> \<open>Go_Prelude\<close>: results, strings, decimal numbers, JSON and the fact collections.
  \<^item> \<open>Glob_Match\<close>: the three wildcard matchers (matchPattern, GlobMatch, wildcardMatch). The
    locale \<open>wildcard_loop\<close> proves them equal to the glob relation for inputs without a star; the
    backtracking loops terminate by a lexicographic measure, so no fuel is needed.
  \<^item> \<open>S3_Errors\<close>: the errors of s3err the modelled code returns.
  \<^item> \<open>Condition_Eval\<close> (internal/condition): operators, variable substitution, evaluation.
  \<^item> \<open>Policy_Actions\<close>, \<open>Bucket_Policy\<close> (auth/bucket_policy*.go): decoding, validation and
    decisions; the locale \<open>statement_loop\<close> carries the shared loop of principal and public
    decisions. Deny overrides, accepted documents are evaluable and confined to their bucket.
  \<^item> \<open>IAM_Accounts\<close> (auth/iam*.go): accounts, the services and the cache; the locale
    \<open>account_service\<close> states what the cache relies on and the cache refines every such service.
  \<^item> \<open>Bucket_ACL\<close> (auth/acl.go): storing, updating and checking ACLs.
  \<^item> \<open>Access_Control\<close> (auth/access-control.go, condition_context.go): the composition of bucket
    policy or ACL, identity policy and session policy.
  \<^item> \<open>Object_Lock\<close> (auth/object_lock.go): retention, legal hold, bypass and multi-object delete.
  \<^item> \<open>Bucket_CORS\<close> (auth/bucket_cors.go): CORS validation and preflight answers.
  \<^item> \<open>Post_Policy\<close> (auth/post_policy.go): policies of browser uploads; the locale
    \<open>form_condition\<close> carries what their conditions share. An accepted form is bound by its policy.
  \<^item> \<open>Lifecycle\<close> (internal/lifecycle/types.go, validate.go, evaluate.go): which action a
    configuration selects for which object. Durations are int64, where they can overflow.
  \<^item> \<open>Lifecycle_Coordinator\<close> (internal/lifecycle/coordinator.go): a run over the buckets as a
    trace of calls. Its loop over pages is a partial function; it is shown to return when the
    cursors of the executor advance.
  \<^item> \<open>Multipart_Lister\<close> (backend/mp-lister.go, the end of ListMultipartUploads in
    backend/posix/posix.go): pages of multipart listings.
  \<^item> \<open>Object_Walk\<close> (backend/walk.go): the walk behind object listings, a partial function over the
    file system and the callback \<open>getObj\<close>, which are parameters. \<open>Bucket_Tree\<close> holds the content of
    a bucket as a tree and the byte order of its keys, \<open>Object_Listing\<close> relates every call of the
    recursion to the sorted list of entries, and \<open>Listing_Pages\<close> shows that \<open>Walk\<close> returns, that it returns a
    page of that list, and that the markers lead through all of it.
  \<^item> \<open>Backend_Common\<close> (backend/common.go): ranges, copy sources, tags, entity tags, multipart
    metadata and conditional requests.
  \<^item> \<open>Copy_Source\<close>: what access control and the backends each read from one copy source.
  \<^item> \<open>Identity_Policy\<close> (iamapi/policy): identity policies and role trust policies, from the JSON
    document to the decision.
  \<^item> \<open>Standalone_IAM\<close> (auth/iam_standalone.go, iamapi/private, iamapi/internal): the way of a
    policy question from the gateway to the IAM service and back. It instantiates the
    \<open>PolicyEvaluator\<close> of \<open>Access_Control\<close> with the code of the service.
  \<^item> \<open>IAM_Store\<close> (internal/iamstore): the file behind the IAM services. \<open>gateway_step\<close> interleaves
    one gateway with others and with operators; the retry loop has the bound of the code, 300.
  \<^item> \<open>Encryption_Keys\<close> (internal/encryption/provider.go, aws_provider.go): who wraps data keys; the
    locale \<open>key_provider\<close> is the contract of the four kinds of provider.
  \<^item> \<open>Encryption_Container\<close> (internal/encryption/container.go): the format of encrypted objects and
    stores. Writing and reading are loops that are shown to return, for texts up to 2 ^ 52 bytes,
    where chunk numbers fit in uint32.

  \<^bold>\<open>Not modelled.\<close> The storage backends (posix but for the listings above, azure, s3proxy, scoutfs), the listing of
  object versions (WalkVersions), the HTTP layer
  (s3api), the HTTP surface of the IAM API and its record keeping, logging, metrics and events, and the remaining account
  backends (LDAP, Vault, IPA, S3) are I/O against systems outside the repository; what the
  modelled code needs from them is a parameter.
\<close>

end
